(* ===== verification/Mam_Prelude.thy ===== *)
theory Mam_Prelude
  imports Main "HOL-Library.Word" "HOL-Library.List_Lexorder" "HOL-Library.AList"
    "HOL-Library.Sublist"
begin

unbundle bit_operations_syntax

text \<open>
  The shared base of the development: the Go data types the sources use (bytes, fixed-size byte
  arrays, sized integers, strings, errors, times and durations), the big-endian integer encodings
  of \<^verbatim>\<open>encoding/binary\<close>, Go maps keyed by 16-byte identifiers, the generic
  reachability predicate of step relations with its invariant locale, and list lemmas on
  concatenated fixed-width fields that the digest and framing proofs share.
\<close>

named_theorems layout_simps \<open>lengths and inversions of the byte layouts\<close>

section \<open>Bytes, integers, strings\<close>

type_synonym byte = "8 word"
type_synonym u8 = "8 word"
type_synonym u16 = "16 word"
type_synonym u32 = "32 word"
type_synonym u64 = "64 word"

text \<open>A Go string is a sequence of bytes; the conversion \<^verbatim>\<open>[]byte(s)\<close>.\<close>

definition bytes_of_string :: "string \<Rightarrow> byte list" where
  "bytes_of_string s = map of_char s"

lemma length_bytes_of_string [simp, layout_simps]: "length (bytes_of_string s) = length s"
  by (simp add: bytes_of_string_def)

lemma bytes_of_string_append [simp]:
  "bytes_of_string (s @ t) = bytes_of_string s @ bytes_of_string t"
  by (simp add: bytes_of_string_def)

lemma bytes_of_string_Nil [simp]: "bytes_of_string [] = []"
  by (simp add: bytes_of_string_def)

lemma inj_of_char_byte: "inj (of_char :: char \<Rightarrow> byte)"
proof (rule injI)
  fix c d :: char
  assume "(of_char c :: byte) = of_char d"
  then have "(of_nat (of_char c) :: byte) = of_nat (of_char d)"
    by (simp add: of_nat_of_char)
  then have "(of_char c :: nat) mod 256 = of_char d mod 256"
    by (simp add: word_of_nat_eq_iff take_bit_eq_mod)
  then show "c = d"
    by (simp add: of_char_mod_256)
qed

lemma bytes_of_string_inject [simp]: "bytes_of_string s = bytes_of_string t \<longleftrightarrow> s = t"
  unfolding bytes_of_string_def by (simp add: inj_map_eq_map [OF inj_of_char_byte])

section \<open>Fixed-size byte arrays\<close>

text \<open>
  \<^verbatim>\<open>[16]byte\<close>, \<^verbatim>\<open>[32]byte\<close> and \<^verbatim>\<open>[64]byte\<close> are \<open>16 bytes\<close>, \<open>32 bytes\<close>
  and \<open>64 bytes\<close>. \<open>copy_bytes\<close> is Go's \<^verbatim>\<open>copy(a[:], src)\<close> into a zero array
  (and a composite literal such as \<^verbatim>\<open>[16]byte{1}\<close>): what is missing stays zero, what is
  too long is cut.
\<close>

typedef (overloaded) 'n::len bytes = "{xs :: byte list. length xs = LENGTH('n)}"
  morphisms list_of_bytes Abs_bytes
proof
  show "replicate LENGTH('n) 0 \<in> {xs :: byte list. length xs = LENGTH('n)}" by simp
qed

declare list_of_bytes_inverse [code abstype]

definition copy_bytes :: "byte list \<Rightarrow> 'n::len bytes" where
  "copy_bytes xs = Abs_bytes (take LENGTH('n) xs @ replicate (LENGTH('n) - length xs) 0)"

definition zero_bytes :: "'n::len bytes" where
  "zero_bytes = copy_bytes []"

lemma length_list_of_bytes [simp, layout_simps]: "length (list_of_bytes (a :: 'n::len bytes)) = LENGTH('n)"
  using list_of_bytes [of a] by simp

lemma list_of_bytes_inject_iff [simp]: "list_of_bytes a = list_of_bytes b \<longleftrightarrow> a = b"
  by (rule list_of_bytes_inject)

lemma list_of_bytes_copy [code abstract]:
  "list_of_bytes (copy_bytes xs :: 'n::len bytes)
     = take LENGTH('n) xs @ replicate (LENGTH('n) - length xs) 0"
  unfolding copy_bytes_def by (rule Abs_bytes_inverse) simp

lemma list_of_bytes_copy_exact:
  "length xs = LENGTH('n) \<Longrightarrow> list_of_bytes (copy_bytes xs :: 'n::len bytes) = xs"
  by (simp add: list_of_bytes_copy)

lemma copy_list_of_bytes [simp]: "copy_bytes (list_of_bytes a) = a"
  by (simp add: list_of_bytes_copy_exact flip: list_of_bytes_inject_iff)

instantiation bytes :: (len) equal
begin

definition equal_bytes :: "'a bytes \<Rightarrow> 'a bytes \<Rightarrow> bool" where
  "equal_bytes a b \<longleftrightarrow> list_of_bytes a = list_of_bytes b"

instance
  by standard (simp add: equal_bytes_def)

end

text \<open>
  The order of \<^verbatim>\<open>bytes.Compare\<close> and of Go's string comparison: lexicographic on the
  bytes.
\<close>

instantiation bytes :: (len) linorder
begin

definition less_eq_bytes :: "'a bytes \<Rightarrow> 'a bytes \<Rightarrow> bool" where
  "less_eq_bytes a b \<longleftrightarrow> list_of_bytes a \<le> list_of_bytes b"

definition less_bytes :: "'a bytes \<Rightarrow> 'a bytes \<Rightarrow> bool" where
  "less_bytes a b \<longleftrightarrow> list_of_bytes a < list_of_bytes b"

instance
  by standard (auto simp: less_eq_bytes_def less_bytes_def order.strict_iff_order)

end

type_synonym id16 = "16 bytes"
type_synonym hash32 = "32 bytes"
type_synonym sig64 = "64 bytes"

section \<open>Big-endian integers\<close>

text \<open>\<^verbatim>\<open>binary.BigEndian.PutUint16/32/64\<close>: \<open>put_be k w\<close> writes the low \<open>k\<close> bytes of \<open>w\<close>.\<close>

fun put_be :: "nat \<Rightarrow> 'a::len word \<Rightarrow> byte list" where
  "put_be 0 w = []"
| "put_be (Suc k) w = (ucast (drop_bit (8 * k) w) :: byte) # put_be k w"

definition PutUint16 :: "u16 \<Rightarrow> byte list" where "PutUint16 = put_be 2"
definition PutUint32 :: "u32 \<Rightarrow> byte list" where "PutUint32 = put_be 4"
definition PutUint64 :: "u64 \<Rightarrow> byte list" where "PutUint64 = put_be 8"

text \<open>The matching read: \<^verbatim>\<open>binary.BigEndian\<close> as a left fold over the bytes.\<close>

definition get_be :: "byte list \<Rightarrow> 'a::len word" where
  "get_be bs = foldl (\<lambda>acc b. push_bit 8 acc OR ucast b) 0 bs"

lemma length_put_be [simp, layout_simps]: "length (put_be k w) = k"
  by (induction k) auto

lemma length_PutUint [simp, layout_simps]:
  "length (PutUint16 a) = 2" "length (PutUint32 b) = 4" "length (PutUint64 c) = 8"
  by (simp_all add: PutUint16_def PutUint32_def PutUint64_def)

lemma get_be_snoc: "get_be (bs @ [b]) = push_bit 8 (get_be bs) OR ucast b"
  by (simp add: get_be_def)

lemma foldl_be:
  "foldl (\<lambda>acc b. push_bit 8 acc OR ucast b) (drop_bit (8 * k) w) (put_be k w) = (w :: 'a::len word)"
proof (induction k)
  case 0
  then show ?case by simp
next
  case (Suc k)
  have "push_bit 8 (drop_bit (8 * Suc k) w) OR ucast (ucast (drop_bit (8 * k) w) :: byte)
      = drop_bit (8 * k) w"
    by (rule bit_word_eqI)
      (auto simp: bit_or_iff bit_push_bit_iff bit_drop_bit_eq bit_ucast_iff bit_simps
        dest: bit_imp_le_length)
  with Suc.IH show ?case by simp
qed

lemma get_put_be:
  assumes "LENGTH('a) \<le> 8 * k"
  shows "get_be (put_be k w) = (w :: 'a::len word)"
proof -
  have "drop_bit (8 * k) w = 0"
    using assms by (intro bit_word_eqI) (auto simp: bit_drop_bit_eq dest: bit_imp_le_length)
  with foldl_be [of k w] show ?thesis by (simp add: get_be_def)
qed

lemma get_PutUint [simp]:
  "get_be (PutUint16 a) = a" "get_be (PutUint32 b) = b" "get_be (PutUint64 c) = c"
  by (simp_all add: PutUint16_def PutUint32_def PutUint64_def get_put_be)

lemma PutUint_inject [simp]:
  "PutUint16 a = PutUint16 a' \<longleftrightarrow> a = a'"
  "PutUint32 b = PutUint32 b' \<longleftrightarrow> b = b'"
  "PutUint64 c = PutUint64 c' \<longleftrightarrow> c = c'"
  by (metis get_PutUint)+

lemma put_be_snoc: "put_be (Suc k) w = put_be k (drop_bit 8 w) @ [ucast w]"
  by (induction k) (simp_all add: drop_bit_drop_bit add.commute)

lemma bit_get_be: "bit (get_be bs :: 'a::len word) i \<Longrightarrow> i < 8 * length bs"
proof (induction bs arbitrary: i rule: rev_induct)
  case Nil
  then show ?case by (simp add: get_be_def)
next
  case (snoc b bs)
  from snoc.prems have "(8 \<le> i \<and> bit (get_be bs :: 'a word) (i - 8)) \<or> bit b i"
    by (auto simp: get_be_snoc bit_or_iff bit_push_bit_iff bit_ucast_iff)
  then show ?case
    using snoc.IH [of "i - 8"] bit_imp_le_length [of b i] by auto
qed

text \<open>Writing back what was read gives the bytes, when the word is wide enough.\<close>

lemma put_get_be:
  "8 * length bs \<le> LENGTH('a) \<Longrightarrow> put_be (length bs) (get_be bs :: 'a::len word) = bs"
proof (induction bs rule: rev_induct)
  case Nil
  then show ?case by simp
next
  case (snoc b bs)
  let ?g = "get_be bs :: 'a word"
  have "drop_bit 8 (push_bit 8 ?g OR ucast b) = ?g"
    using snoc.prems
    by (intro bit_word_eqI)
      (auto simp: bit_simps dest: bit_get_be bit_imp_le_length)
  moreover have "ucast (push_bit 8 ?g OR ucast b) = b"
    using snoc.prems by (intro bit_word_eqI) (auto simp: bit_simps)
  ultimately show ?case
    using snoc by (simp add: put_be_snoc get_be_snoc del: put_be.simps)
qed

lemma PutUint_get:
  "length bs = 2 \<Longrightarrow> PutUint16 (get_be bs) = bs" "length cs = 4 \<Longrightarrow> PutUint32 (get_be cs) = cs"
  using put_get_be [of bs, where 'a = 16] put_get_be [of cs, where 'a = 32]
  by (simp_all add: PutUint16_def PutUint32_def)

lemmas word_bits_eq = bit_eq_iff [where 'a = "'b::len word"]

section \<open>Concatenated fields\<close>

lemma append_eq_fixed:
  "length a = length b \<Longrightarrow> a @ x = b @ y \<longleftrightarrow> a = b \<and> x = y"
  by (rule append_eq_append_conv) simp

lemma append_bytes_eq [simp]:
  fixes a b :: "'n::len bytes"
  shows "list_of_bytes a @ x = list_of_bytes b @ y \<longleftrightarrow> a = b \<and> x = y"
  by (simp add: append_eq_fixed)

lemma append_PutUint_eq [simp]:
  "PutUint64 u @ x = PutUint64 v @ y \<longleftrightarrow> u = v \<and> x = y"
  "PutUint32 m @ x = PutUint32 n @ y \<longleftrightarrow> m = n \<and> x = y"
  "PutUint16 p @ x = PutUint16 q @ y \<longleftrightarrow> p = q \<and> x = y"
  by (simp_all add: append_eq_fixed)

lemma append_byte_string_eq:
  "length s = length t \<Longrightarrow>
     bytes_of_string s @ x = bytes_of_string t @ y \<longleftrightarrow> s = t \<and> x = y"
  by (simp add: append_eq_fixed)

text \<open>A separator that occurs in neither first field splits a concatenation uniquely.\<close>

lemma split_at_separator:
  assumes "z \<notin> set a" and "z \<notin> set b"
  shows "a @ z # x = b @ z # y \<longleftrightarrow> a = b \<and> x = y"
  using assms
proof (induction a arbitrary: b)
  case Nil
  then show ?case by (cases b) auto
next
  case (Cons c cs)
  then show ?case by (cases b) auto
qed

section \<open>Errors\<close>

text \<open>
  A Go error value: \<^verbatim>\<open>errors.New\<close> and \<^verbatim>\<open>fmt.Errorf\<close> strings, and the
  coded error of \<^verbatim>\<open>pkg/rpc/errors.go\<close>.
\<close>

datatype Code = CodeOK | CodeInvalidArgument | CodeInternal

datatype go_error = ErrorString string | RpcError Code string

section \<open>Time\<close>

text \<open>
  \<^verbatim>\<open>time.Time\<close> as nanoseconds since the Unix epoch; the zero time is 1 January of year
  1. \<^verbatim>\<open>time.Duration\<close> is a signed 64-bit count of nanoseconds, and
  \<^verbatim>\<open>Time.Sub\<close> saturates at its bounds.
\<close>

type_synonym go_time = int
type_synonym duration = int

definition zero_time :: go_time where
  "zero_time = - 62135596800 * 1000000000"

definition IsZero :: "go_time \<Rightarrow> bool" where
  "IsZero t \<longleftrightarrow> t = zero_time"

definition Unix :: "go_time \<Rightarrow> int" where
  "Unix t = t div 1000000000"

definition UnixNano :: "go_time \<Rightarrow> u64" where
  "UnixNano t = word_of_int t"

definition time_Sub :: "go_time \<Rightarrow> go_time \<Rightarrow> duration" where
  "time_Sub t u = max (- (2 ^ 63)) (min (2 ^ 63 - 1) (t - u))"

definition time_Add :: "go_time \<Rightarrow> duration \<Rightarrow> go_time" where
  "time_Add t d = t + d"

definition Second :: duration where "Second = 1000000000"
definition Hour :: duration where "Hour = 3600 * Second"

section \<open>Maps keyed by identifiers\<close>

text \<open>
  A Go map is an association list with distinct keys; its list order stands for the (random)
  iteration order of \<^verbatim>\<open>range\<close>. The contract of a map is the locale below; the snapshot
  and the gateway use a map only through it.
\<close>

locale keyed_store =
  fixes get :: "'m \<Rightarrow> 'k \<Rightarrow> 'v option"
    and put :: "'k \<Rightarrow> 'v \<Rightarrow> 'm \<Rightarrow> 'm"
    and del :: "'k \<Rightarrow> 'm \<Rightarrow> 'm"
    and make :: 'm
    and wf :: "'m \<Rightarrow> bool"
  assumes get_make: "get make k = None"
    and get_put: "get (put k v m) k' = (if k' = k then Some v else get m k')"
    and get_del: "get (del k m) k' = (if k' = k then None else get m k')"
    and wf_make: "wf make"
    and wf_put: "wf m \<Longrightarrow> wf (put k v m)"
    and wf_del: "wf m \<Longrightarrow> wf (del k m)"
begin

lemmas store_simps = get_make get_put get_del wf_make wf_put wf_del

lemma get_put_same: "get (put k v m) k = Some v"
  by (simp add: get_put)

lemma get_put_other: "k' \<noteq> k \<Longrightarrow> get (put k v m) k' = get m k'"
  by (simp add: get_put)

end

definition map_delete :: "'k \<Rightarrow> ('k \<times> 'v) list \<Rightarrow> ('k \<times> 'v) list" where
  "map_delete k m = AList.delete k m"

definition map_assign :: "'k \<Rightarrow> 'v \<Rightarrow> ('k \<times> 'v) list \<Rightarrow> ('k \<times> 'v) list" where
  "map_assign k v m = AList.update k v m"

interpretation gomap: keyed_store "map_of :: ('k \<times> 'v) list \<Rightarrow> 'k \<Rightarrow> 'v option"
    map_assign map_delete "[]" "\<lambda>m. distinct (map fst m)"
  by unfold_locales
    (auto simp: map_assign_def map_delete_def update_conv' delete_conv' AList.distinct_update AList.distinct_delete)

lemmas gomap_simps = gomap.store_simps

text \<open>\<^verbatim>\<open>strings.Contains\<close>.\<close>

definition strings_Contains :: "string \<Rightarrow> string \<Rightarrow> bool" where
  "strings_Contains s substr = sublist substr s"

section \<open>Reachable states of a step relation\<close>

inductive reach :: "('s \<Rightarrow> bool) \<Rightarrow> ('s \<Rightarrow> 's \<Rightarrow> bool) \<Rightarrow> 's \<Rightarrow> bool"
  for init :: "'s \<Rightarrow> bool" and step :: "'s \<Rightarrow> 's \<Rightarrow> bool" where
  reach_init: "init s \<Longrightarrow> reach init step s"
| reach_step: "reach init step s \<Longrightarrow> step s t \<Longrightarrow> reach init step t"

lemma reach_run: "step\<^sup>*\<^sup>* s t \<Longrightarrow> reach init step s \<Longrightarrow> reach init step t"
  by (induction rule: rtranclp_induct) (auto intro: reach_step)

locale invariant_system =
  fixes init :: "'s \<Rightarrow> bool" and step :: "'s \<Rightarrow> 's \<Rightarrow> bool" and I :: "'s \<Rightarrow> bool"
  assumes init_I: "init s \<Longrightarrow> I s"
    and step_I: "I s \<Longrightarrow> step s t \<Longrightarrow> I t"
begin

lemma reach_I: "reach init step s \<Longrightarrow> I s"
  by (induction rule: reach.induct) (auto intro: init_I step_I)

end

text \<open>
  Liveness: a relation whose steps use up a number and which can move until it is done reaches a done
  state from every good state, and every run is short.
\<close>

locale terminating_system =
  fixes good :: "'s \<Rightarrow> bool" and step :: "'s \<Rightarrow> 's \<Rightarrow> bool" and left :: "'s \<Rightarrow> nat"
    and finished :: "'s \<Rightarrow> bool"
  assumes good_step: "good s \<Longrightarrow> step s t \<Longrightarrow> good t"
    and decreases: "good s \<Longrightarrow> step s t \<Longrightarrow> left t < left s"
    and progress: "good s \<Longrightarrow> \<not> finished s \<Longrightarrow> \<exists>t. step s t"
begin

lemma reaches_finished: "good s \<Longrightarrow> \<exists>t. step\<^sup>*\<^sup>* s t \<and> finished t"
proof (induction "left s" arbitrary: s rule: less_induct)
  case less
  show ?case
  proof (cases "finished s")
    case False
    with less.prems progress obtain t where t: "step s t" by blast
    with less decreases good_step obtain u where "step\<^sup>*\<^sup>* t u" "finished u" by blast
    with t show ?thesis by (blast intro: converse_rtranclp_into_rtranclp)
  qed blast
qed

lemma run_bound: "(step ^^ n) s t \<Longrightarrow> good s \<Longrightarrow> n + left t \<le> left s"
proof (induction n arbitrary: t)
  case (Suc n)
  then obtain u where u: "(step ^^ n) s u" "step u t" by auto
  have "good v" if "(step ^^ k) s v" for k v
    using that Suc.prems(2) by (induction k arbitrary: v) (auto intro: good_step)
  with Suc u decreases show ?case by fastforce
qed simp

end

lemma sum_list_map_update:
  fixes f :: "'a \<Rightarrow> nat"
  assumes "i < length xs"
  shows "sum_list (map f (xs[i := x])) + f (xs ! i) = sum_list (map f xs) + f x"
  using assms
proof (induction xs arbitrary: i)
  case Nil
  then show ?case by simp
next
  case (Cons y ys)
  then show ?case by (cases i) (auto simp: add_ac)
qed

lemma sum_list_map_bound: "(\<And>x. f x \<le> (b :: nat)) \<Longrightarrow> sum_list (map f xs) \<le> b * length xs"
  by (induction xs) (auto intro: add_mono)

end
