(* ===== verification/Sha256.thy ===== *)
theory Sha256
  imports Mam_Prelude
begin

text \<open>
  \<^verbatim>\<open>crypto/sha256\<close> as the sources use it: a digest object that collects what is
  written to it and, on \<^verbatim>\<open>Sum(nil)\<close>, returns the SHA-256 value of all of it. The
  compression function follows FIPS 180-4; theory Sha256_Vector evaluates a published test vector.
\<close>

unbundle bit_operations_syntax

definition rotr32 :: "nat \<Rightarrow> u32 \<Rightarrow> u32" where
  "rotr32 n x = drop_bit n x OR push_bit (32 - n) x"

definition sha_Ch :: "u32 \<Rightarrow> u32 \<Rightarrow> u32 \<Rightarrow> u32" where
  "sha_Ch x y z = (x AND y) XOR (NOT x AND z)"

definition sha_Maj :: "u32 \<Rightarrow> u32 \<Rightarrow> u32 \<Rightarrow> u32" where
  "sha_Maj x y z = (x AND y) XOR (x AND z) XOR (y AND z)"

definition sha_Sum0 :: "u32 \<Rightarrow> u32" where
  "sha_Sum0 x = rotr32 2 x XOR rotr32 13 x XOR rotr32 22 x"

definition sha_Sum1 :: "u32 \<Rightarrow> u32" where
  "sha_Sum1 x = rotr32 6 x XOR rotr32 11 x XOR rotr32 25 x"

definition sha_sig0 :: "u32 \<Rightarrow> u32" where
  "sha_sig0 x = rotr32 7 x XOR rotr32 18 x XOR drop_bit 3 x"

definition sha_sig1 :: "u32 \<Rightarrow> u32" where
  "sha_sig1 x = rotr32 17 x XOR rotr32 19 x XOR drop_bit 10 x"

text \<open>Eight words per row, most significant word first.\<close>

definition words_of_row :: "256 word \<Rightarrow> u32 list" where
  "words_of_row r = map (\<lambda>i. ucast (drop_bit (32 * i) r)) [7, 6, 5, 4, 3, 2, 1, 0]"

definition sha_K :: "u32 list" where
  "sha_K = concat (map words_of_row
    [0x428a2f9871374491b5c0fbcfe9b5dba53956c25b59f111f1923f82a4ab1c5ed5,
     0xd807aa9812835b01243185be550c7dc372be5d7480deb1fe9bdc06a7c19bf174,
     0xe49b69c1efbe47860fc19dc6240ca1cc2de92c6f4a7484aa5cb0a9dc76f988da,
     0x983e5152a831c66db00327c8bf597fc7c6e00bf3d5a7914706ca635114292967,
     0x27b70a852e1b21384d2c6dfc53380d13650a7354766a0abb81c2c92e92722c85,
     0xa2bfe8a1a81a664bc24b8b70c76c51a3d192e819d6990624f40e3585106aa070,
     0x19a4c1161e376c082748774c34b0bcb5391c0cb34ed8aa4a5b9cca4f682e6ff3,
     0x748f82ee78a5636f84c878148cc7020890befffaa4506cebbef9a3f7c67178f2])"

type_synonym sha_state = "u32 \<times> u32 \<times> u32 \<times> u32 \<times> u32 \<times> u32 \<times> u32 \<times> u32"

fun state_of_words :: "u32 list \<Rightarrow> sha_state" where
  "state_of_words [a, b, c, d, e, f, g, h] = (a, b, c, d, e, f, g, h)"
| "state_of_words _ = (0, 0, 0, 0, 0, 0, 0, 0)"

definition sha_init :: sha_state where
  "sha_init = state_of_words (words_of_row
     0x6a09e667bb67ae853c6ef372a54ff53a510e527f9b05688c1f83d9ab5be0cd19)"

text \<open>
  The message schedule keeps the last sixteen words as its window: the head is the word of the
  current round, and the word sixteen rounds later is appended at the end.
\<close>

definition sha_next_word :: "u32 list \<Rightarrow> u32" where
  "sha_next_word w = sha_sig1 (w ! 14) + w ! 9 + sha_sig0 (w ! 1) + w ! 0"

fun sha_rounds :: "u32 list \<Rightarrow> u32 list \<Rightarrow> sha_state \<Rightarrow> sha_state" where
  "sha_rounds [] w s = s"
| "sha_rounds (k # ks) w (a, b, c, d, e, f, g, h) =
     (let t1 = h + sha_Sum1 e + sha_Ch e f g + k + hd w;
          t2 = sha_Sum0 a + sha_Maj a b c
      in sha_rounds ks (tl w @ [sha_next_word w]) (t1 + t2, a, b, c, d + t1, e, f, g))"

fun sha_add :: "sha_state \<Rightarrow> sha_state \<Rightarrow> sha_state" where
  "sha_add (a, b, c, d, e, f, g, h) (a', b', c', d', e', f', g', h') =
     (a + a', b + b', c + c', d + d', e + e', f + f', g + g', h + h')"

text \<open>Splitting into fixed-size pieces; an incomplete last piece is dropped.\<close>

fun chunks :: "nat \<Rightarrow> nat \<Rightarrow> 'a list \<Rightarrow> 'a list list" where
  "chunks n 0 xs = []"
| "chunks n (Suc m) xs = take n xs # chunks n m (drop n xs)"

definition sha_block :: "sha_state \<Rightarrow> byte list \<Rightarrow> sha_state" where
  "sha_block s bs = sha_add s (sha_rounds sha_K (map get_be (chunks 4 16 bs)) s)"

definition sha_pad :: "byte list \<Rightarrow> byte list" where
  "sha_pad m =
     m @ 0x80 # replicate ((119 - length m mod 64) mod 64) 0
       @ PutUint64 (of_nat (8 * length m))"

fun sha_bytes :: "sha_state \<Rightarrow> byte list" where
  "sha_bytes (a, b, c, d, e, f, g, h) = concat (map PutUint32 [a, b, c, d, e, f, g, h])"

definition sha256_Sum256 :: "byte list \<Rightarrow> hash32" where
  "sha256_Sum256 m =
     (let p = sha_pad m
      in copy_bytes (sha_bytes (foldl sha_block sha_init (chunks 64 (length p div 64) p))))"

text \<open>The padded message is a whole number of 64-byte blocks.\<close>

lemma pad_residue: "((n :: nat) + (9 + k mod 64)) mod 64 = (n mod 64 + (9 + k)) mod 64"
proof -
  have "(n + (9 + k mod 64)) mod 64 = ((n + 9) mod 64 + (k mod 64) mod 64) mod 64"
    by (simp only: mod_add_eq add.assoc)
  also have "\<dots> = (n + 9 + k) mod 64"
    by (simp only: mod_mod_trivial mod_add_eq)
  also have "\<dots> = (n mod 64 + (9 + k)) mod 64"
    by (simp only: mod_add_left_eq add.assoc)
  finally show ?thesis .
qed

lemma pad_sum: "r < 64 \<Longrightarrow> r + (9 + (119 - r)) = (128 :: nat)"
  by simp

lemma arith_pad: "(n :: nat) + Suc (k + 8) = n + (9 + k)"
  by simp

lemma sha_pad_blocks: "64 dvd length (sha_pad m)"
proof -
  have len: "length (sha_pad m) = length m + (9 + (119 - length m mod 64) mod 64)"
    unfolding sha_pad_def length_append length_Cons length_replicate length_PutUint
    by (rule arith_pad)
  have "length (sha_pad m) mod 64 = 128 mod 64"
    unfolding len pad_residue using pad_sum [OF mod_less_divisor [of 64 "length m", OF zero_less_numeral]]
    by (rule arg_cong)
  then show ?thesis unfolding dvd_eq_mod_eq_0 by (rule trans) simp
qed

end
