(* ===== verification/Merkle.thy ===== *)
theory Merkle
  imports Sha256 "HOL-Library.Multiset"
begin

text \<open>
  \<^verbatim>\<open>pkg/merkle\<close>: the leaf record of a memory decision, its digest, and the root of a
  turn. \<^verbatim>\<open>sort.Slice\<close> is not stable, so the order it gives to leaves with equal
  identifiers is unspecified; the sort is a parameter of \<open>BuildTurnTree\<close>, and
  \<open>sorts_by_MemoryID\<close> is what its documentation promises. The digest tree that the level loop
  computes is made explicit as a \<open>mtree\<close>, over which the binding of the root is proved: two
  leaf lists with the same root are the same multiset, or two byte strings that were hashed on the
  way collide under SHA-256.
\<close>

section \<open>Leaves and the level loop\<close>

record LeafRecord =
  lr_MemoryID :: id16
  lr_MemoryHash :: hash32
  lr_DecisionCode :: u8
  lr_Injected :: bool
  lr_PolicyHash :: hash32
  lr_ReasonCodeHash :: hash32

definition leaf_bytes :: "LeafRecord \<Rightarrow> byte list" where
  "leaf_bytes l =
     list_of_bytes (lr_MemoryID l) @ list_of_bytes (lr_MemoryHash l) @ [lr_DecisionCode l]
     @ [if lr_Injected l then 1 else 0]
     @ list_of_bytes (lr_PolicyHash l) @ list_of_bytes (lr_ReasonCodeHash l)"

definition leaf_Hash :: "LeafRecord \<Rightarrow> hash32" where
  "leaf_Hash l = sha256_Sum256 (leaf_bytes l)"

definition parent_hash :: "hash32 \<Rightarrow> hash32 \<Rightarrow> hash32" where
  "parent_hash a b = sha256_Sum256 (list_of_bytes a @ list_of_bytes b)"

fun next_level :: "hash32 list \<Rightarrow> hash32 list" where
  "next_level (a # b # hs) = parent_hash a b # next_level hs"
| "next_level hs = hs"

lemma length_next_level: "length (next_level hs) = (length hs + 1) div 2"
  by (induction hs rule: next_level.induct) auto

function build_levels :: "hash32 list \<Rightarrow> hash32" where
  "build_levels hs = (if 1 < length hs then build_levels (next_level hs) else hs ! 0)"
  by pat_completeness auto
termination
  by (relation "measure length") (auto simp: length_next_level)

declare build_levels.simps [simp del]

definition BuildTurnTree :: "(LeafRecord list \<Rightarrow> LeafRecord list) \<Rightarrow> LeafRecord list \<Rightarrow> hash32" where
  "BuildTurnTree sorter leaves =
     (if length leaves = 0 then zero_bytes
      else let ordered = sorter leaves; hashes = map leaf_Hash ordered
           in build_levels hashes)"

text \<open>The contract of \<^verbatim>\<open>sort.Slice\<close> with the identifier order.\<close>

definition sorts_by_MemoryID :: "(LeafRecord list \<Rightarrow> LeafRecord list) \<Rightarrow> bool" where
  "sorts_by_MemoryID sorter \<longleftrightarrow>
     (\<forall>xs. mset (sorter xs) = mset xs \<and> sorted (map lr_MemoryID (sorter xs)))"

lemma sort_key_sorts: "sorts_by_MemoryID (sort_key lr_MemoryID)"
  by (simp add: sorts_by_MemoryID_def)

lemma sorter_mset: "sorts_by_MemoryID sorter \<Longrightarrow> mset (sorter xs) = mset xs"
  by (simp add: sorts_by_MemoryID_def)

lemma sorter_sorted: "sorts_by_MemoryID sorter \<Longrightarrow> sorted (map lr_MemoryID (sorter xs))"
  by (simp add: sorts_by_MemoryID_def)

section \<open>The digest tree\<close>

datatype mtree = Tip LeafRecord | Bin mtree mtree

primrec mtree_hash :: "mtree \<Rightarrow> hash32" where
  "mtree_hash (Tip l) = leaf_Hash l"
| "mtree_hash (Bin a b) = parent_hash (mtree_hash a) (mtree_hash b)"

primrec fringe :: "mtree \<Rightarrow> LeafRecord list" where
  "fringe (Tip l) = [l]"
| "fringe (Bin a b) = fringe a @ fringe b"

text \<open>The byte strings that are hashed to compute the digest of a tree.\<close>

primrec tree_inputs :: "mtree \<Rightarrow> byte list list" where
  "tree_inputs (Tip l) = [leaf_bytes l]"
| "tree_inputs (Bin a b) =
     (list_of_bytes (mtree_hash a) @ list_of_bytes (mtree_hash b)) # tree_inputs a @ tree_inputs b"

fun pair_trees :: "mtree list \<Rightarrow> mtree list" where
  "pair_trees (a # b # ts) = Bin a b # pair_trees ts"
| "pair_trees ts = ts"

lemma length_pair_trees: "length (pair_trees ts) = (length ts + 1) div 2"
  by (induction ts rule: pair_trees.induct) auto

function grow_tree :: "mtree list \<Rightarrow> mtree" where
  "grow_tree ts = (if 1 < length ts then grow_tree (pair_trees ts) else ts ! 0)"
  by pat_completeness auto
termination
  by (relation "measure length") (auto simp: length_pair_trees)

declare grow_tree.simps [simp del]

definition turn_tree :: "(LeafRecord list \<Rightarrow> LeafRecord list) \<Rightarrow> LeafRecord list \<Rightarrow> mtree" where
  "turn_tree sorter leaves = grow_tree (map Tip (sorter leaves))"

definition hashed_inputs ::
  "(LeafRecord list \<Rightarrow> LeafRecord list) \<Rightarrow> LeafRecord list \<Rightarrow> byte list set" where
  "hashed_inputs sorter leaves = set (tree_inputs (turn_tree sorter leaves))"

text \<open>Two different members of \<open>S\<close> have the same SHA-256 value.\<close>

definition sha256_collision :: "byte list set \<Rightarrow> bool" where
  "sha256_collision S \<longleftrightarrow> (\<exists>x\<in>S. \<exists>y\<in>S. x \<noteq> y \<and> sha256_Sum256 x = sha256_Sum256 y)"

section \<open>The loop computes the digest of the tree\<close>

lemma next_level_pair_trees: "next_level (map mtree_hash ts) = map mtree_hash (pair_trees ts)"
  by (induction ts rule: pair_trees.induct) auto

lemma pair_trees_fringe: "concat (map fringe (pair_trees ts)) = concat (map fringe ts)"
  by (induction ts rule: pair_trees.induct) auto

lemma pair_trees_Nil [simp]: "pair_trees ts = [] \<longleftrightarrow> ts = []"
  by (cases ts rule: pair_trees.cases) auto

lemma build_levels_tree:
  "ts \<noteq> [] \<Longrightarrow> build_levels (map mtree_hash ts) = mtree_hash (grow_tree ts)"
proof (induction ts rule: grow_tree.induct)
  case (1 ts)
  then show ?case
    by (auto simp: grow_tree.simps [of ts] build_levels.simps [of "map mtree_hash ts"]
        next_level_pair_trees)
qed

lemma grow_tree_fringe: "ts \<noteq> [] \<Longrightarrow> fringe (grow_tree ts) = concat (map fringe ts)"
proof (induction ts rule: grow_tree.induct)
  case (1 ts)
  show ?case
  proof (cases "1 < length ts")
    case True
    with 1 show ?thesis by (simp add: grow_tree.simps [of ts] pair_trees_fringe)
  next
    case False
    with "1.prems" show ?thesis
      by (cases ts) (auto simp: grow_tree.simps)
  qed
qed

lemma sorter_Nil: "sorts_by_MemoryID sorter \<Longrightarrow> sorter xs = [] \<longleftrightarrow> xs = []"
  using sorter_mset [of sorter xs] by (metis mset_zero_iff)

lemma BuildTurnTree_tree:
  assumes "sorts_by_MemoryID sorter" and "leaves \<noteq> []"
  shows "BuildTurnTree sorter leaves = mtree_hash (turn_tree sorter leaves)"
proof -
  have "map leaf_Hash (sorter leaves) = map mtree_hash (map Tip (sorter leaves))" by simp
  moreover have "map Tip (sorter leaves) \<noteq> []" using assms by (simp add: sorter_Nil)
  ultimately have "build_levels (map leaf_Hash (sorter leaves))
      = mtree_hash (grow_tree (map Tip (sorter leaves)))"
    by (metis build_levels_tree)
  with assms(2) show ?thesis by (simp add: BuildTurnTree_def turn_tree_def)
qed

lemma turn_tree_fringe:
  "sorts_by_MemoryID sorter \<Longrightarrow> leaves \<noteq> [] \<Longrightarrow> fringe (turn_tree sorter leaves) = sorter leaves"
  unfolding turn_tree_def by (simp add: grow_tree_fringe sorter_Nil comp_def)

section \<open>The digest determines the tree\<close>

lemma length_leaf_bytes [layout_simps]: "length (leaf_bytes l) = 114"
  by (simp add: leaf_bytes_def)

lemma leaf_bytes_inject [simp]: "leaf_bytes l = leaf_bytes l' \<longleftrightarrow> l = l'"
  by (auto simp: leaf_bytes_def intro!: LeafRecord.equality split: if_splits)

lemma leaf_bytes_not_node [simp]:
  "leaf_bytes l \<noteq> list_of_bytes (a :: hash32) @ list_of_bytes (b :: hash32)"
  "list_of_bytes (a :: hash32) @ list_of_bytes (b :: hash32) \<noteq> leaf_bytes l"
  by (auto dest!: arg_cong [where f = length] simp: length_leaf_bytes)

lemma no_collision_subset: "\<not> sha256_collision S \<Longrightarrow> T \<subseteq> S \<Longrightarrow> \<not> sha256_collision T"
  by (auto simp: sha256_collision_def)

lemma sha256_inject_on:
  assumes "\<not> sha256_collision S" and "sha256_Sum256 x = sha256_Sum256 y" and "x \<in> S" and "y \<in> S"
  shows "x = y"
  using assms unfolding sha256_collision_def by blast

text \<open>The string hashed last, at the top of a tree.\<close>

definition top_input :: "mtree \<Rightarrow> byte list" where
  "top_input t = hd (tree_inputs t)"

lemma mtree_hash_top: "mtree_hash t = sha256_Sum256 (top_input t)"
  by (cases t) (simp_all add: top_input_def leaf_Hash_def parent_hash_def)

lemma top_input_in: "top_input t \<in> set (tree_inputs t)"
  by (cases t) (simp_all add: top_input_def)

lemma top_input_inject:
  assumes "\<not> sha256_collision (set (tree_inputs t) \<union> set (tree_inputs u))"
    and "mtree_hash t = mtree_hash u"
  shows "top_input t = top_input u"
  using assms(1) by (rule sha256_inject_on) (use assms(2) top_input_in in \<open>auto simp: mtree_hash_top\<close>)

lemma mtree_hash_inject:
  "\<not> sha256_collision (set (tree_inputs t) \<union> set (tree_inputs u)) \<Longrightarrow>
     mtree_hash t = mtree_hash u \<Longrightarrow> t = u"
proof (induction t arbitrary: u)
  case (Tip l)
  then have "top_input (Tip l) = top_input u"
    by (rule top_input_inject)
  then show ?case
    by (cases u) (auto simp: top_input_def)
next
  case (Bin a b)
  from Bin.prems have top: "top_input (Bin a b) = top_input u"
    by (rule top_input_inject)
  then obtain c d where u: "u = Bin c d"
    by (cases u) (auto simp: top_input_def)
  with top have eq: "mtree_hash a = mtree_hash c" "mtree_hash b = mtree_hash d"
    by (auto simp: top_input_def)
  have "\<not> sha256_collision (set (tree_inputs a) \<union> set (tree_inputs c))"
    and "\<not> sha256_collision (set (tree_inputs b) \<union> set (tree_inputs d))"
    by (rule no_collision_subset [OF Bin.prems(1)], fastforce simp: u)+
  with eq Bin.IH u show ?case by simp
qed

text \<open>Equal roots come from equal multisets of leaves, or from a collision.\<close>

lemma BuildTurnTree_root_binds:
  assumes "sorts_by_MemoryID sorter" and "leaves \<noteq> []" and "leaves' \<noteq> []"
    and "BuildTurnTree sorter leaves = BuildTurnTree sorter leaves'"
  shows "mset leaves = mset leaves'
    \<or> sha256_collision (hashed_inputs sorter leaves \<union> hashed_inputs sorter leaves')"
proof (rule disjCI)
  assume "\<not> sha256_collision (hashed_inputs sorter leaves \<union> hashed_inputs sorter leaves')"
  note inj = mtree_hash_inject [OF this [unfolded hashed_inputs_def]]
  have "turn_tree sorter leaves = turn_tree sorter leaves'"
    using assms by (intro inj) (simp add: BuildTurnTree_tree)
  then have "sorter leaves = sorter leaves'"
    using assms(1-3) by (metis turn_tree_fringe)
  then show "mset leaves = mset leaves'"
    using assms(1) by (metis sorter_mset)
qed

section \<open>Properties\<close>

text \<open>
  C10: the root of a turn binds its leaves. Whatever conforming sort is used, two leaf lists that
  differ as multisets (a leaf added, removed, repeated or changed in any field) have different
  roots, unless two different byte strings that were hashed to compute the two roots collide under
  SHA-256. The number of leaves need not agree.
\<close>

theorem BuildTurnTree_binds_leaves:
  assumes "sorts_by_MemoryID sorter" and "leaves \<noteq> []" and "leaves' \<noteq> []"
    and "mset leaves \<noteq> mset leaves'"
  shows "BuildTurnTree sorter leaves \<noteq> BuildTurnTree sorter leaves'
    \<or> sha256_collision (hashed_inputs sorter leaves \<union> hashed_inputs sorter leaves')"
  using assms BuildTurnTree_root_binds [OF assms(1-3)] by blast

text \<open>
  The root does not depend on the order in which the decisions were collected. Leaves with
  pairwise different memory identifiers give the same root in any order, and under any two sorts
  that conform to the contract of \<^verbatim>\<open>sort.Slice\<close>.
\<close>

theorem BuildTurnTree_order_independent:
  assumes "sorts_by_MemoryID sorter" and "sorts_by_MemoryID sorter'"
    and "distinct (map lr_MemoryID leaves)" and "mset leaves = mset leaves'"
  shows "BuildTurnTree sorter leaves = BuildTurnTree sorter' leaves'"
proof -
  have sets: "mset (sorter leaves) = mset leaves" "mset (sorter' leaves') = mset leaves"
    using assms by (simp_all add: sorter_mset)
  then have distinct_keys:
    "distinct (map lr_MemoryID (sorter leaves))" "distinct (map lr_MemoryID (sorter' leaves'))"
    using assms(3) by (metis mset_map mset_eq_imp_distinct_iff)+
  have "sorter leaves = sorter' leaves'"
  proof (rule map_sorted_distinct_set_unique)
    show "inj_on lr_MemoryID (set (sorter leaves) \<union> set (sorter' leaves'))"
      using assms(3) sets by (metis distinct_map mset_eq_setD sup.idem)
    show "set (sorter leaves) = set (sorter' leaves')"
      using sets by (metis mset_eq_setD)
  qed (use assms(1,2) sorter_sorted distinct_keys in auto)
  moreover have "length leaves = length leaves'"
    using assms(4) by (metis size_mset)
  ultimately show ?thesis by (simp add: BuildTurnTree_def)
qed

definition demo_leaf :: "byte \<Rightarrow> LeafRecord" where
  "demo_leaf n = \<lparr>lr_MemoryID = copy_bytes [n], lr_MemoryHash = copy_bytes [7],
     lr_DecisionCode = 0, lr_Injected = True, lr_PolicyHash = zero_bytes,
     lr_ReasonCodeHash = zero_bytes\<rparr>"

lemma copy_bytes_single_inject [simp]:
  "(copy_bytes [a] :: id16) = copy_bytes [b] \<longleftrightarrow> a = b"
  by (simp add: list_of_bytes_copy flip: list_of_bytes_inject_iff)

lemma demo_leaf_inject [simp]: "demo_leaf a = demo_leaf b \<longleftrightarrow> a = b"
  by (auto simp: demo_leaf_def)

theorem BuildTurnTree_binds_leaves_witness:
  "\<not> (BuildTurnTree (sort_key lr_MemoryID) [demo_leaf 1]
        = BuildTurnTree (sort_key lr_MemoryID) [demo_leaf 1, demo_leaf 2]
      \<and> \<not> sha256_collision (hashed_inputs (sort_key lr_MemoryID) [demo_leaf 1]
          \<union> hashed_inputs (sort_key lr_MemoryID) [demo_leaf 1, demo_leaf 2]))"
  using BuildTurnTree_binds_leaves [OF sort_key_sorts, of "[demo_leaf 1]" "[demo_leaf 1, demo_leaf 2]"]
  by auto

theorem BuildTurnTree_order_independent_witness:
  "BuildTurnTree (sort_key lr_MemoryID) [demo_leaf 2, demo_leaf 1]
     = BuildTurnTree (sort_key lr_MemoryID) [demo_leaf 1, demo_leaf 2]"
  by (rule BuildTurnTree_order_independent [OF sort_key_sorts sort_key_sorts])
    (simp_all add: demo_leaf_def)

end
