(* ===== verification/Admission.thy ===== *)
theory Admission
  imports Mam_Prelude
begin

text \<open>
  The admissibility decision: the flag registers of \<^verbatim>\<open>pkg/bitmask\<close>, the tenant and
  domain comparison of \<^verbatim>\<open>pkg/tenant\<close>, the policy snapshot of
  \<^verbatim>\<open>pkg/policy\<close> and the evaluation spine of \<^verbatim>\<open>pkg/evaluate\<close>. The
  lemmas characterise every verdict of the spine by a condition on the inputs and show the order of
  its checks.
\<close>

unbundle bit_operations_syntax

section \<open>Flag registers\<close>

type_synonym MemoryFlags = u64
type_synonym RuntimeFlags = u64

definition FlagLifecycleActive :: MemoryFlags where "FlagLifecycleActive = push_bit 0 1"
definition FlagLifecycleExpired :: MemoryFlags where "FlagLifecycleExpired = push_bit 1 1"
definition FlagLifecycleDeletionReq :: MemoryFlags where "FlagLifecycleDeletionReq = push_bit 2 1"
definition FlagLifecycleRevoked :: MemoryFlags where "FlagLifecycleRevoked = push_bit 3 1"
definition FlagSafetyQuarantined :: MemoryFlags where "FlagSafetyQuarantined = push_bit 4 1"
definition FlagSafetyPoisoningSuspected :: MemoryFlags where
  "FlagSafetyPoisoningSuspected = push_bit 5 1"
definition ClassUseToneAdjustment :: MemoryFlags where "ClassUseToneAdjustment = push_bit 8 1"
definition ClassUseContextOnly :: MemoryFlags where "ClassUseContextOnly = push_bit 9 1"
definition ClassUseDecisionSupport :: MemoryFlags where "ClassUseDecisionSupport = push_bit 10 1"
definition ClassUseAutomatedAction :: MemoryFlags where "ClassUseAutomatedAction = push_bit 11 1"
definition BlockUseAutomatedDenial :: MemoryFlags where "BlockUseAutomatedDenial = push_bit 16 1"
definition BlockUseCreditEvaluation :: MemoryFlags where "BlockUseCreditEvaluation = push_bit 17 1"
definition BlockUseClinicalTriage :: MemoryFlags where "BlockUseClinicalTriage = push_bit 18 1"
definition Tier0Transient :: MemoryFlags where "Tier0Transient = push_bit 24 1"
definition Tier1Preference :: MemoryFlags where "Tier1Preference = push_bit 25 1"
definition Tier2Operational :: MemoryFlags where "Tier2Operational = push_bit 26 1"
definition Tier3HighConsequence :: MemoryFlags where "Tier3HighConsequence = push_bit 27 1"

lemmas flag_defs =
  FlagLifecycleActive_def FlagLifecycleExpired_def FlagLifecycleDeletionReq_def
  FlagLifecycleRevoked_def FlagSafetyQuarantined_def FlagSafetyPoisoningSuspected_def
  ClassUseToneAdjustment_def ClassUseContextOnly_def ClassUseDecisionSupport_def
  ClassUseAutomatedAction_def BlockUseAutomatedDenial_def BlockUseCreditEvaluation_def
  BlockUseClinicalTriage_def Tier0Transient_def Tier1Preference_def Tier2Operational_def
  Tier3HighConsequence_def

record EvaluationMask =
  RequiredLifecycle :: RuntimeFlags
  ProhibitedSafety :: RuntimeFlags
  AllowedUseClasses :: RuntimeFlags
  ProhibitedUseBlocks :: RuntimeFlags
  SensitivityLimit :: RuntimeFlags

section \<open>Tenant and domain\<close>

type_synonym IDHash = hash32

text \<open>
  \<^verbatim>\<open>subtle.ConstantTimeCompare\<close>: 1 when the slices have the same length and contents;
  the bytes are compared by or-ing all their differences.
\<close>

definition ConstantTimeCompare :: "byte list \<Rightarrow> byte list \<Rightarrow> int" where
  "ConstantTimeCompare x y =
     (if length x \<noteq> length y then 0
      else if foldl (\<lambda>v (a, b). v OR (a XOR b)) 0 (zip x y) = 0 then 1 else 0)"

definition ValidateTenant :: "IDHash \<Rightarrow> IDHash \<Rightarrow> bool" where
  "ValidateTenant memoryTenant runtimeTenant \<longleftrightarrow>
     ConstantTimeCompare (list_of_bytes memoryTenant) (list_of_bytes runtimeTenant) = 1"

definition ValidateDomain :: "IDHash \<Rightarrow> IDHash \<Rightarrow> bool" where
  "ValidateDomain memoryDomain runtimeDomain \<longleftrightarrow>
     ConstantTimeCompare (list_of_bytes memoryDomain) (list_of_bytes runtimeDomain) = 1"

section \<open>Policy snapshots\<close>

record Snapshot =
  pol_ID :: string
  pol_Hash :: hash32
  pol_Mask :: EvaluationMask
  pol_Immutable :: bool

definition ValidateSnapshot :: "Snapshot \<Rightarrow> bool" where
  "ValidateSnapshot s \<longleftrightarrow> pol_Immutable s \<and> pol_ID s \<noteq> ''''"

section \<open>The evaluation spine\<close>

text \<open>
  \<^verbatim>\<open>Decision\<close> is a \<^verbatim>\<open>uint8\<close> with nine named values; the last constructor
  stands for the codes that have no name.
\<close>

datatype Decision =
    DecisionUse | DecisionQualify | DecisionRefresh | DecisionEscalate | DecisionRefuse
  | DecisionIgnore | DecisionQuarantine | DecisionDeleteRequested | DecisionHardRefuse
  | DecisionUnknown u8

fun decision_code :: "Decision \<Rightarrow> u8" where
  "decision_code DecisionUse = 0"
| "decision_code DecisionQualify = 1"
| "decision_code DecisionRefresh = 2"
| "decision_code DecisionEscalate = 3"
| "decision_code DecisionRefuse = 4"
| "decision_code DecisionIgnore = 5"
| "decision_code DecisionQuarantine = 6"
| "decision_code DecisionDeleteRequested = 7"
| "decision_code DecisionHardRefuse = 8"
| "decision_code (DecisionUnknown w) = w"

abbreviation ReasonUse :: string where "ReasonUse \<equiv> ''USE''"
abbreviation ReasonTenantMismatch :: string where "ReasonTenantMismatch \<equiv> ''TENANT_MISMATCH''"
abbreviation ReasonDomainMismatch :: string where "ReasonDomainMismatch \<equiv> ''DOMAIN_MISMATCH''"
abbreviation ReasonDeletionRequested :: string where
  "ReasonDeletionRequested \<equiv> ''DELETION_REQUESTED''"
abbreviation ReasonLifecycleInvalid :: string where "ReasonLifecycleInvalid \<equiv> ''LIFECYCLE_INVALID''"
abbreviation ReasonMemoryExpired :: string where "ReasonMemoryExpired \<equiv> ''MEMORY_EXPIRED''"
abbreviation ReasonMemoryRevoked :: string where "ReasonMemoryRevoked \<equiv> ''MEMORY_REVOKED''"
abbreviation ReasonSafetyIsolationTriggered :: string where
  "ReasonSafetyIsolationTriggered \<equiv> ''SAFETY_ISOLATION_TRIGGERED''"
abbreviation ReasonProhibitedUseEnforced :: string where
  "ReasonProhibitedUseEnforced \<equiv> ''PROHIBITED_USE_ENFORCED''"
abbreviation ReasonNoExplicitUsePermitted :: string where
  "ReasonNoExplicitUsePermitted \<equiv> ''NO_EXPLICIT_USE_PERMITTED''"
abbreviation ReasonMemoryProfileMissing :: string where
  "ReasonMemoryProfileMissing \<equiv> ''MEMORY_PROFILE_MISSING''"

definition InvalidLifecycleFlags :: MemoryFlags where
  "InvalidLifecycleFlags =
     FlagLifecycleExpired OR FlagLifecycleDeletionReq OR FlagLifecycleRevoked"

definition EvaluateMemoryHotPath ::
  "IDHash \<Rightarrow> IDHash \<Rightarrow> IDHash \<Rightarrow> IDHash \<Rightarrow> MemoryFlags \<Rightarrow> EvaluationMask \<Rightarrow> Decision \<times> string"
where
  "EvaluateMemoryHotPath runtimeTenant memTenant runtimeDomain memDomain memFlags emask =
     (if \<not> ValidateTenant memTenant runtimeTenant then (DecisionHardRefuse, ReasonTenantMismatch)
      else if \<not> ValidateDomain memDomain runtimeDomain then (DecisionRefuse, ReasonDomainMismatch)
      else
        let mBytes = memFlags in
        if mBytes AND InvalidLifecycleFlags \<noteq> 0 then
          (if mBytes AND FlagLifecycleDeletionReq \<noteq> 0
             then (DecisionDeleteRequested, ReasonDeletionRequested)
           else if mBytes AND FlagLifecycleExpired \<noteq> 0
             then (DecisionRefresh, ReasonMemoryExpired)
           else if mBytes AND FlagLifecycleRevoked \<noteq> 0
             then (DecisionRefuse, ReasonMemoryRevoked)
           else (DecisionRefuse, ReasonLifecycleInvalid))
        else if mBytes AND ProhibitedSafety emask \<noteq> 0
          then (DecisionQuarantine, ReasonSafetyIsolationTriggered)
        else if mBytes AND ProhibitedUseBlocks emask \<noteq> 0
          then (DecisionRefuse, ReasonProhibitedUseEnforced)
        else if mBytes AND AllowedUseClasses emask = 0
          then (DecisionIgnore, ReasonNoExplicitUsePermitted)
        else (DecisionUse, ReasonUse))"

section \<open>Comparison\<close>

lemma foldl_or_xor_zero:
  "length x = length y \<Longrightarrow>
     foldl (\<lambda>v (a, b). v OR (a XOR b)) (v :: byte) (zip x y) = 0 \<longleftrightarrow> v = 0 \<and> x = y"
proof (induction x y arbitrary: v rule: list_induct2)
  case Nil
  then show ?case by simp
next
  case (Cons a x b y)
  have "v OR (a XOR b) = 0 \<longleftrightarrow> v = 0 \<and> a = b"
    by (auto simp: word_bits_eq bit_simps)
  with Cons.IH show ?case by auto
qed

lemma ConstantTimeCompare_iff: "ConstantTimeCompare x y = 1 \<longleftrightarrow> x = y"
  by (auto simp: ConstantTimeCompare_def foldl_or_xor_zero)

lemma ValidateTenant_iff [simp]: "ValidateTenant a b \<longleftrightarrow> a = b"
  by (simp add: ValidateTenant_def ConstantTimeCompare_iff)

lemma ValidateDomain_iff [simp]: "ValidateDomain a b \<longleftrightarrow> a = b"
  by (simp add: ValidateDomain_def ConstantTimeCompare_iff)

section \<open>Bits of a memory\<close>

lemma and_push_bit_one_iff: "(m :: u64) AND push_bit n 1 \<noteq> 0 \<longleftrightarrow> n < 64 \<and> bit m n"
  by (auto simp: word_bits_eq bit_simps)

lemma flag_bits:
  "m AND FlagLifecycleExpired \<noteq> 0 \<longleftrightarrow> bit m 1"
  "m AND FlagLifecycleDeletionReq \<noteq> 0 \<longleftrightarrow> bit m 2"
  "m AND FlagLifecycleRevoked \<noteq> 0 \<longleftrightarrow> bit m 3"
  unfolding FlagLifecycleExpired_def FlagLifecycleDeletionReq_def FlagLifecycleRevoked_def
    and_push_bit_one_iff by simp_all

lemma and_or_zero_iff: "(m :: u64) AND (a OR b) \<noteq> 0 \<longleftrightarrow> m AND a \<noteq> 0 \<or> m AND b \<noteq> 0"
  by (auto simp: word_bits_eq bit_simps)

lemma invalid_lifecycle_iff:
  "m AND InvalidLifecycleFlags \<noteq> 0 \<longleftrightarrow> bit m 1 \<or> bit m 2 \<or> bit m 3"
  unfolding InvalidLifecycleFlags_def and_or_zero_iff flag_bits by blast

text \<open>The spine read over the bits of the memory and the three masks it consults.\<close>

lemma EvaluateMemoryHotPath_alt:
  "EvaluateMemoryHotPath rt mt rd md m emask =
     (if mt \<noteq> rt then (DecisionHardRefuse, ReasonTenantMismatch)
      else if md \<noteq> rd then (DecisionRefuse, ReasonDomainMismatch)
      else if bit m 2 then (DecisionDeleteRequested, ReasonDeletionRequested)
      else if bit m 1 then (DecisionRefresh, ReasonMemoryExpired)
      else if bit m 3 then (DecisionRefuse, ReasonMemoryRevoked)
      else if m AND ProhibitedSafety emask \<noteq> 0
        then (DecisionQuarantine, ReasonSafetyIsolationTriggered)
      else if m AND ProhibitedUseBlocks emask \<noteq> 0
        then (DecisionRefuse, ReasonProhibitedUseEnforced)
      else if m AND AllowedUseClasses emask = 0
        then (DecisionIgnore, ReasonNoExplicitUsePermitted)
      else (DecisionUse, ReasonUse))"
  unfolding EvaluateMemoryHotPath_def Let_def invalid_lifecycle_iff flag_bits
    ValidateTenant_iff ValidateDomain_iff
  by (simp only: if_split if_not_P) auto

text \<open>What the spine can decide at all: five named refusals, and use.\<close>

lemma hot_path_decisions:
  "fst (EvaluateMemoryHotPath rt mt rd md m emask)
     \<in> {DecisionUse, DecisionRefresh, DecisionRefuse, DecisionIgnore, DecisionQuarantine,
        DecisionDeleteRequested, DecisionHardRefuse}"
  unfolding EvaluateMemoryHotPath_alt by simp

lemma hot_path_use_iff:
  "fst (EvaluateMemoryHotPath rt mt rd md m emask) = DecisionUse \<longleftrightarrow>
     mt = rt \<and> md = rd \<and> \<not> bit m 1 \<and> \<not> bit m 2 \<and> \<not> bit m 3
     \<and> m AND ProhibitedSafety emask = 0 \<and> m AND ProhibitedUseBlocks emask = 0
     \<and> m AND AllowedUseClasses emask \<noteq> 0"
  unfolding EvaluateMemoryHotPath_alt by auto

text \<open>
  The order that \<^verbatim>\<open>docs/architecture/01-core-invariants.md\<close> documents, as a table: the
  first rule that applies gives the verdict.
\<close>

fun first_match :: "(bool \<times> 'a) list \<Rightarrow> 'a \<Rightarrow> 'a" where
  "first_match [] d = d"
| "first_match ((c, v) # rules) d = (if c then v else first_match rules d)"

definition share_bit :: "u64 \<Rightarrow> u64 \<Rightarrow> bool" where
  "share_bit m a \<longleftrightarrow> (\<exists>n<64. bit m n \<and> bit a n)"

definition hot_path_rules ::
  "IDHash \<Rightarrow> IDHash \<Rightarrow> IDHash \<Rightarrow> IDHash \<Rightarrow> MemoryFlags \<Rightarrow> EvaluationMask \<Rightarrow> (bool \<times> (Decision \<times> string)) list"
where
  "hot_path_rules rt mt rd md m emask =
     [(mt \<noteq> rt, DecisionHardRefuse, ReasonTenantMismatch),
      (md \<noteq> rd, DecisionRefuse, ReasonDomainMismatch),
      (bit m 2, DecisionDeleteRequested, ReasonDeletionRequested),
      (bit m 1, DecisionRefresh, ReasonMemoryExpired),
      (bit m 3, DecisionRefuse, ReasonMemoryRevoked),
      (share_bit m (ProhibitedSafety emask), DecisionQuarantine, ReasonSafetyIsolationTriggered),
      (share_bit m (ProhibitedUseBlocks emask), DecisionRefuse, ReasonProhibitedUseEnforced),
      (\<not> share_bit m (AllowedUseClasses emask), DecisionIgnore, ReasonNoExplicitUsePermitted)]"

lemma and_zero_iff: "(m :: u64) AND a = 0 \<longleftrightarrow> \<not> share_bit m a"
  by (auto simp: share_bit_def word_bits_eq bit_simps)

section \<open>Properties\<close>

text \<open>
  C17: the spine is the documented priority table. The verdict and the reason are those of the first rule
  that applies: tenant, domain, deletion, expiry, revocation, safety, use block, and the absence of an
  allowed use class; only when none applies the memory may be used. Comparison is equality, and the
  flag tests read the bits of the 64-bit registers.
\<close>

theorem hot_path_is_priority_table:
  "EvaluateMemoryHotPath rt mt rd md m emask
     = first_match (hot_path_rules rt mt rd md m emask) (DecisionUse, ReasonUse)"
  unfolding EvaluateMemoryHotPath_alt hot_path_rules_def and_zero_iff by simp

text \<open>
  The required lifecycle is not required. Two fields of the evaluation mask, the required lifecycle
  and the sensitivity limit, decide nothing, the reason for an invalid lifecycle is never given, and a
  memory that is not active is used under a mask that requires it to be.
\<close>

theorem required_lifecycle_is_ignored:
  "EvaluateMemoryHotPath rt mt rd md m (emask\<lparr>RequiredLifecycle := rl, SensitivityLimit := sl\<rparr>)
      = EvaluateMemoryHotPath rt mt rd md m emask
   \<and> snd (EvaluateMemoryHotPath rt mt rd md m emask) \<noteq> ReasonLifecycleInvalid
   \<and> EvaluateMemoryHotPath rt rt rd rd ClassUseContextOnly
       \<lparr>RequiredLifecycle = FlagLifecycleActive, ProhibitedSafety = 0,
        AllowedUseClasses = ClassUseContextOnly, ProhibitedUseBlocks = 0, SensitivityLimit = 0\<rparr>
       = (DecisionUse, ReasonUse)"
  by (simp add: EvaluateMemoryHotPath_alt ClassUseContextOnly_def bit_simps)

end
