(* ===== verification/Quarantine.thy ===== *)
theory Quarantine
  imports Merkle Admission
begin

text \<open>
  \<^verbatim>\<open>pkg/quarantine/quarantine.go\<close>: the event ledger, the compiled runtime snapshot and
  its digest, and the lookup that the gateway and the RPC edge consult. The abstract machine of a
  single memory (\<open>mem_step\<close>) is the specification: compiling a whole ledger and looking a memory up
  gives what that machine gives on the memory's own events (\<open>lookup_compiled\<close>). The last part shows
  that the digest does not depend on Go's map iteration order and that it determines the snapshot.
\<close>

section \<open>Events and snapshots\<close>

datatype State =
  StateClear | StateQuarantined | StateDeletionRequested | StateRevoked | StatePoisoningSuspected

definition BlocksInjection :: "State \<Rightarrow> bool" where
  "BlocksInjection s \<longleftrightarrow>
     s = StateQuarantined \<or> s = StateDeletionRequested \<or> s = StateRevoked
     \<or> s = StatePoisoningSuspected"

text \<open>
  Both enumerations are \<^verbatim>\<open>uint8\<close> in Go, and the RPC edge converts any number into
  them; the last constructor holds the codes without a name.
\<close>

datatype EventType =
    EventQuarantineMemory | EventDeleteRequested | EventRevokeMemory | EventClearQuarantine
  | EventPoisoningSuspected | EventPromptInjectionDetected | EventCrossSessionLeak
  | EventCrossAgentLeak | EventUnknown u8

definition EventType_of_u8 :: "u8 \<Rightarrow> EventType" where
  "EventType_of_u8 w =
     (if w = 0 then EventQuarantineMemory else if w = 1 then EventDeleteRequested
      else if w = 2 then EventRevokeMemory else if w = 3 then EventClearQuarantine
      else if w = 4 then EventPoisoningSuspected else if w = 5 then EventPromptInjectionDetected
      else if w = 6 then EventCrossSessionLeak else if w = 7 then EventCrossAgentLeak
      else EventUnknown w)"

datatype QuarantineReason =
    ReasonPoisoningSuspected | ReasonPromptInjectionDetected | ReasonCrossSessionLeak
  | ReasonRetroactiveRevocation | ReasonUnknown u8

definition QuarantineReason_of_u8 :: "u8 \<Rightarrow> QuarantineReason" where
  "QuarantineReason_of_u8 w =
     (if w = 0 then ReasonPoisoningSuspected else if w = 1 then ReasonPromptInjectionDetected
      else if w = 2 then ReasonCrossSessionLeak else if w = 3 then ReasonRetroactiveRevocation
      else ReasonUnknown w)"

record RevocationEvent =
  ev_EventID :: id16
  ev_MemoryID :: id16
  ev_EventType :: EventType
  ev_Reason :: QuarantineReason
  ev_OperatorID :: string
  ev_Source :: string
  ev_CreatedAt :: go_time
  ev_PolicyHash :: hash32
  ev_PreviousState :: string
  ev_NewState :: string
  ev_Signature :: sig64
  ev_SigningKeyID :: string

record QuarantineState =
  qs_EventID :: id16
  qs_ReasonCode :: string

record TombstoneState =
  ts_EventID :: id16

record RevocationState =
  rs_EventID :: id16

record RuntimeSnapshot =
  sn_Version :: u64
  sn_SnapshotHash :: hash32
  sn_CreatedAtUnix :: int
  sn_HighestEventID :: id16
  sn_EventCount :: u64
  sn_Quarantined :: "(id16 \<times> QuarantineState) list"
  sn_Tombstoned :: "(id16 \<times> TombstoneState) list"
  sn_Revoked :: "(id16 \<times> RevocationState) list"

record RuntimeDecision =
  rd_Decision :: Decision
  rd_Reason :: string
  rd_StateRef :: id16

record RuntimeMonitor =
  mon_snapshot :: "RuntimeSnapshot option"
  mon_ledger :: "RevocationEvent list"

section \<open>The snapshot digest\<close>

definition q_record :: "id16 \<times> QuarantineState \<Rightarrow> byte list" where
  "q_record p = bytes_of_string ''Q'' @ list_of_bytes (fst p)
     @ list_of_bytes (qs_EventID (snd p)) @ bytes_of_string (qs_ReasonCode (snd p))"

definition t_record :: "id16 \<times> TombstoneState \<Rightarrow> byte list" where
  "t_record p = bytes_of_string ''T'' @ list_of_bytes (fst p) @ list_of_bytes (ts_EventID (snd p))"

definition r_record :: "id16 \<times> RevocationState \<Rightarrow> byte list" where
  "r_record p = bytes_of_string ''R'' @ list_of_bytes (fst p) @ list_of_bytes (rs_EventID (snd p))"

text \<open>
  The three writers sort the pairs of the map by identifier. The keys of a map are distinct, so
  every sort gives the same list.
\<close>

definition writeQuarantineSet :: "(id16 \<times> QuarantineState) list \<Rightarrow> byte list" where
  "writeQuarantineSet qset = concat (map q_record (sort_key fst qset))"

definition writeTombstoneSet :: "(id16 \<times> TombstoneState) list \<Rightarrow> byte list" where
  "writeTombstoneSet tset = concat (map t_record (sort_key fst tset))"

definition writeRevocationSet :: "(id16 \<times> RevocationState) list \<Rightarrow> byte list" where
  "writeRevocationSet rset = concat (map r_record (sort_key fst rset))"

definition snapshot_bytes :: "RuntimeSnapshot \<Rightarrow> byte list" where
  "snapshot_bytes snap =
     PutUint64 (sn_Version snap) @ PutUint64 (sn_EventCount snap)
     @ list_of_bytes (sn_HighestEventID snap)
     @ writeQuarantineSet (sn_Quarantined snap)
     @ writeTombstoneSet (sn_Tombstoned snap)
     @ writeRevocationSet (sn_Revoked snap)"

definition ComputeSnapshotHash :: "RuntimeSnapshot \<Rightarrow> hash32" where
  "ComputeSnapshotHash snap = sha256_Sum256 (snapshot_bytes snap)"

section \<open>Compiling the ledger\<close>

fun reasonCode :: "RevocationEvent \<Rightarrow> string" where
  "reasonCode event =
     (case ev_EventType event of
        EventPoisoningSuspected \<Rightarrow> ''MEMORY_POISONING_SUSPECTED''
      | EventPromptInjectionDetected \<Rightarrow> ''PROMPT_INJECTION_DETECTED''
      | EventCrossSessionLeak \<Rightarrow> ''CROSS_SESSION_LEAK''
      | EventCrossAgentLeak \<Rightarrow> ''CROSS_AGENT_LEAK''
      | EventQuarantineMemory \<Rightarrow>
          (case ev_Reason event of
             ReasonPromptInjectionDetected \<Rightarrow> ''PROMPT_INJECTION_DETECTED''
           | ReasonCrossSessionLeak \<Rightarrow> ''CROSS_SESSION_LEAK''
           | ReasonRetroactiveRevocation \<Rightarrow> ''RETROACTIVE_REVOCATION''
           | _ \<Rightarrow> ''MEMORY_POISONING_SUSPECTED'')
      | _ \<Rightarrow> ''MEMORY_QUARANTINED'')"

declare reasonCode.simps [simp del]

definition quarantine_event :: "EventType \<Rightarrow> bool" where
  "quarantine_event t \<longleftrightarrow>
     t \<in> {EventQuarantineMemory, EventPoisoningSuspected, EventPromptInjectionDetected,
          EventCrossSessionLeak, EventCrossAgentLeak}"

text \<open>One iteration of the loop of \<^verbatim>\<open>CompileSnapshot\<close>.\<close>

definition apply_event :: "RevocationEvent \<Rightarrow> RuntimeSnapshot \<Rightarrow> RuntimeSnapshot" where
  "apply_event event snap0 =
     (let snap = snap0\<lparr>sn_HighestEventID := ev_EventID event\<rparr>; mid = ev_MemoryID event in
      if ev_EventType event = EventDeleteRequested then
        snap\<lparr>sn_Quarantined := map_delete mid (sn_Quarantined snap),
             sn_Revoked := map_delete mid (sn_Revoked snap),
             sn_Tombstoned := map_assign mid \<lparr>ts_EventID = ev_EventID event\<rparr> (sn_Tombstoned snap)\<rparr>
      else if quarantine_event (ev_EventType event) then
        snap\<lparr>sn_Revoked := map_delete mid (sn_Revoked snap),
             sn_Quarantined := map_assign mid
               \<lparr>qs_EventID = ev_EventID event, qs_ReasonCode = reasonCode event\<rparr>
               (sn_Quarantined snap)\<rparr>
      else if ev_EventType event = EventRevokeMemory then
        snap\<lparr>sn_Quarantined := map_delete mid (sn_Quarantined snap),
             sn_Revoked := map_assign mid \<lparr>rs_EventID = ev_EventID event\<rparr> (sn_Revoked snap)\<rparr>
      else if ev_EventType event = EventClearQuarantine then
        snap\<lparr>sn_Quarantined := map_delete mid (sn_Quarantined snap)\<rparr>
      else snap)"

definition blank_snapshot :: "u64 \<Rightarrow> u64 \<Rightarrow> go_time \<Rightarrow> RuntimeSnapshot" where
  "blank_snapshot version eventCount createdAt =
     \<lparr>sn_Version = version, sn_SnapshotHash = zero_bytes, sn_CreatedAtUnix = Unix createdAt,
      sn_HighestEventID = zero_bytes, sn_EventCount = eventCount,
      sn_Quarantined = [], sn_Tombstoned = [], sn_Revoked = []\<rparr>"

definition CompileSnapshot :: "RevocationEvent list \<Rightarrow> u64 \<Rightarrow> go_time \<Rightarrow> RuntimeSnapshot" where
  "CompileSnapshot events version createdAt =
     (let snap = fold apply_event events
            (blank_snapshot version (of_nat (length events)) createdAt)
      in snap\<lparr>sn_SnapshotHash := ComputeSnapshotHash snap\<rparr>)"

definition NewEmptySnapshot :: "u64 \<Rightarrow> go_time \<Rightarrow> RuntimeSnapshot" where
  "NewEmptySnapshot version createdAt =
     (let snap = blank_snapshot version 0 createdAt
      in snap\<lparr>sn_SnapshotHash := ComputeSnapshotHash snap\<rparr>)"

section \<open>The monitor\<close>

definition SwapActiveSnapshot :: "RuntimeMonitor \<Rightarrow> RuntimeSnapshot option \<Rightarrow> RuntimeMonitor" where
  "SwapActiveSnapshot m newSnap =
     (case newSnap of None \<Rightarrow> m | Some s \<Rightarrow> m\<lparr>mon_snapshot := Some s\<rparr>)"

text \<open>\<^verbatim>\<open>time.Now()\<close> is the argument \<open>now\<close>.\<close>

definition NewRuntimeMonitor :: "go_time \<Rightarrow> RuntimeMonitor" where
  "NewRuntimeMonitor now =
     SwapActiveSnapshot \<lparr>mon_snapshot = None, mon_ledger = []\<rparr> (Some (NewEmptySnapshot 0 now))"

definition LookupWithSnapshot :: "RuntimeSnapshot option \<Rightarrow> id16 \<Rightarrow> RuntimeDecision" where
  "LookupWithSnapshot osnap mid =
     (case osnap of
        None \<Rightarrow> \<lparr>rd_Decision = DecisionUse, rd_Reason = ''RUNTIME_STATE_UNINITIALIZED'',
                 rd_StateRef = zero_bytes\<rparr>
      | Some snap \<Rightarrow>
          (case map_of (sn_Tombstoned snap) mid of
             Some state \<Rightarrow> \<lparr>rd_Decision = DecisionDeleteRequested, rd_Reason = ''DELETION_REQUESTED'',
                            rd_StateRef = ts_EventID state\<rparr>
           | None \<Rightarrow>
          (case map_of (sn_Quarantined snap) mid of
             Some state \<Rightarrow> \<lparr>rd_Decision = DecisionQuarantine, rd_Reason = qs_ReasonCode state,
                            rd_StateRef = qs_EventID state\<rparr>
           | None \<Rightarrow>
          (case map_of (sn_Revoked snap) mid of
             Some state \<Rightarrow> \<lparr>rd_Decision = DecisionRefuse, rd_Reason = ''MEMORY_REVOKED'',
                            rd_StateRef = rs_EventID state\<rparr>
           | None \<Rightarrow> \<lparr>rd_Decision = DecisionUse, rd_Reason = ''RUNTIME_STATE_CLEAR'',
                      rd_StateRef = zero_bytes\<rparr>))))"

text \<open>
  \<^verbatim>\<open>Lookup\<close> loads the active snapshot and repeats the body of
  \<^verbatim>\<open>LookupWithSnapshot\<close> word for word.
\<close>

definition Lookup :: "RuntimeMonitor \<Rightarrow> id16 \<Rightarrow> RuntimeDecision" where
  "Lookup m mid = LookupWithSnapshot (mon_snapshot m) mid"

definition GetActiveSnapshot :: "RuntimeMonitor \<Rightarrow> go_time \<Rightarrow> RuntimeSnapshot" where
  "GetActiveSnapshot m now =
     (case mon_snapshot m of None \<Rightarrow> NewEmptySnapshot 0 now | Some snap \<Rightarrow> snap)"

definition ActiveSnapshotInfo :: "RuntimeMonitor \<Rightarrow> hash32 \<times> u64" where
  "ActiveSnapshotInfo m =
     (case mon_snapshot m of None \<Rightarrow> (zero_bytes, 0)
      | Some snap \<Rightarrow> (sn_SnapshotHash snap, sn_Version snap))"

definition AppendEvent :: "RuntimeMonitor \<Rightarrow> RevocationEvent \<Rightarrow> RuntimeMonitor" where
  "AppendEvent m event = m\<lparr>mon_ledger := mon_ledger m @ [event]\<rparr>"

definition Ledger :: "RuntimeMonitor \<Rightarrow> RevocationEvent list" where
  "Ledger m = mon_ledger m"

definition CompileAndSwap :: "RuntimeMonitor \<Rightarrow> go_time \<Rightarrow> RuntimeMonitor \<times> RuntimeSnapshot" where
  "CompileAndSwap m createdAt =
     (let events = Ledger m;
          version = (case mon_snapshot m of None \<Rightarrow> 1 | Some s \<Rightarrow> sn_Version s + 1);
          snap = CompileSnapshot events version createdAt
      in (SwapActiveSnapshot m (Some snap), snap))"

section \<open>The machine of a single memory\<close>

text \<open>
  The specification of the event semantics, per memory: a tombstone that is never removed, and a
  status that is clear, quarantined by an event, or revoked by an event.
\<close>

datatype mem_status = MemClear | MemQuarantined RevocationEvent | MemRevoked RevocationEvent

record mem_state =
  ms_tomb :: "RevocationEvent option"
  ms_status :: mem_status

definition mem_init :: mem_state where
  "mem_init = \<lparr>ms_tomb = None, ms_status = MemClear\<rparr>"

definition mem_step :: "RevocationEvent \<Rightarrow> mem_state \<Rightarrow> mem_state" where
  "mem_step e s =
     (if ev_EventType e = EventDeleteRequested then \<lparr>ms_tomb = Some e, ms_status = MemClear\<rparr>
      else if quarantine_event (ev_EventType e) then s\<lparr>ms_status := MemQuarantined e\<rparr>
      else if ev_EventType e = EventRevokeMemory then s\<lparr>ms_status := MemRevoked e\<rparr>
      else if ev_EventType e = EventClearQuarantine then
        (case ms_status s of MemQuarantined _ \<Rightarrow> s\<lparr>ms_status := MemClear\<rparr> | _ \<Rightarrow> s)
      else s)"

definition mem_verdict :: "mem_state \<Rightarrow> RuntimeDecision" where
  "mem_verdict s =
     (case ms_tomb s of
        Some e \<Rightarrow> \<lparr>rd_Decision = DecisionDeleteRequested, rd_Reason = ''DELETION_REQUESTED'',
                   rd_StateRef = ev_EventID e\<rparr>
      | None \<Rightarrow>
          (case ms_status s of
             MemQuarantined e \<Rightarrow> \<lparr>rd_Decision = DecisionQuarantine, rd_Reason = reasonCode e,
                                  rd_StateRef = ev_EventID e\<rparr>
           | MemRevoked e \<Rightarrow> \<lparr>rd_Decision = DecisionRefuse, rd_Reason = ''MEMORY_REVOKED'',
                              rd_StateRef = ev_EventID e\<rparr>
           | MemClear \<Rightarrow> \<lparr>rd_Decision = DecisionUse, rd_Reason = ''RUNTIME_STATE_CLEAR'',
                          rd_StateRef = zero_bytes\<rparr>))"

definition own_events :: "id16 \<Rightarrow> RevocationEvent list \<Rightarrow> RevocationEvent list" where
  "own_events mid events = filter (\<lambda>e. ev_MemoryID e = mid) events"

definition mem_history :: "id16 \<Rightarrow> RevocationEvent list \<Rightarrow> mem_state" where
  "mem_history mid events = fold mem_step (own_events mid events) mem_init"

section \<open>Simulation\<close>

text \<open>What the three maps of a snapshot hold of a memory in a given state.\<close>

definition holds_state :: "RuntimeSnapshot \<Rightarrow> id16 \<Rightarrow> mem_state \<Rightarrow> bool" where
  "holds_state snap mid s \<longleftrightarrow>
     map_of (sn_Tombstoned snap) mid
       = map_option (\<lambda>e. \<lparr>ts_EventID = ev_EventID e\<rparr>) (ms_tomb s)
   \<and> map_of (sn_Quarantined snap) mid
       = (case ms_status s of
            MemQuarantined e \<Rightarrow> Some \<lparr>qs_EventID = ev_EventID e, qs_ReasonCode = reasonCode e\<rparr>
          | _ \<Rightarrow> None)
   \<and> map_of (sn_Revoked snap) mid
       = (case ms_status s of MemRevoked e \<Rightarrow> Some \<lparr>rs_EventID = ev_EventID e\<rparr> | _ \<Rightarrow> None)"

lemma holds_state_blank: "holds_state (blank_snapshot v n t) mid mem_init"
  by (simp add: holds_state_def blank_snapshot_def mem_init_def)

lemma holds_state_own:
  "holds_state snap (ev_MemoryID e) s \<Longrightarrow>
     holds_state (apply_event e snap) (ev_MemoryID e) (mem_step e s)"
  by (auto simp: holds_state_def apply_event_def mem_step_def Let_def gomap_simps
      split: mem_status.splits)

lemma holds_state_other:
  "ev_MemoryID e \<noteq> mid \<Longrightarrow> holds_state snap mid s \<Longrightarrow> holds_state (apply_event e snap) mid s"
  by (auto simp: holds_state_def apply_event_def Let_def gomap_simps)

lemma holds_state_fold:
  "holds_state snap mid s \<Longrightarrow>
     holds_state (fold apply_event events snap) mid (fold mem_step (own_events mid events) s)"
proof (induction events arbitrary: snap s)
  case Nil
  then show ?case by (simp add: own_events_def)
next
  case (Cons e events)
  then show ?case
    by (cases "ev_MemoryID e = mid")
      (auto simp: own_events_def intro: holds_state_own holds_state_other)
qed

lemma holds_state_hash [simp]:
  "holds_state (snap\<lparr>sn_SnapshotHash := h\<rparr>) mid s \<longleftrightarrow> holds_state snap mid s"
  by (simp add: holds_state_def)

lemma holds_state_compiled: "holds_state (CompileSnapshot events v t) mid (mem_history mid events)"
  unfolding CompileSnapshot_def Let_def mem_history_def holds_state_hash
  by (rule holds_state_fold [OF holds_state_blank])

lemma lookup_holds_state:
  "holds_state snap mid s \<Longrightarrow> LookupWithSnapshot (Some snap) mid = mem_verdict s"
  by (auto simp: holds_state_def LookupWithSnapshot_def mem_verdict_def
      split: option.splits mem_status.splits)

lemma lookup_compiled:
  "LookupWithSnapshot (Some (CompileSnapshot events v t)) mid
     = mem_verdict (mem_history mid events)"
  by (rule lookup_holds_state [OF holds_state_compiled])

lemma mem_history_append:
  "mem_history mid (es @ fs) = fold mem_step (own_events mid fs) (mem_history mid es)"
  by (simp add: mem_history_def own_events_def)

lemma mem_history_snoc:
  "mem_history (ev_MemoryID e) (es @ [e]) = mem_step e (mem_history (ev_MemoryID e) es)"
  by (simp add: mem_history_def own_events_def)

lemma mem_step_tomb: "ms_tomb s \<noteq> None \<Longrightarrow> ms_tomb (mem_step e s) \<noteq> None"
  by (auto simp: mem_step_def split: mem_status.splits)

lemma fold_mem_step_tomb: "ms_tomb s \<noteq> None \<Longrightarrow> ms_tomb (fold mem_step es s) \<noteq> None"
  by (induction es arbitrary: s) (simp_all add: mem_step_tomb del: not_None_eq)

text \<open>A memory is blocked when it has a tombstone or is not clear; only a clearing event unblocks.\<close>

definition mem_blocked :: "mem_state \<Rightarrow> bool" where
  "mem_blocked s \<longleftrightarrow> ms_tomb s \<noteq> None \<or> ms_status s \<noteq> MemClear"

lemma mem_verdict_use_iff: "rd_Decision (mem_verdict s) = DecisionUse \<longleftrightarrow> \<not> mem_blocked s"
  by (auto simp: mem_verdict_def mem_blocked_def split: option.splits mem_status.splits)

lemma mem_step_blocked:
  "mem_blocked s \<Longrightarrow> ev_EventType e \<noteq> EventClearQuarantine \<Longrightarrow> mem_blocked (mem_step e s)"
  by (auto simp: mem_blocked_def mem_step_def)

lemma fold_mem_step_blocked:
  "mem_blocked s \<Longrightarrow> \<forall>e\<in>set es. ev_EventType e \<noteq> EventClearQuarantine \<Longrightarrow>
     mem_blocked (fold mem_step es s)"
  by (induction es arbitrary: s) (auto simp: mem_step_blocked)

definition blocking_event :: "EventType \<Rightarrow> bool" where
  "blocking_event t \<longleftrightarrow>
     t = EventDeleteRequested \<or> quarantine_event t \<or> t = EventRevokeMemory"

lemma mem_step_blocking: "blocking_event (ev_EventType e) \<Longrightarrow> mem_blocked (mem_step e s)"
  by (auto simp: blocking_event_def mem_blocked_def mem_step_def)

section \<open>Snapshot well-formedness\<close>

definition reason_codes :: "string list" where
  "reason_codes =
     [''MEMORY_POISONING_SUSPECTED'', ''PROMPT_INJECTION_DETECTED'', ''CROSS_SESSION_LEAK'',
      ''CROSS_AGENT_LEAK'', ''RETROACTIVE_REVOCATION'', ''MEMORY_QUARANTINED'']"

lemma reasonCode_known: "reasonCode e \<in> set reason_codes"
  by (simp add: reasonCode.simps reason_codes_def split: EventType.split QuarantineReason.split)

definition keys_distinct :: "RuntimeSnapshot \<Rightarrow> bool" where
  "keys_distinct snap \<longleftrightarrow>
     distinct (map fst (sn_Quarantined snap)) \<and> distinct (map fst (sn_Tombstoned snap))
   \<and> distinct (map fst (sn_Revoked snap))"

definition reasons_known :: "RuntimeSnapshot \<Rightarrow> bool" where
  "reasons_known snap \<longleftrightarrow>
     (\<forall>mid. case map_of (sn_Quarantined snap) mid of
        None \<Rightarrow> True | Some q \<Rightarrow> qs_ReasonCode q \<in> set reason_codes)"

text \<open>No memory is quarantined and revoked at once.\<close>

definition states_exclusive :: "RuntimeSnapshot \<Rightarrow> bool" where
  "states_exclusive snap \<longleftrightarrow>
     (\<forall>mid. map_of (sn_Quarantined snap) mid = None \<or> map_of (sn_Revoked snap) mid = None)"

definition snap_wf :: "RuntimeSnapshot \<Rightarrow> bool" where
  "snap_wf snap \<longleftrightarrow> keys_distinct snap \<and> reasons_known snap \<and> states_exclusive snap"

lemmas snap_wf_defs = keys_distinct_def reasons_known_def states_exclusive_def

lemma snap_wf_blank: "snap_wf (blank_snapshot v n t)"
  by (simp add: snap_wf_def snap_wf_defs blank_snapshot_def)

lemma keys_distinct_apply_event: "keys_distinct snap \<Longrightarrow> keys_distinct (apply_event e snap)"
  by (simp add: keys_distinct_def apply_event_def Let_def gomap_simps)

lemma reasons_known_apply_event: "reasons_known snap \<Longrightarrow> reasons_known (apply_event e snap)"
  by (simp add: reasons_known_def apply_event_def Let_def gomap_simps reasonCode_known)

lemma states_exclusive_apply_event: "states_exclusive snap \<Longrightarrow> states_exclusive (apply_event e snap)"
  by (simp add: states_exclusive_def apply_event_def Let_def gomap_simps)

lemma snap_wf_apply_event: "snap_wf snap \<Longrightarrow> snap_wf (apply_event e snap)"
  unfolding snap_wf_def
  by (blast intro: keys_distinct_apply_event reasons_known_apply_event states_exclusive_apply_event)

lemma snap_wf_hash [simp]: "snap_wf (snap\<lparr>sn_SnapshotHash := h\<rparr>) \<longleftrightarrow> snap_wf snap"
  by (simp add: snap_wf_def snap_wf_defs)

lemma snap_wf_fold: "snap_wf snap \<Longrightarrow> snap_wf (fold apply_event es snap)"
  by (induction es arbitrary: snap) (auto intro: snap_wf_apply_event)

lemma snap_wf_compiled: "snap_wf (CompileSnapshot es v t)"
  unfolding CompileSnapshot_def Let_def snap_wf_hash by (rule snap_wf_fold [OF snap_wf_blank])

lemma apply_event_frame [simp]:
  "sn_Version (apply_event e snap) = sn_Version snap"
  "sn_EventCount (apply_event e snap) = sn_EventCount snap"
  "sn_CreatedAtUnix (apply_event e snap) = sn_CreatedAtUnix snap"
  "sn_HighestEventID (apply_event e snap) = ev_EventID e"
  by (simp_all add: apply_event_def Let_def)

lemma fold_apply_event_frame [simp]:
  "sn_Version (fold apply_event es snap) = sn_Version snap"
  "sn_EventCount (fold apply_event es snap) = sn_EventCount snap"
  "sn_CreatedAtUnix (fold apply_event es snap) = sn_CreatedAtUnix snap"
  by (induction es arbitrary: snap) simp_all

lemma compiled_header [simp]:
  "sn_Version (CompileSnapshot es v t) = v"
  "sn_EventCount (CompileSnapshot es v t) = of_nat (length es)"
  by (simp_all add: CompileSnapshot_def Let_def blank_snapshot_def)

section \<open>The digest is a function of the contents\<close>

lemma sorted_pairs_unique:
  fixes m m' :: "(id16 \<times> 'v) list"
  assumes "distinct (map fst m)" and "distinct (map fst m')"
  shows "sort_key fst m = sort_key fst m' \<longleftrightarrow> map_of m = map_of m'"
proof
  assume "map_of m = map_of m'"
  then have sets: "set m = set m'" using assms map_of_inject_set by blast
  show "sort_key fst m = sort_key fst m'"
  proof (rule map_sorted_distinct_set_unique)
    show "inj_on fst (set (sort_key fst m) \<union> set (sort_key fst m'))"
      using assms(1) sets by (simp add: distinct_map)
  qed (use assms sets in \<open>simp_all add: distinct_map\<close>)
next
  assume "sort_key fst m = sort_key fst m'"
  then have "set m = set m'" by (metis set_sort)
  then show "map_of m = map_of m'" using assms map_of_inject_set by blast
qed

definition same_contents :: "RuntimeSnapshot \<Rightarrow> RuntimeSnapshot \<Rightarrow> bool" where
  "same_contents s s' \<longleftrightarrow>
     sn_Version s = sn_Version s' \<and> sn_EventCount s = sn_EventCount s'
   \<and> sn_HighestEventID s = sn_HighestEventID s'
   \<and> map_of (sn_Quarantined s) = map_of (sn_Quarantined s')
   \<and> map_of (sn_Tombstoned s) = map_of (sn_Tombstoned s')
   \<and> map_of (sn_Revoked s) = map_of (sn_Revoked s')"

lemma same_contents_bytes:
  assumes "keys_distinct s" and "keys_distinct s'" and "same_contents s s'"
  shows "snapshot_bytes s = snapshot_bytes s'"
proof -
  have "sort_key fst (sn_Quarantined s) = sort_key fst (sn_Quarantined s')"
    and "sort_key fst (sn_Tombstoned s) = sort_key fst (sn_Tombstoned s')"
    and "sort_key fst (sn_Revoked s) = sort_key fst (sn_Revoked s')"
    using assms by (simp_all add: keys_distinct_def same_contents_def sorted_pairs_unique)
  with assms(3) show ?thesis
    by (simp add: snapshot_bytes_def writeQuarantineSet_def writeTombstoneSet_def
        writeRevocationSet_def same_contents_def)
qed

section \<open>The digest determines the contents\<close>

lemma tagged_records_inject:
  assumes body: "\<And>p q x y. P p \<Longrightarrow> P q \<Longrightarrow> body p @ x = body q @ y \<Longrightarrow> p = q \<and> x = y"
    and "list_all P ps" and "list_all P qs"
    and "rest = [] \<or> hd rest \<noteq> tag" and "rest' = [] \<or> hd rest' \<noteq> tag"
    and "concat (map (\<lambda>p. tag # body p) ps) @ rest = concat (map (\<lambda>p. tag # body p) qs) @ rest'"
  shows "ps = qs \<and> rest = rest'"
  using assms(2-)
proof (induction ps arbitrary: qs)
  case Nil
  then show ?case by (cases qs) auto
next
  case (Cons p ps)
  show ?case
  proof (cases qs)
    case Nil
    with Cons.prems show ?thesis by auto
  next
    case (Cons q qs')
    with Cons.prems have "P p" "P q"
      and "body p @ concat (map (\<lambda>p. tag # body p) ps) @ rest
         = body q @ concat (map (\<lambda>p. tag # body p) qs') @ rest'" by simp_all
    from body [OF this] have "p = q"
      and "concat (map (\<lambda>p. tag # body p) ps) @ rest
         = concat (map (\<lambda>p. tag # body p) qs') @ rest'" by simp_all
    with Cons.IH [of qs'] Cons.prems Cons show ?thesis by simp
  qed
qed

lemma reason_codes_prefix_free:
  "list_all (\<lambda>r. list_all (\<lambda>r'. r = take (length r) r' \<longrightarrow> r = r') reason_codes) reason_codes"
  by code_simp

lemma reason_prefix_free:
  assumes "r \<in> set reason_codes" and "r' \<in> set reason_codes"
    and "bytes_of_string r @ x = bytes_of_string r' @ y"
  shows "r = r' \<and> x = y"
proof -
  have "r = take (length r) r' \<or> r' = take (length r') r"
    using assms(3) unfolding append_eq_append_conv_if bytes_of_string_def take_map
    by (auto simp: inj_map_eq_map [OF inj_of_char_byte] split: if_splits)
  with assms(1,2) reason_codes_prefix_free have "r = r'"
    unfolding list_all_iff by metis
  with assms(3) show ?thesis by simp
qed

lemma tag_bytes:
  "bytes_of_string ''Q'' = [81]" "bytes_of_string ''T'' = [84]" "bytes_of_string ''R'' = [82]"
  by code_simp+

lemma record_tags:
  "q_record p = 81 # drop 1 (q_record p)" "t_record q = 84 # drop 1 (t_record q)"
  "r_record r = 82 # drop 1 (r_record r)"
  by (simp_all add: q_record_def t_record_def r_record_def tag_bytes)

lemma q_body_inject:
  assumes "qs_ReasonCode (snd p) \<in> set reason_codes" and "qs_ReasonCode (snd q) \<in> set reason_codes"
    and "drop 1 (q_record p) @ x = drop 1 (q_record q) @ y"
  shows "p = q \<and> x = y"
proof -
  from assms(3) have ids: "fst p = fst q" "qs_EventID (snd p) = qs_EventID (snd q)"
    and "bytes_of_string (qs_ReasonCode (snd p)) @ x = bytes_of_string (qs_ReasonCode (snd q)) @ y"
    by (simp_all add: q_record_def tag_bytes)
  from reason_prefix_free [OF assms(1,2) this(3)] ids show ?thesis
    by (auto intro!: prod_eqI QuarantineState.equality)
qed

lemma t_body_inject: "drop 1 (t_record p) @ x = drop 1 (t_record q) @ y \<Longrightarrow> p = q \<and> x = y"
  by (auto simp: t_record_def tag_bytes intro!: prod_eqI TombstoneState.equality)

lemma r_body_inject: "drop 1 (r_record p) @ x = drop 1 (r_record q) @ y \<Longrightarrow> p = q \<and> x = y"
  by (auto simp: r_record_def tag_bytes intro!: prod_eqI RevocationState.equality)

lemma concat_tag_hd:
  "concat (map (\<lambda>p. tag # body p) ps) = [] \<or> hd (concat (map (\<lambda>p. tag # body p) ps)) = tag"
  by (cases ps) auto

lemma record_lists_inject:
  assumes "list_all (\<lambda>p. qs_ReasonCode (snd p) \<in> set reason_codes) ps"
    and "list_all (\<lambda>p. qs_ReasonCode (snd p) \<in> set reason_codes) ps'"
    and eq: "concat (map q_record ps) @ concat (map t_record ts) @ concat (map r_record rs)
       = concat (map q_record ps') @ concat (map t_record ts') @ concat (map r_record rs')"
  shows "ps = ps' \<and> ts = ts' \<and> rs = rs'"
proof -
  let ?q = "\<lambda>p. 81 # drop 1 (q_record p)" and ?t = "\<lambda>p. 84 # drop 1 (t_record p)"
    and ?r = "\<lambda>p. 82 # drop 1 (r_record p)"
  have r_hd: "concat (map ?r rs) = [] \<or> hd (concat (map ?r rs)) = 82" for rs
    by (rule concat_tag_hd)
  have tr_hd: "concat (map ?t ts) @ concat (map ?r rs) = []
      \<or> hd (concat (map ?t ts) @ concat (map ?r rs)) \<in> {84, 82}" for ts rs
    using concat_tag_hd [of 84 "\<lambda>p. drop 1 (t_record p)" ts] r_hd [of rs] by (auto simp: hd_append)
  from eq have q: "concat (map ?q ps) @ concat (map ?t ts) @ concat (map ?r rs)
      = concat (map ?q ps') @ concat (map ?t ts') @ concat (map ?r rs')"
    by (simp only: record_tags [symmetric])
  have "ps = ps' \<and> concat (map ?t ts) @ concat (map ?r rs) = concat (map ?t ts') @ concat (map ?r rs')"
    using tr_hd [of ts rs] tr_hd [of ts' rs']
    by (intro tagged_records_inject [OF q_body_inject assms(1,2) _ _ q]) auto
  moreover from this have t: "concat (map ?t ts) @ concat (map ?r rs)
      = concat (map ?t ts') @ concat (map ?r rs')" by blast
  have "ts = ts' \<and> concat (map ?r rs) = concat (map ?r rs')"
    using r_hd [of rs] r_hd [of rs']
    by (intro tagged_records_inject [where P = "\<lambda>_. True", OF t_body_inject _ _ _ _ t])
      (auto simp: list_all_iff)
  moreover from this have "concat (map ?r rs) @ [] = concat (map ?r rs') @ []" by simp
  then have "rs = rs' \<and> [] = ([] :: byte list)"
    by (intro tagged_records_inject [where P = "\<lambda>_. True", OF r_body_inject])
      (auto simp: list_all_iff)
  ultimately show ?thesis by blast
qed

lemma reasons_known_list_all:
  assumes "keys_distinct s" and "reasons_known s"
  shows "list_all (\<lambda>p. qs_ReasonCode (snd p) \<in> set reason_codes) (sort_key fst (sn_Quarantined s))"
proof -
  have "qs_ReasonCode (snd p) \<in> set reason_codes" if "p \<in> set (sn_Quarantined s)" for p
  proof -
    have "map_of (sn_Quarantined s) (fst p) = Some (snd p)"
      using assms(1) that by (simp add: keys_distinct_def)
    with assms(2) show ?thesis unfolding reasons_known_def by (metis option.simps(5))
  qed
  then show ?thesis by (simp add: list_all_iff)
qed

lemma snapshot_bytes_inject:
  assumes "snap_wf s" and "snap_wf s'" and "snapshot_bytes s = snapshot_bytes s'"
  shows "same_contents s s'"
proof -
  have wf: "keys_distinct s" "reasons_known s" "keys_distinct s'" "reasons_known s'"
    using assms(1,2) by (simp_all add: snap_wf_def)
  from assms(3) have head: "sn_Version s = sn_Version s'" "sn_EventCount s = sn_EventCount s'"
      "sn_HighestEventID s = sn_HighestEventID s'"
    and sets: "writeQuarantineSet (sn_Quarantined s) @ writeTombstoneSet (sn_Tombstoned s)
        @ writeRevocationSet (sn_Revoked s)
      = writeQuarantineSet (sn_Quarantined s') @ writeTombstoneSet (sn_Tombstoned s')
        @ writeRevocationSet (sn_Revoked s')"
    unfolding snapshot_bytes_def by simp_all
  note record_lists_inject [OF reasons_known_list_all reasons_known_list_all, OF wf(1,2,3,4)
      sets [unfolded writeQuarantineSet_def writeTombstoneSet_def writeRevocationSet_def]]
  with wf head show ?thesis
    by (simp add: same_contents_def keys_distinct_def sorted_pairs_unique)
qed

lemma compiled_hash:
  "sn_SnapshotHash (CompileSnapshot es v t) = sha256_Sum256 (snapshot_bytes (CompileSnapshot es v t))"
  by (simp add: CompileSnapshot_def Let_def ComputeSnapshotHash_def snapshot_bytes_def)

lemma same_contents_lookup:
  "same_contents s s' \<Longrightarrow> LookupWithSnapshot (Some s) mid = LookupWithSnapshot (Some s') mid"
  by (simp add: same_contents_def LookupWithSnapshot_def cong: option.case_cong)

section \<open>The gate the clients rely on\<close>

text \<open>
  What the gateway and the RPC edge assume of a runtime verdict: the memories it lets pass are
  those that are not blocked, and a verdict that is not a pass is one of three refusals. A client
  that asks the gate first and its static policy only after a pass never admits a blocked memory.
\<close>

locale runtime_gate =
  fixes verdict :: "'m \<Rightarrow> id16 \<Rightarrow> RuntimeDecision"
    and blocked :: "'m \<Rightarrow> id16 \<Rightarrow> bool"
  assumes pass_iff: "rd_Decision (verdict m mid) = DecisionUse \<longleftrightarrow> \<not> blocked m mid"
    and refusals: "rd_Decision (verdict m mid)
      \<in> {DecisionUse, DecisionDeleteRequested, DecisionQuarantine, DecisionRefuse}"
begin

lemma gated_blocked: "blocked m mid \<Longrightarrow>
    rd_Decision (verdict m mid) \<in> {DecisionDeleteRequested, DecisionQuarantine, DecisionRefuse}"
  using pass_iff [of m mid] refusals [of m mid] by auto

lemma gated_use_iff:
  "fst (if rd_Decision (verdict m mid) \<noteq> DecisionUse
        then (rd_Decision (verdict m mid), rd_Reason (verdict m mid)) else static) = DecisionUse
   \<longleftrightarrow> \<not> blocked m mid \<and> fst static = DecisionUse"
  using pass_iff [of m mid] by auto

lemma gated_qualify:
  "fst static \<noteq> DecisionQualify \<Longrightarrow>
   fst (if rd_Decision (verdict m mid) \<noteq> DecisionUse
        then (rd_Decision (verdict m mid), rd_Reason (verdict m mid)) else static)
     \<noteq> DecisionQualify"
  using refusals [of m mid] by auto

end

definition snapshot_blocks :: "RuntimeSnapshot option \<Rightarrow> id16 \<Rightarrow> bool" where
  "snapshot_blocks osnap mid =
     (case osnap of None \<Rightarrow> False
      | Some s \<Rightarrow> map_of (sn_Tombstoned s) mid \<noteq> None \<or> map_of (sn_Quarantined s) mid \<noteq> None
               \<or> map_of (sn_Revoked s) mid \<noteq> None)"

interpretation snapgate: runtime_gate LookupWithSnapshot snapshot_blocks
  by unfold_locales (auto simp: LookupWithSnapshot_def snapshot_blocks_def split: option.splits)

section \<open>Properties\<close>

lemma Lookup_CompileAndSwap:
  "Lookup (fst (CompileAndSwap m t)) mid = mem_verdict (mem_history mid (mon_ledger m))"
  by (simp add: Lookup_def CompileAndSwap_def Let_def Ledger_def SwapActiveSnapshot_def
      lookup_compiled)

text \<open>
  C3: compiling a ledger and looking a memory up refines the machine of that single memory. The
  verdict, its reason code and the event it refers to are those of the memory's own events in
  order; no event of another memory has any influence.
\<close>

theorem CompileAndSwap_refines_memory_machine:
  "Lookup (fst (CompileAndSwap m createdAt)) mid
     = mem_verdict (fold mem_step (filter (\<lambda>e. ev_MemoryID e = mid) (Ledger m)) mem_init)"
  using Lookup_CompileAndSwap [of m createdAt mid]
  by (simp add: mem_history_def own_events_def Ledger_def)

text \<open>
  A deletion request is final. Once the ledger holds one for a memory, every snapshot compiled
  from it answers that deletion was requested, whatever events precede or follow.
\<close>

theorem deletion_request_is_final:
  assumes "e \<in> set (Ledger m)" and "ev_MemoryID e = mid"
    and "ev_EventType e = EventDeleteRequested"
  shows "rd_Decision (Lookup (fst (CompileAndSwap m createdAt)) mid) = DecisionDeleteRequested"
proof -
  from assms(1) obtain pre post where "mon_ledger m = pre @ e # post"
    by (auto simp: Ledger_def dest: split_list)
  then have "mem_history mid (mon_ledger m)
      = fold mem_step (own_events mid post) (mem_step e (mem_history mid pre))"
    using assms(2) by (simp add: mem_history_def own_events_def)
  moreover have "ms_tomb (mem_step e (mem_history mid pre)) \<noteq> None"
    using assms(3) by (simp add: mem_step_def)
  ultimately have "ms_tomb (mem_history mid (mon_ledger m)) \<noteq> None"
    using fold_mem_step_tomb by simp
  then show ?thesis
    by (auto simp: Lookup_CompileAndSwap mem_verdict_def)
qed

text \<open>
  A memory that was quarantined, revoked or marked for deletion stays refused until a clearing
  event for that memory: if none follows the blocking event, the verdict is not a pass.
\<close>

theorem blocked_until_cleared:
  assumes "Ledger m = pre @ e # post" and "ev_MemoryID e = mid"
    and "blocking_event (ev_EventType e)"
    and "\<forall>f\<in>set post. ev_MemoryID f = mid \<longrightarrow> ev_EventType f \<noteq> EventClearQuarantine"
  shows "rd_Decision (Lookup (fst (CompileAndSwap m createdAt)) mid)
    \<in> {DecisionDeleteRequested, DecisionQuarantine, DecisionRefuse}"
proof -
  have "mem_history mid (mon_ledger m)
      = fold mem_step (own_events mid post) (mem_step e (mem_history mid pre))"
    using assms(1,2) by (simp add: mem_history_def own_events_def Ledger_def)
  moreover have "mem_blocked (mem_step e (mem_history mid pre))"
    using assms(3) by (rule mem_step_blocking)
  then have "mem_blocked (fold mem_step (own_events mid post) (mem_step e (mem_history mid pre)))"
    using assms(4) by (intro fold_mem_step_blocked) (auto simp: own_events_def)
  ultimately have "rd_Decision (Lookup (fst (CompileAndSwap m createdAt)) mid) \<noteq> DecisionUse"
    by (simp add: Lookup_CompileAndSwap mem_verdict_use_iff)
  with snapgate.refusals [of "mon_snapshot (fst (CompileAndSwap m createdAt))" mid] show ?thesis
    by (auto simp: Lookup_def)
qed

text \<open>
  C37: a quarantine followed by its clearing event erases an earlier revocation. Whatever the ledger
  held of the memory before (short of a deletion request), after the two events the memory passes
  again; a revoked memory becomes usable without any event that withdraws the revocation.
\<close>

theorem quarantine_and_clear_erase_revocation:
  assumes "Ledger m = pre @ [q, c]" and "ev_MemoryID q = mid" and "ev_MemoryID c = mid"
    and "quarantine_event (ev_EventType q)" and "ev_EventType c = EventClearQuarantine"
    and "\<forall>e\<in>set pre. ev_MemoryID e = mid \<longrightarrow> ev_EventType e \<noteq> EventDeleteRequested"
  shows "rd_Decision (Lookup (fst (CompileAndSwap m createdAt)) mid) = DecisionUse"
proof -
  have tomb: "ms_tomb (fold mem_step es s) = ms_tomb s"
    if "\<forall>e\<in>set es. ev_EventType e \<noteq> EventDeleteRequested" for es s
    using that by (induction es arbitrary: s) (auto simp: mem_step_def split: mem_status.splits)
  have "ms_tomb (mem_history mid pre) = None"
    using assms(6) by (auto simp: mem_history_def own_events_def mem_init_def tomb)
  moreover have "mem_history mid (mon_ledger m) = mem_step c (mem_step q (mem_history mid pre))"
    using assms(1-3) by (simp add: mem_history_def own_events_def Ledger_def)
  ultimately show ?thesis
    using assms(4,5)
    by (auto simp: Lookup_CompileAndSwap mem_verdict_use_iff mem_blocked_def mem_step_def
        quarantine_event_def)
qed

text \<open>
  C31: the snapshot digest identifies the enforced state. Two compiled snapshots with the same digest
  have the same version and event count and give every memory the same verdict, unless the two
  byte strings that were hashed collide under SHA-256.
\<close>

theorem snapshot_hash_identifies_verdicts:
  "sn_SnapshotHash (CompileSnapshot es v t) \<noteq> sn_SnapshotHash (CompileSnapshot es' v' t')
   \<or> (v = v' \<and> (of_nat (length es) :: u64) = of_nat (length es')
      \<and> (\<forall>mid. LookupWithSnapshot (Some (CompileSnapshot es v t)) mid
             = LookupWithSnapshot (Some (CompileSnapshot es' v' t')) mid))
   \<or> sha256_collision {snapshot_bytes (CompileSnapshot es v t),
       snapshot_bytes (CompileSnapshot es' v' t')}"
proof -
  let ?s = "CompileSnapshot es v t" and ?s' = "CompileSnapshot es' v' t'"
  consider "sn_SnapshotHash ?s \<noteq> sn_SnapshotHash ?s'"
    | "sha256_collision {snapshot_bytes ?s, snapshot_bytes ?s'}"
    | "snapshot_bytes ?s = snapshot_bytes ?s'"
    by (auto simp: compiled_hash sha256_collision_def)
  then show ?thesis
  proof cases
    case 3
    with snapshot_bytes_inject [OF snap_wf_compiled snap_wf_compiled] have "same_contents ?s ?s'"
      by blast
    then show ?thesis
      using same_contents_lookup by (auto simp: same_contents_def)
  qed blast+
qed

text \<open>
  The digest does not depend on the iteration order of Go's maps. Snapshots whose maps hold the
  same entries, in whatever order they are enumerated, have the same digest.
\<close>

theorem ComputeSnapshotHash_iteration_order:
  assumes "distinct (map fst (sn_Quarantined s))" and "distinct (map fst (sn_Tombstoned s))"
    and "distinct (map fst (sn_Revoked s))"
    and "mset (sn_Quarantined s) = mset q" and "mset (sn_Tombstoned s) = mset tb"
    and "mset (sn_Revoked s) = mset r"
  shows "ComputeSnapshotHash (s\<lparr>sn_Quarantined := q, sn_Tombstoned := tb, sn_Revoked := r\<rparr>)
    = ComputeSnapshotHash s"
proof -
  have perm: "distinct (map fst ys) \<and> map_of xs = map_of ys"
    if "distinct (map fst xs)" and "mset xs = mset ys" for xs ys :: "(id16 \<times> 'v) list"
    using that by (metis map_of_inject_set mset_eq_imp_distinct_iff mset_eq_setD mset_map)
  let ?s = "s\<lparr>sn_Quarantined := q, sn_Tombstoned := tb, sn_Revoked := r\<rparr>"
  have "keys_distinct s" "keys_distinct ?s" "same_contents ?s s"
    using assms perm [OF assms(1,4)] perm [OF assms(2,5)] perm [OF assms(3,6)]
    by (simp_all add: keys_distinct_def same_contents_def)
  then show ?thesis
    using same_contents_bytes [of ?s s] by (simp add: ComputeSnapshotHash_def)
qed

section \<open>Concrete instances\<close>

definition demo_event :: "byte \<Rightarrow> byte \<Rightarrow> EventType \<Rightarrow> RevocationEvent" where
  "demo_event eid mid ty =
     \<lparr>ev_EventID = copy_bytes [eid], ev_MemoryID = copy_bytes [mid], ev_EventType = ty,
      ev_Reason = ReasonPoisoningSuspected, ev_OperatorID = ''op'', ev_Source = ''test'',
      ev_CreatedAt = 0, ev_PolicyHash = zero_bytes, ev_PreviousState = '''', ev_NewState = '''',
      ev_Signature = zero_bytes, ev_SigningKeyID = ''''\<rparr>"

lemma demo_event_fields [simp]:
  "ev_EventID (demo_event eid mid ty) = copy_bytes [eid]"
  "ev_MemoryID (demo_event eid mid ty) = copy_bytes [mid]"
  "ev_EventType (demo_event eid mid ty) = ty"
  by (simp_all add: demo_event_def)

definition demo_monitor :: "RevocationEvent list \<Rightarrow> RuntimeMonitor" where
  "demo_monitor es = \<lparr>mon_snapshot = None, mon_ledger = es\<rparr>"

lemma Ledger_demo_monitor [simp]: "Ledger (demo_monitor es) = es"
  by (simp add: Ledger_def demo_monitor_def)

theorem deletion_request_is_final_witness:
  "rd_Decision (Lookup (fst (CompileAndSwap (demo_monitor
      [demo_event 1 9 EventDeleteRequested, demo_event 2 9 EventClearQuarantine]) 0))
      (copy_bytes [9])) = DecisionDeleteRequested"
  by (rule deletion_request_is_final [of "demo_event 1 9 EventDeleteRequested"]) simp_all

theorem blocked_until_cleared_witness:
  "rd_Decision (Lookup (fst (CompileAndSwap (demo_monitor
      [demo_event 1 9 EventRevokeMemory, demo_event 2 8 EventClearQuarantine]) 0)) (copy_bytes [9]))
   \<in> {DecisionDeleteRequested, DecisionQuarantine, DecisionRefuse}"
  by (rule blocked_until_cleared [of _ "[]" "demo_event 1 9 EventRevokeMemory"
        "[demo_event 2 8 EventClearQuarantine]"])
    (simp_all add: blocking_event_def)

theorem quarantine_and_clear_erase_revocation_witness:
  "rd_Decision (Lookup (fst (CompileAndSwap (demo_monitor
      [demo_event 1 9 EventRevokeMemory, demo_event 2 9 EventQuarantineMemory,
       demo_event 3 9 EventClearQuarantine]) 0)) (copy_bytes [9])) = DecisionUse"
  by (rule quarantine_and_clear_erase_revocation [of _ "[demo_event 1 9 EventRevokeMemory]"
        "demo_event 2 9 EventQuarantineMemory" "demo_event 3 9 EventClearQuarantine"])
    (simp_all add: quarantine_event_def)

definition demo_snapshot :: RuntimeSnapshot where
  "demo_snapshot = (blank_snapshot 1 2 0)
     \<lparr>sn_Revoked := [(copy_bytes [1], \<lparr>rs_EventID = copy_bytes [5]\<rparr>),
                     (copy_bytes [2], \<lparr>rs_EventID = copy_bytes [6]\<rparr>)]\<rparr>"

theorem ComputeSnapshotHash_iteration_order_witness:
  "ComputeSnapshotHash (demo_snapshot\<lparr>sn_Quarantined := [], sn_Tombstoned := [],
      sn_Revoked := rev (sn_Revoked demo_snapshot)\<rparr>) = ComputeSnapshotHash demo_snapshot"
  by (rule ComputeSnapshotHash_iteration_order)
    (simp_all add: demo_snapshot_def blank_snapshot_def)

theorem snapshot_hash_identifies_verdicts_witness:
  "\<not> (sn_SnapshotHash (CompileSnapshot [demo_event 1 9 EventRevokeMemory] 1 0)
        = sn_SnapshotHash (CompileSnapshot [demo_event 1 9 EventRevokeMemory] 2 0)
      \<and> \<not> sha256_collision {snapshot_bytes (CompileSnapshot [demo_event 1 9 EventRevokeMemory] 1 0),
          snapshot_bytes (CompileSnapshot [demo_event 1 9 EventRevokeMemory] 2 0)})"
  using snapshot_hash_identifies_verdicts [of "[demo_event 1 9 EventRevokeMemory]" 1 0
      "[demo_event 1 9 EventRevokeMemory]" 2 0]
  by auto

end
