(* ===== verification/Monitor_Race.thy ===== *)
theory Monitor_Race
  imports Quarantine
begin

text \<open>
  Concurrent writers of the runtime monitor. The RPC edge and every drift worker run
  \<^verbatim>\<open>Monitor.AppendEvent(event)\<close> and then \<^verbatim>\<open>Monitor.CompileAndSwap(now)\<close>
  without holding a lock across the two; each of the four accesses to shared state is atomic, and
  any interleaving of them is possible. The lemmas show what every interleaving keeps (the active
  snapshot is always the compilation of a prefix of the ledger) and what it does not (the prefix may
  be stale even when every writer has finished).
\<close>

section \<open>Writers\<close>

text \<open>
  Where a writer stands: before appending its event, after it, after reading the ledger, after
  loading the active version, finished. The time is the argument of
  \<^verbatim>\<open>CompileAndSwap\<close>.
\<close>

datatype writer =
    WStart RevocationEvent go_time
  | WAppended go_time
  | WRead "RevocationEvent list" go_time
  | WVersioned "RevocationEvent list" u64 go_time
  | WDone

record race_state =
  race_mon :: RuntimeMonitor
  race_pcs :: "writer list"

definition next_version :: "RuntimeMonitor \<Rightarrow> u64" where
  "next_version m = (case mon_snapshot m of None \<Rightarrow> 1 | Some s \<Rightarrow> sn_Version s + 1)"

text \<open>One atomic access of a writer: its new position and the new monitor.\<close>

fun writer_step :: "writer \<Rightarrow> RuntimeMonitor \<Rightarrow> writer \<times> RuntimeMonitor" where
  "writer_step (WStart e t) m = (WAppended t, AppendEvent m e)"
| "writer_step (WAppended t) m = (WRead (Ledger m) t, m)"
| "writer_step (WRead evs t) m = (WVersioned evs (next_version m) t, m)"
| "writer_step (WVersioned evs v t) m =
     (WDone, SwapActiveSnapshot m (Some (CompileSnapshot evs v t)))"
| "writer_step WDone m = (WDone, m)"

inductive race_step :: "race_state \<Rightarrow> race_state \<Rightarrow> bool" where
  race: "i < length (race_pcs s) \<Longrightarrow> writer_step (race_pcs s ! i) (race_mon s) = (w, m) \<Longrightarrow>
     race_step s (s\<lparr>race_mon := m, race_pcs := (race_pcs s)[i := w]\<rparr>)"

definition race_init :: "go_time \<Rightarrow> (RevocationEvent \<times> go_time) list \<Rightarrow> race_state \<Rightarrow> bool" where
  "race_init t0 jobs s \<longleftrightarrow>
     s = \<lparr>race_mon = NewRuntimeMonitor t0, race_pcs = map (\<lambda>(e, t). WStart e t) jobs\<rparr>"

text \<open>Running the writers by a given schedule of indices.\<close>

fun run_schedule :: "nat list \<Rightarrow> race_state \<Rightarrow> race_state" where
  "run_schedule [] s = s"
| "run_schedule (i # is) s =
     (case writer_step (race_pcs s ! i) (race_mon s) of
        (w, m) \<Rightarrow> run_schedule is (s\<lparr>race_mon := m, race_pcs := (race_pcs s)[i := w]\<rparr>))"

lemma run_schedule_reach:
  "reach init race_step s \<Longrightarrow> \<forall>i\<in>set is. i < length (race_pcs s) \<Longrightarrow>
     reach init race_step (run_schedule is s)"
proof (induction "is" arbitrary: s)
  case Nil
  then show ?case by simp
next
  case (Cons i "is")
  obtain w m where st: "writer_step (race_pcs s ! i) (race_mon s) = (w, m)" by fastforce
  with Cons.prems have "reach init race_step (s\<lparr>race_mon := m, race_pcs := (race_pcs s)[i := w]\<rparr>)"
    by (auto intro: reach_step race_step.race)
  with Cons st show ?case by simp
qed

text \<open>Run alone, the four accesses are \<^verbatim>\<open>AppendEvent\<close> followed by \<^verbatim>\<open>CompileAndSwap\<close>.\<close>

lemma writer_alone:
  "(let (w1, m1) = writer_step (WStart e t) m; (w2, m2) = writer_step w1 m1;
        (w3, m3) = writer_step w2 m2; (w4, m4) = writer_step w3 m3 in (w4, m4))
     = (WDone, fst (CompileAndSwap (AppendEvent m e) t))"
  by (simp add: CompileAndSwap_def Let_def next_version_def)

section \<open>What every interleaving keeps\<close>

definition snapshot_of_prefix :: "RuntimeMonitor \<Rightarrow> bool" where
  "snapshot_of_prefix m \<longleftrightarrow>
     (\<exists>evs v t. prefix evs (mon_ledger m) \<and> mon_snapshot m = Some (CompileSnapshot evs v t))"

fun writer_ok :: "RevocationEvent list \<Rightarrow> writer \<Rightarrow> bool" where
  "writer_ok l (WRead evs t) = prefix evs l"
| "writer_ok l (WVersioned evs v t) = prefix evs l"
| "writer_ok l _ = True"

definition race_inv :: "race_state \<Rightarrow> bool" where
  "race_inv s \<longleftrightarrow>
     snapshot_of_prefix (race_mon s) \<and> (\<forall>w\<in>set (race_pcs s). writer_ok (mon_ledger (race_mon s)) w)"

lemma NewEmptySnapshot_compiled: "NewEmptySnapshot v t = CompileSnapshot [] v t"
  by (simp add: NewEmptySnapshot_def CompileSnapshot_def)

lemma prefix_snoc: "prefix xs ys \<Longrightarrow> prefix xs (ys @ [y])"
  by (simp add: prefix_order.trans prefixI)

lemma writer_ok_append: "writer_ok l w \<Longrightarrow> writer_ok (l @ [e]) w"
  by (cases w) (auto intro: prefix_snoc)

lemma snapshot_of_prefix_append:
  "snapshot_of_prefix m \<Longrightarrow> snapshot_of_prefix (AppendEvent m e)"
  unfolding snapshot_of_prefix_def AppendEvent_def by (auto intro: prefix_snoc)

lemma snapshot_of_prefix_swap:
  "prefix evs (mon_ledger m) \<Longrightarrow>
     snapshot_of_prefix (SwapActiveSnapshot m (Some (CompileSnapshot evs v t)))"
  unfolding snapshot_of_prefix_def SwapActiveSnapshot_def by auto

lemma ledger_of [simp]:
  "mon_ledger (AppendEvent m e) = mon_ledger m @ [e]"
  "mon_ledger (SwapActiveSnapshot m os) = mon_ledger m"
  by (simp_all add: AppendEvent_def SwapActiveSnapshot_def split: option.split)

lemma writer_step_inv:
  assumes "writer_step w m = (w', m')" and "snapshot_of_prefix m" and "writer_ok (mon_ledger m) w"
  shows "snapshot_of_prefix m' \<and> writer_ok (mon_ledger m') w'
    \<and> (\<forall>x. writer_ok (mon_ledger m) x \<longrightarrow> writer_ok (mon_ledger m') x)"
  using assms
  by (cases w) (auto simp: snapshot_of_prefix_append snapshot_of_prefix_swap writer_ok_append Ledger_def)

lemma race_step_inv: "race_step s s' \<Longrightarrow> race_inv s \<Longrightarrow> race_inv s'"
proof (induction rule: race_step.induct)
  case (race i s w m)
  from race(1,3) have "writer_ok (mon_ledger (race_mon s)) (race_pcs s ! i)"
    by (simp add: race_inv_def)
  with race writer_step_inv [OF race(2)] show ?case
    by (auto simp: race_inv_def dest!: set_update_subset_insert [THEN subsetD])
qed

lemma race_init_inv: "race_init t0 jobs s \<Longrightarrow> race_inv s"
  by (auto simp: race_init_def race_inv_def snapshot_of_prefix_def NewRuntimeMonitor_def
      SwapActiveSnapshot_def NewEmptySnapshot_compiled)

interpretation races: invariant_system "race_init t0 jobs" race_step race_inv
  by unfold_locales (rule race_init_inv, assumption, rule race_step_inv)

section \<open>Properties\<close>

text \<open>
  C18: no interleaving of concurrent writers tears the enforced state. In every reachable state the
  active snapshot is the compilation of a prefix of the ledger: readers see the effect of some
  initial part of the event history, complete and in order.
\<close>

theorem active_snapshot_is_ledger_prefix:
  assumes "reach (race_init t0 jobs) race_step s"
  shows "\<exists>evs v t. prefix evs (Ledger (race_mon s))
    \<and> mon_snapshot (race_mon s) = Some (CompileSnapshot evs v t)"
  using races.reach_I [OF assms] by (simp add: race_inv_def snapshot_of_prefix_def Ledger_def)

text \<open>
  C19: readers always see a well-formed snapshot. In every reachable state there is an active snapshot; each
  of its maps holds a memory at most once, no memory is quarantined and revoked at once, every reason
  is one of the six reason codes, its digest is the digest of its contents, and it counts no more
  events than the ledger has.
\<close>

theorem active_snapshot_is_well_formed:
  assumes "reach (race_init t0 jobs) race_step s"
  shows "\<exists>snap. mon_snapshot (race_mon s) = Some snap
    \<and> keys_distinct snap \<and> states_exclusive snap \<and> reasons_known snap
    \<and> sn_SnapshotHash snap = ComputeSnapshotHash snap
    \<and> (\<exists>n. n \<le> length (Ledger (race_mon s)) \<and> sn_EventCount snap = of_nat n)"
proof -
  obtain evs v t where evs: "prefix evs (Ledger (race_mon s))"
      "mon_snapshot (race_mon s) = Some (CompileSnapshot evs v t)"
    using races.reach_I [OF assms] by (auto simp: race_inv_def snapshot_of_prefix_def Ledger_def)
  have "ComputeSnapshotHash (CompileSnapshot evs v t) = sn_SnapshotHash (CompileSnapshot evs v t)"
    by (simp add: compiled_hash ComputeSnapshotHash_def)
  with evs snap_wf_compiled [of evs v t] prefix_length_le [OF evs(1)] show ?thesis
    by (auto simp: snap_wf_def)
qed

text \<open>
  C38: a finished registration can be overwritten by a stale one. Of two writers with different
  memories, the one that read the ledger first can swap last; both have then finished, the ledger
  holds both events, and the memory of the second event still passes.
\<close>

theorem stale_swap_loses_a_block:
  assumes "ev_MemoryID e1 \<noteq> ev_MemoryID e2"
  shows "\<exists>s. reach (race_init t0 [(e1, t1), (e2, t2)]) race_step s
    \<and> race_pcs s = [WDone, WDone] \<and> Ledger (race_mon s) = [e1, e2]
    \<and> rd_Decision (Lookup (race_mon s) (ev_MemoryID e2)) = DecisionUse"
proof -
  let ?s0 = "\<lparr>race_mon = NewRuntimeMonitor t0, race_pcs = [WStart e1 t1, WStart e2 t2]\<rparr>"
  let ?s = "run_schedule [0, 0, 1, 1, 1, 1, 0, 0] ?s0"
  have "reach (race_init t0 [(e1, t1), (e2, t2)]) race_step ?s"
    by (intro run_schedule_reach reach_init) (simp_all add: race_init_def)
  moreover have "race_pcs ?s = [WDone, WDone]" "Ledger (race_mon ?s) = [e1, e2]"
    by (simp_all add: Ledger_def NewRuntimeMonitor_def)
  moreover have "rd_Decision (Lookup (race_mon ?s) (ev_MemoryID e2)) = DecisionUse"
    using assms
    by (simp add: Ledger_def NewRuntimeMonitor_def Lookup_def SwapActiveSnapshot_def
        lookup_compiled mem_history_def own_events_def mem_verdict_def mem_init_def)
  ultimately show ?thesis by blast
qed

text \<open>Two writers: the first has finished, the second has only appended its event.\<close>

abbreviation demo_race :: race_state where
  "demo_race \<equiv> run_schedule [0, 0, 0, 0, 1] \<lparr>race_mon = NewRuntimeMonitor 0,
     race_pcs = [WStart (demo_event 1 8 EventRevokeMemory) 5, WStart (demo_event 2 9 EventDeleteRequested) 6]\<rparr>"

lemma demo_race_reach:
  "reach (race_init 0 [(demo_event 1 8 EventRevokeMemory, 5), (demo_event 2 9 EventDeleteRequested, 6)])
     race_step demo_race"
  by (intro run_schedule_reach reach_init) (simp_all add: race_init_def)

lemma demo_race_ledger:
  "Ledger (race_mon demo_race) = [demo_event 1 8 EventRevokeMemory, demo_event 2 9 EventDeleteRequested]"
  "race_pcs demo_race = [WDone, WAppended 6]"
  by (simp_all add: Ledger_def NewRuntimeMonitor_def)

theorem active_snapshot_is_ledger_prefix_witness:
  "\<exists>(s :: race_state) evs v t. race_pcs s = [WDone, WAppended 6]
    \<and> Ledger (race_mon s) = [demo_event 1 8 EventRevokeMemory, demo_event 2 9 EventDeleteRequested]
    \<and> prefix evs (Ledger (race_mon s)) \<and> mon_snapshot (race_mon s) = Some (CompileSnapshot evs v t)"
  using active_snapshot_is_ledger_prefix [OF demo_race_reach] demo_race_ledger by metis

theorem active_snapshot_is_well_formed_witness:
  "\<exists>(s :: race_state) snap. race_pcs s = [WDone, WAppended 6]
    \<and> mon_snapshot (race_mon s) = Some snap \<and> keys_distinct snap
    \<and> sn_SnapshotHash snap = ComputeSnapshotHash snap"
  using active_snapshot_is_well_formed [OF demo_race_reach] demo_race_ledger(2) by metis

theorem stale_swap_loses_a_block_witness:
  "\<exists>s. reach (race_init 0 [(demo_event 1 8 EventRevokeMemory, 1),
          (demo_event 2 9 EventDeleteRequested, 2)]) race_step s
    \<and> race_pcs s = [WDone, WDone]
    \<and> Ledger (race_mon s) = [demo_event 1 8 EventRevokeMemory, demo_event 2 9 EventDeleteRequested]
    \<and> rd_Decision (Lookup (race_mon s) (ev_MemoryID (demo_event 2 9 EventDeleteRequested)))
        = DecisionUse"
  by (rule stale_swap_loses_a_block) simp

end
