(* ===== verification/Go_Float.thy ===== *)
theory Go_Float
  imports Complex_Main
begin

text \<open>
  IEEE 754 binary floating point as Go's \<^verbatim>\<open>float32\<close> and \<^verbatim>\<open>float64\<close> have it:
  finite values, two infinities and NaN, every operation the exact one on the reals followed by
  rounding to nearest, ties to even. The two zeros are one value here; they differ in Go only in the
  sign of a quotient by zero, and the sources do not divide by zero. A
  \<^verbatim>\<open>float32\<close> value is a \<^verbatim>\<open>float64\<close> value, so the conversion is the identity.
\<close>

datatype flt = FFin real | FInf bool | FNaN

definition round_even :: "real \<Rightarrow> int" where
  "round_even x =
     (let f = \<lfloor>x\<rfloor>; d = x - of_int f in
      if d < 1 / 2 then f else if 1 / 2 < d then f + 1 else if even f then f else f + 1)"

text \<open>
  Rounding to \<open>p\<close> significant bits, with \<open>2 powr emin\<close> the least positive value and
  \<open>(2 ^ p - 1) * 2 powr etop\<close> the largest finite one.
\<close>

definition fround :: "nat \<Rightarrow> int \<Rightarrow> int \<Rightarrow> real \<Rightarrow> flt" where
  "fround p emin etop x =
     (if x = 0 then FFin 0
      else
        let e = max emin (\<lfloor>log 2 \<bar>x\<bar>\<rfloor> - int p + 1);
            v = of_int (round_even (x / 2 powr e)) * 2 powr e
        in if \<bar>v\<bar> > (2 ^ p - 1) * 2 powr etop then FInf (0 < x) else FFin v)"

definition round32 :: "real \<Rightarrow> flt" where "round32 = fround 24 (-149) 104"
definition round64 :: "real \<Rightarrow> flt" where "round64 = fround 53 (-1074) 971"

fun flt_neg :: "flt \<Rightarrow> flt" where
  "flt_neg (FFin x) = FFin (- x)"
| "flt_neg (FInf s) = FInf (\<not> s)"
| "flt_neg FNaN = FNaN"

fun flt_add :: "(real \<Rightarrow> flt) \<Rightarrow> flt \<Rightarrow> flt \<Rightarrow> flt" where
  "flt_add rnd (FFin x) (FFin y) = rnd (x + y)"
| "flt_add rnd (FInf s) (FInf t) = (if s = t then FInf s else FNaN)"
| "flt_add rnd (FInf s) (FFin y) = FInf s"
| "flt_add rnd (FFin x) (FInf t) = FInf t"
| "flt_add rnd FNaN b = FNaN"
| "flt_add rnd a FNaN = FNaN"

definition flt_sub :: "(real \<Rightarrow> flt) \<Rightarrow> flt \<Rightarrow> flt \<Rightarrow> flt" where
  "flt_sub rnd a b = flt_add rnd a (flt_neg b)"

fun flt_mul :: "(real \<Rightarrow> flt) \<Rightarrow> flt \<Rightarrow> flt \<Rightarrow> flt" where
  "flt_mul rnd (FFin x) (FFin y) = rnd (x * y)"
| "flt_mul rnd (FInf s) (FInf t) = FInf (s = t)"
| "flt_mul rnd (FInf s) (FFin y) = (if y = 0 then FNaN else FInf (s = (0 < y)))"
| "flt_mul rnd (FFin x) (FInf t) = (if x = 0 then FNaN else FInf ((0 < x) = t))"
| "flt_mul rnd FNaN b = FNaN"
| "flt_mul rnd a FNaN = FNaN"

fun flt_div :: "(real \<Rightarrow> flt) \<Rightarrow> flt \<Rightarrow> flt \<Rightarrow> flt" where
  "flt_div rnd (FFin x) (FFin y) =
     (if y = 0 then (if x = 0 then FNaN else FInf (0 < x)) else rnd (x / y))"
| "flt_div rnd (FInf s) (FInf t) = FNaN"
| "flt_div rnd (FInf s) (FFin y) = FInf (s = (0 \<le> y))"
| "flt_div rnd (FFin x) (FInf t) = FFin 0"
| "flt_div rnd FNaN b = FNaN"
| "flt_div rnd a FNaN = FNaN"

text \<open>\<^verbatim>\<open>math.Sqrt\<close>\<close>

fun flt_sqrt :: "flt \<Rightarrow> flt" where
  "flt_sqrt (FFin x) = (if x < 0 then FNaN else round64 (sqrt x))"
| "flt_sqrt (FInf s) = (if s then FInf True else FNaN)"
| "flt_sqrt FNaN = FNaN"

text \<open>Comparisons are false when an operand is NaN.\<close>

fun flt_gt :: "flt \<Rightarrow> flt \<Rightarrow> bool" where
  "flt_gt (FFin x) (FFin y) = (x > y)"
| "flt_gt (FInf s) (FInf t) = (s \<and> \<not> t)"
| "flt_gt (FInf s) (FFin y) = s"
| "flt_gt (FFin x) (FInf t) = (\<not> t)"
| "flt_gt FNaN b = False"
| "flt_gt a FNaN = False"

fun flt_eq :: "flt \<Rightarrow> flt \<Rightarrow> bool" where
  "flt_eq FNaN b = False"
| "flt_eq a FNaN = False"
| "flt_eq a b = (a = b)"

lemma flt_NaN [simp]:
  "flt_add rnd a FNaN = FNaN" "flt_mul rnd a FNaN = FNaN" "flt_div rnd a FNaN = FNaN"
  "flt_sub rnd a FNaN = FNaN" "flt_sub rnd FNaN a = FNaN" "flt_gt a FNaN = False"
  "flt_eq a FNaN = False"
  by (cases a; simp add: flt_sub_def)+

lemma flt_gt_trans: "flt_gt a b \<Longrightarrow> flt_gt b c \<Longrightarrow> flt_gt a c"
  by (cases a; cases b; cases c) auto

lemma flt_gt_irrefl [simp]: "\<not> flt_gt a a"
  by (cases a) auto

text \<open>Integers of at most \<open>p\<close> bits are represented exactly.\<close>

lemma round_even_int [simp]: "round_even (of_int k) = k"
  by (simp add: round_even_def)

lemma fround_int:
  assumes "\<bar>k\<bar> < 2 ^ p" and "emin \<le> 0" and "0 \<le> etop"
  shows "fround p emin etop (of_int k) = FFin (of_int k)"
proof (cases "k = 0")
  case True
  then show ?thesis by (simp add: fround_def)
next
  case False
  let ?x = "of_int k :: real"
  define e where "e = max emin (\<lfloor>log 2 \<bar>?x\<bar>\<rfloor> - int p + 1)"
  have "real_of_int \<bar>k\<bar> < of_int (2 ^ p)" using assms(1) by (simp only: of_int_less_iff)
  with False have k: "0 < \<bar>?x\<bar>" "\<bar>?x\<bar> < 2 powr p"
    by (simp_all add: powr_realpow)
  then have "log 2 \<bar>?x\<bar> < real p" by (subst log_less_iff) auto
  then have "\<lfloor>log 2 \<bar>?x\<bar>\<rfloor> < int p" by (simp add: floor_less_iff)
  then have "e \<le> 0" using assms(2) by (auto simp: e_def)
  then obtain n where "- e = int n" using nonneg_int_cases [of "- e"] by auto
  then have en: "real_of_int e = - real n" by (metis of_int_of_nat_eq of_int_minus minus_minus)
  have pow: "(2 :: real) powr of_int e = 1 / 2 ^ n"
    unfolding en by (simp add: powr_minus_divide powr_realpow)
  have "?x / 2 powr of_int e = of_int (k * 2 ^ n)" by (simp add: pow)
  then have "round_even (?x / 2 powr of_int e) = k * 2 ^ n" by (metis round_even_int)
  then have v: "of_int (round_even (?x / 2 powr of_int e)) * 2 powr of_int e = ?x"
    by (simp add: pow)
  have "\<bar>k\<bar> \<le> 2 ^ p - 1" using assms(1) by linarith
  then have "real_of_int \<bar>k\<bar> \<le> of_int (2 ^ p - 1)" by (simp only: of_int_le_iff)
  then have "\<bar>?x\<bar> \<le> 2 ^ p - 1" by simp
  also have "\<dots> \<le> (2 ^ p - 1) * 2 powr of_int etop"
    using assms(3) mult_left_mono [of 1 "2 powr of_int etop" "2 ^ p - 1 :: real"]
    by (simp add: ge_one_powr_ge_zero)
  finally have "\<not> \<bar>?x\<bar> > (2 ^ p - 1) * 2 powr of_int etop" by simp
  with False v show ?thesis by (simp add: fround_def Let_def flip: e_def)
qed

lemma round64_int: "\<bar>k\<bar> < 2 ^ 53 \<Longrightarrow> round64 (of_int k) = FFin (of_int k)"
  unfolding round64_def by (rule fround_int) auto

lemma round32_int: "\<bar>k\<bar> < 2 ^ 24 \<Longrightarrow> round32 (of_int k) = FFin (of_int k)"
  unfolding round32_def by (rule fround_int) auto

lemma round_small [simp]:
  "round64 0 = FFin 0" "round64 1 = FFin 1" "round32 0 = FFin 0" "round32 1 = FFin 1"
  "round64 (numeral k) = (if (numeral k :: int) < 2 ^ 53 then FFin (numeral k) else round64 (numeral k))"
  using round64_int [of 0] round64_int [of 1] round32_int [of 0] round32_int [of 1]
    round64_int [of "numeral k"] by simp_all

end
