(* ===== verification/Axis.thy ===== *)
theory Axis
  imports Go_Float Mam_Prelude
begin

text \<open>
  \<^verbatim>\<open>pkg/axis/integrity.go\<close>: the drift check of a structural vector against its anchor,
  partition by partition, over the floating-point values of \<open>Go_Float\<close>. The five checks of
  \<^verbatim>\<open>EvaluateDrift\<close> update one result in turn; the lemmas read the final result off the list
  of the partitions that failed.
\<close>

abbreviation DriftTypeTemporality :: string where
  "DriftTypeTemporality \<equiv> ''TEMPORARY_STATE_PROMOTED_TO_STABLE_TRAIT''"
abbreviation DriftTypeEpistemic :: string where
  "DriftTypeEpistemic \<equiv> ''INFERENCE_PROMOTED_TO_FACT''"
abbreviation DriftTypeScope :: string where
  "DriftTypeScope \<equiv> ''CONTEXT_BOUND_MEMORY_REUSED_GLOBALLY''"
abbreviation DriftTypeTrust :: string where
  "DriftTypeTrust \<equiv> ''LOW_TRUST_SOURCE_PROMOTED''"
abbreviation DriftTypeMandate :: string where
  "DriftTypeMandate \<equiv> ''PREFERENCE_PROMOTED_TO_MANDATE''"

abbreviation ReasonTemporality :: string where "ReasonTemporality \<equiv> ''TEMPORARITY_DRIFT_DETECTED''"
abbreviation ReasonEpistemic :: string where "ReasonEpistemic \<equiv> ''EPISTEMIC_MODAL_SHIFT''"
abbreviation ReasonScope :: string where "ReasonScope \<equiv> ''SCOPE_EXPANSION_VIOLATION''"
abbreviation ReasonTrust :: string where "ReasonTrust \<equiv> ''SOURCE_TRUST_COLLAPSE''"
abbreviation ReasonMandate :: string where "ReasonMandate \<equiv> ''PREFERENCE_PROMOTED_TO_AUTHORITY''"

type_synonym StructuralVector = "flt list"

record AxisCheckResult =
  ax_AxisPreserved :: bool
  ax_DriftScore :: flt
  ax_DriftType :: string
  ax_ReasonCodes :: "string list"

record InvariantDimensions =
  TemporalityStart :: int
  TemporalityEnd :: int
  EpistemicStart :: int
  EpistemicEnd :: int
  ScopeStart :: int
  ScopeEnd :: int
  TrustStart :: int
  TrustEnd :: int
  MandateStart :: int
  MandateEnd :: int

definition DefaultDimensions :: InvariantDimensions where
  "DefaultDimensions =
     \<lparr>TemporalityStart = 0, TemporalityEnd = 23, EpistemicStart = 24, EpistemicEnd = 47,
      ScopeStart = 48, ScopeEnd = 71, TrustStart = 72, TrustEnd = 95,
      MandateStart = 96, MandateEnd = 127\<rparr>"

text \<open>One iteration of the loop over a partition: products in 32 bits, sums in 64.\<close>

definition cosine_step ::
  "StructuralVector \<Rightarrow> StructuralVector \<Rightarrow> flt \<times> flt \<times> flt \<Rightarrow> int \<Rightarrow> flt \<times> flt \<times> flt"
where
  "cosine_step v1 v2 s i =
     (case s of (dotProduct, normV1, normV2) \<Rightarrow>
        let a = v1 ! nat i; b = v2 ! nat i in
        (flt_add round64 dotProduct (flt_mul round32 a b),
         flt_add round64 normV1 (flt_mul round32 a a),
         flt_add round64 normV2 (flt_mul round32 b b)))"

definition CosineSimilarity ::
  "StructuralVector \<Rightarrow> StructuralVector \<Rightarrow> int \<Rightarrow> int \<Rightarrow> go_error + flt"
where
  "CosineSimilarity v1 v2 start stop =
     (if length v1 \<noteq> 128 \<or> length v2 \<noteq> 128 then
        Inl (ErrorString
          ''INVALID_VECTOR_SIZE: structural vectors must be exactly 128 dimensions'')
      else if start < 0 \<or> stop \<ge> int (length v1) \<or> start > stop then
        Inl (ErrorString
          ''INVALID_VECTOR_BOUNDS: dimension partition slice is out of range'')
      else
        (case foldl (cosine_step v1 v2) (FFin 0, FFin 0, FFin 0) [start..stop] of
           (dotProduct, normV1, normV2) \<Rightarrow>
             if flt_eq normV1 (FFin 0) \<or> flt_eq normV2 (FFin 0) then Inr (FFin 0)
             else Inr (flt_div round64 dotProduct
                    (flt_mul round64 (flt_sqrt normV1) (flt_sqrt normV2)))))"

text \<open>The closure \<^verbatim>\<open>check\<close>. Only plain error strings can come out of the similarity.\<close>

definition drift_check ::
  "StructuralVector \<Rightarrow> StructuralVector \<Rightarrow> flt \<Rightarrow> int \<times> int \<times> string \<times> string
   \<Rightarrow> AxisCheckResult \<Rightarrow> AxisCheckResult"
where
  "drift_check anchor mutated threshold part res =
     (case part of (start, stop, driftType, reason) \<Rightarrow>
        (case CosineSimilarity anchor mutated start stop of
           Inl err \<Rightarrow>
             res\<lparr>ax_AxisPreserved := False, ax_DriftType := ''INVALID_AXIS_INPUT'',
                 ax_ReasonCodes := ax_ReasonCodes res
                   @ [case err of ErrorString msg \<Rightarrow> msg | RpcError c msg \<Rightarrow> msg],
                 ax_DriftScore := FFin 1\<rparr>
         | Inr sim \<Rightarrow>
             let drift = flt_sub round64 (FFin 1) sim in
             if flt_gt drift threshold then
               let res = res\<lparr>ax_AxisPreserved := False,
                             ax_ReasonCodes := ax_ReasonCodes res @ [reason]\<rparr> in
               if flt_gt drift (ax_DriftScore res)
               then res\<lparr>ax_DriftScore := drift, ax_DriftType := driftType\<rparr> else res
             else res))"

definition partitions :: "InvariantDimensions \<Rightarrow> (int \<times> int \<times> string \<times> string) list" where
  "partitions dims =
     [(TemporalityStart dims, TemporalityEnd dims, DriftTypeTemporality, ReasonTemporality),
      (EpistemicStart dims, EpistemicEnd dims, DriftTypeEpistemic, ReasonEpistemic),
      (ScopeStart dims, ScopeEnd dims, DriftTypeScope, ReasonScope),
      (TrustStart dims, TrustEnd dims, DriftTypeTrust, ReasonTrust),
      (MandateStart dims, MandateEnd dims, DriftTypeMandate, ReasonMandate)]"

definition EvaluateDrift ::
  "StructuralVector \<Rightarrow> StructuralVector \<Rightarrow> InvariantDimensions \<Rightarrow> flt \<Rightarrow> AxisCheckResult"
where
  "EvaluateDrift anchor mutated dims threshold =
     fold (drift_check anchor mutated threshold) (partitions dims)
       \<lparr>ax_AxisPreserved = True, ax_DriftScore = FFin 0, ax_DriftType = [], ax_ReasonCodes = []\<rparr>"

section \<open>Partitions\<close>

definition in_range :: "int \<times> int \<times> string \<times> string \<Rightarrow> bool" where
  "in_range part \<longleftrightarrow> (case part of (start, stop, _) \<Rightarrow> 0 \<le> start \<and> start \<le> stop \<and> stop < 128)"

definition part_sums :: "StructuralVector \<Rightarrow> StructuralVector \<Rightarrow> int \<times> int \<times> string \<times> string
    \<Rightarrow> flt \<times> flt \<times> flt" where
  "part_sums v1 v2 part = (case part of (start, stop, _) \<Rightarrow>
     foldl (cosine_step v1 v2) (FFin 0, FFin 0, FFin 0) [start..stop])"

text \<open>The drift of a partition that is in range.\<close>

definition part_drift :: "StructuralVector \<Rightarrow> StructuralVector \<Rightarrow> int \<times> int \<times> string \<times> string \<Rightarrow> flt" where
  "part_drift v1 v2 part =
     (case part_sums v1 v2 part of (dotProduct, normV1, normV2) \<Rightarrow>
        flt_sub round64 (FFin 1)
          (if flt_eq normV1 (FFin 0) \<or> flt_eq normV2 (FFin 0) then FFin 0
           else flt_div round64 dotProduct
                  (flt_mul round64 (flt_sqrt normV1) (flt_sqrt normV2))))"

definition part_fails :: "StructuralVector \<Rightarrow> StructuralVector \<Rightarrow> flt \<Rightarrow> int \<times> int \<times> string \<times> string \<Rightarrow> bool" where
  "part_fails v1 v2 threshold part \<longleftrightarrow> flt_gt (part_drift v1 v2 part) threshold"

lemma drift_check_in_range:
  assumes "length v1 = 128" and "length v2 = 128" and "in_range part"
  shows "drift_check v1 v2 threshold part res =
    (if part_fails v1 v2 threshold part
     then let res' = res\<lparr>ax_AxisPreserved := False,
            ax_ReasonCodes := ax_ReasonCodes res @ [snd (snd (snd part))]\<rparr> in
          if flt_gt (part_drift v1 v2 part) (ax_DriftScore res)
          then res'\<lparr>ax_DriftScore := part_drift v1 v2 part, ax_DriftType := fst (snd (snd part))\<rparr>
          else res'
     else res)"
  using assms
  by (cases part)
    (simp add: drift_check_def CosineSimilarity_def in_range_def part_fails_def part_drift_def
      part_sums_def Let_def case_prod_beta)

text \<open>What the result says after the checks of some partitions.\<close>

definition reports ::
  "StructuralVector \<Rightarrow> StructuralVector \<Rightarrow> flt \<Rightarrow> (int \<times> int \<times> string \<times> string) list \<Rightarrow> AxisCheckResult \<Rightarrow> bool"
where
  "reports v1 v2 threshold parts res \<longleftrightarrow>
     (let failed = filter (part_fails v1 v2 threshold) parts in
        ax_AxisPreserved res = (failed = [])
      \<and> ax_ReasonCodes res = map (\<lambda>p. snd (snd (snd p))) failed
      \<and> (\<forall>p\<in>set failed. \<not> flt_gt (part_drift v1 v2 p) (ax_DriftScore res))
      \<and> ((\<forall>p\<in>set failed. \<not> flt_gt (part_drift v1 v2 p) (FFin 0))
           \<and> ax_DriftScore res = FFin 0 \<and> ax_DriftType res = []
         \<or> (\<exists>p\<in>set failed. part_drift v1 v2 p = ax_DriftScore res
              \<and> fst (snd (snd p)) = ax_DriftType res \<and> flt_gt (ax_DriftScore res) (FFin 0))))"

lemma flt_gt_not_trans: "flt_gt a b \<Longrightarrow> \<not> flt_gt c b \<Longrightarrow> \<not> flt_gt c a"
  using flt_gt_trans by blast

lemma reports_check:
  assumes "reports v1 v2 threshold parts res" and "length v1 = 128" and "length v2 = 128"
    and "in_range part"
  shows "reports v1 v2 threshold (parts @ [part]) (drift_check v1 v2 threshold part res)"
proof (cases "part_fails v1 v2 threshold part")
  case False
  with assms show ?thesis by (simp add: drift_check_in_range reports_def Let_def)
next
  case True
  show ?thesis
  proof (cases "flt_gt (part_drift v1 v2 part) (ax_DriftScore res)")
    case False
    with True assms show ?thesis
      unfolding drift_check_in_range [OF assms(2-4)] reports_def Let_def by auto
  next
    case big: True
    have "flt_gt (part_drift v1 v2 part) (FFin 0)"
      using assms(1) big flt_gt_trans unfolding reports_def Let_def by metis
    with True big assms(1) flt_gt_not_trans [OF big] show ?thesis
      unfolding drift_check_in_range [OF assms(2-4)] reports_def Let_def by auto
  qed
qed

lemma reports_fold:
  assumes "length v1 = 128" and "length v2 = 128"
  shows "\<forall>p\<in>set parts'. in_range p \<Longrightarrow> reports v1 v2 threshold parts res \<Longrightarrow>
    reports v1 v2 threshold (parts @ parts') (fold (drift_check v1 v2 threshold) parts' res)"
proof (induction parts' arbitrary: parts res)
  case Nil
  then show ?case by simp
next
  case (Cons p ps)
  then have "reports v1 v2 threshold (parts @ [p]) (drift_check v1 v2 threshold p res)"
    using reports_check assms by simp
  with Cons show ?case by fastforce
qed

lemma EvaluateDrift_preserved:
  assumes "length anchor = 128" and "length mutated = 128" and "\<forall>p\<in>set (partitions dims). in_range p"
  shows "ax_AxisPreserved (EvaluateDrift anchor mutated dims threshold) \<longleftrightarrow>
    (\<forall>p\<in>set (partitions dims). \<not> part_fails anchor mutated threshold p)"
  using reports_fold [OF assms, of threshold "[]"
      "\<lparr>ax_AxisPreserved = True, ax_DriftScore = FFin 0, ax_DriftType = [], ax_ReasonCodes = []\<rparr>"]
  by (auto simp: EvaluateDrift_def reports_def Let_def filter_empty_conv)

lemma EvaluateDrift_reasons:
  assumes "length anchor = 128" and "length mutated = 128" and "\<forall>p\<in>set (partitions dims). in_range p"
    and "p \<in> set (partitions dims)" and "part_fails anchor mutated threshold p"
  shows "snd (snd (snd p)) \<in> set (ax_ReasonCodes (EvaluateDrift anchor mutated dims threshold))"
  using reports_fold [OF assms(1-3), of threshold "[]"
      "\<lparr>ax_AxisPreserved = True, ax_DriftScore = FFin 0, ax_DriftType = [], ax_ReasonCodes = []\<rparr>"]
    assms(4,5)
  by (auto simp: EvaluateDrift_def reports_def Let_def)

section \<open>Properties\<close>

text \<open>
  C25: the drift report is exact. On two vectors of 128 dimensions and partitions in range, the axis is
  reported as preserved if and only if no partition drifts beyond the threshold; the reason codes are
  those of the failing partitions in order; the score is the largest drift among them (and zero when
  none is positive) and the drift type is that of a partition with this score.
\<close>

theorem EvaluateDrift_reports_exactly:
  assumes "length anchor = 128" and "length mutated = 128"
    and "\<forall>p\<in>set (partitions dims). in_range p"
  shows "reports anchor mutated threshold (partitions dims) (EvaluateDrift anchor mutated dims threshold)"
  using reports_fold [OF assms(1,2,3), of threshold "[]"
      "\<lparr>ax_AxisPreserved = True, ax_DriftScore = FFin 0, ax_DriftType = [], ax_ReasonCodes = []\<rparr>"]
  by (simp add: EvaluateDrift_def reports_def)

lemma drift_check_unpreserved:
  "\<not> ax_AxisPreserved res \<Longrightarrow> \<not> ax_AxisPreserved (drift_check v1 v2 threshold part res)"
  by (simp add: drift_check_def Let_def split: prod.split sum.split)

lemma fold_unpreserved:
  "\<not> ax_AxisPreserved res \<Longrightarrow> \<not> ax_AxisPreserved (fold (drift_check v1 v2 threshold) parts res)"
  by (induction parts arbitrary: res) (simp_all add: drift_check_unpreserved)

lemma fold_malformed:
  "length v1 \<noteq> 128 \<or> length v2 \<noteq> 128 \<or> (\<exists>p\<in>set parts. \<not> in_range p) \<Longrightarrow> parts \<noteq> [] \<Longrightarrow>
     \<not> ax_AxisPreserved (fold (drift_check v1 v2 threshold) parts res)"
proof (induction parts arbitrary: res)
  case Nil
  then show ?case by simp
next
  case (Cons p ps)
  show ?case
  proof (cases "length v1 \<noteq> 128 \<or> length v2 \<noteq> 128 \<or> \<not> in_range p")
    case True
    then have "\<not> ax_AxisPreserved (drift_check v1 v2 threshold p res)"
      by (cases p) (auto simp: drift_check_def CosineSimilarity_def in_range_def)
    then show ?thesis using fold_unpreserved by simp
  next
    case False
    with Cons.prems have "\<exists>p\<in>set ps. \<not> in_range p" by auto
    with Cons.IH show ?thesis by (cases ps) auto
  qed
qed

text \<open>
  A malformed input never passes. If one of the vectors does not have 128 dimensions, or one of the
  partitions is out of range, the axis is reported as not preserved.
\<close>

theorem malformed_input_is_not_preserved:
  assumes "\<not> (length anchor = 128 \<and> length mutated = 128 \<and> (\<forall>p\<in>set (partitions dims). in_range p))"
  shows "\<not> ax_AxisPreserved (EvaluateDrift anchor mutated dims threshold)"
  unfolding EvaluateDrift_def using assms
  by (intro fold_malformed) (auto simp: partitions_def)

lemma foldl_cosine_NaN:
  "fst (snd s) = n1 \<Longrightarrow> snd (snd s) = FNaN \<or> (\<exists>i\<in>set is. v2 ! nat i = FNaN) \<Longrightarrow>
     snd (snd (foldl (cosine_step v1 v2) s is)) = FNaN"
proof (induction "is" arbitrary: s n1)
  case Nil
  then show ?case by simp
next
  case (Cons i "is")
  have "snd (snd (cosine_step v1 v2 s i)) = FNaN \<or> (\<exists>i\<in>set is. v2 ! nat i = FNaN)"
    using Cons.prems by (cases s) (auto simp: cosine_step_def Let_def)
  with Cons.IH [OF refl this] show ?case by simp
qed

lemma part_drift_NaN:
  assumes "snd (snd (part_sums v1 v2 p)) = FNaN" and "\<not> flt_eq (fst (snd (part_sums v1 v2 p))) (FFin 0)"
  shows "part_drift v1 v2 p = FNaN"
  using assms by (cases "part_sums v1 v2 p") (simp add: part_drift_def)

text \<open>
  A NaN passes. A comparison with NaN is false, so a partition with a NaN component in the mutated
  vector does not fail any threshold, whatever the anchor (with a nonzero norm) says. A vector with one
  NaN in every partition is reported as preserved, with drift score zero and no reason.
\<close>

theorem NaN_vector_is_preserved:
  assumes "length anchor = 128" and "length mutated = 128"
    and "\<forall>p\<in>set (partitions dims). in_range p
      \<and> \<not> flt_eq (fst (snd (part_sums anchor mutated p))) (FFin 0)
      \<and> (\<exists>i. fst p \<le> i \<and> i \<le> fst (snd p) \<and> mutated ! nat i = FNaN)"
  shows "EvaluateDrift anchor mutated dims threshold
    = \<lparr>ax_AxisPreserved = True, ax_DriftScore = FFin 0, ax_DriftType = [], ax_ReasonCodes = []\<rparr>"
proof -
  have "drift_check anchor mutated threshold p res = res" if p: "p \<in> set (partitions dims)" for p res
  proof -
    obtain i where "fst p \<le> i" "i \<le> fst (snd p)" "mutated ! nat i = FNaN"
      using assms(3) p by blast
    then have "\<exists>i\<in>set [fst p..fst (snd p)]. mutated ! nat i = FNaN" by auto
    then have "snd (snd (part_sums anchor mutated p)) = FNaN"
      using foldl_cosine_NaN [OF refl, of "(FFin 0, FFin 0, FFin 0)" "[fst p..fst (snd p)]" mutated anchor]
      by (simp add: part_sums_def case_prod_beta)
    then have "part_drift anchor mutated p = FNaN"
      using part_drift_NaN assms(3) p by blast
    then show ?thesis
      using assms p by (simp add: drift_check_in_range part_fails_def)
  qed
  then have "fold (drift_check anchor mutated threshold) ps res = res" if "set ps \<subseteq> set (partitions dims)" for ps res
    using that by (induction ps arbitrary: res) auto
  then show ?thesis by (simp add: EvaluateDrift_def)
qed

lemma foldl_cosine_zero:
  "\<forall>i\<in>set is. v1 ! nat i = FFin 0 \<Longrightarrow> fst (snd s) = FFin 0 \<Longrightarrow>
     fst (snd (foldl (cosine_step v1 v2) s is)) = FFin 0"
proof (induction "is" arbitrary: s)
  case Nil
  then show ?case by simp
next
  case (Cons i "is")
  have "fst (snd (cosine_step v1 v2 s i)) = FFin 0"
    using Cons.prems by (cases s) (simp add: cosine_step_def Let_def)
  with Cons show ?case by simp
qed

text \<open>
  An unused partition counts as full drift. When the anchor is zero throughout a partition, the
  partition has drift one even if the mutated vector is the same vector; with a threshold below one the
  unchanged memory is reported as drifted.
\<close>

theorem zero_partition_is_drift:
  assumes "length anchor = 128" and "\<forall>p\<in>set (partitions dims). in_range p"
    and "p \<in> set (partitions dims)"
    and "\<forall>i. fst p \<le> i \<and> i \<le> fst (snd p) \<longrightarrow> anchor ! nat i = FFin 0"
    and "flt_gt (FFin 1) threshold"
  shows "part_drift anchor anchor p = FFin 1
    \<and> \<not> ax_AxisPreserved (EvaluateDrift anchor anchor dims threshold)"
proof -
  have "fst (snd (part_sums anchor anchor p)) = FFin 0"
    using assms(4) foldl_cosine_zero [of "[fst p..fst (snd p)]" anchor "(FFin 0, FFin 0, FFin 0)" anchor]
    by (simp add: part_sums_def case_prod_beta)
  then have drift: "part_drift anchor anchor p = FFin 1"
    by (cases "part_sums anchor anchor p") (simp add: part_drift_def flt_sub_def)
  with assms(3,5) have "filter (part_fails anchor anchor threshold) (partitions dims) \<noteq> []"
    by (auto simp: part_fails_def filter_empty_conv intro!: bexI [of _ p])
  then have "\<not> ax_AxisPreserved (EvaluateDrift anchor anchor dims threshold)"
    using reports_fold [OF assms(1,1,2), of threshold "[]"
      "\<lparr>ax_AxisPreserved = True, ax_DriftScore = FFin 0, ax_DriftType = [], ax_ReasonCodes = []\<rparr>"]
    by (simp add: EvaluateDrift_def reports_def)
  with drift show ?thesis by simp
qed

section \<open>Concrete instances\<close>

lemma default_in_range: "\<forall>p\<in>set (partitions DefaultDimensions). in_range p"
  by (simp add: partitions_def DefaultDimensions_def in_range_def)

lemma nth_replicate_part: "0 \<le> i \<Longrightarrow> i < 128 \<Longrightarrow> replicate 128 x ! nat i = x"
  by simp

theorem EvaluateDrift_reports_exactly_witness:
  "reports (replicate 128 (FFin 1)) (replicate 128 (FFin 0)) (FFin 0) (partitions DefaultDimensions)
     (EvaluateDrift (replicate 128 (FFin 1)) (replicate 128 (FFin 0)) DefaultDimensions (FFin 0))"
  by (rule EvaluateDrift_reports_exactly [OF _ _ default_in_range]) simp_all

theorem malformed_input_is_not_preserved_witness:
  "\<not> ax_AxisPreserved (EvaluateDrift (replicate 127 (FFin 1)) (replicate 127 (FFin 1)) DefaultDimensions (FFin 2))"
  by (rule malformed_input_is_not_preserved) simp

lemma foldl_cosine_ones:
  "(\<And>i. i \<in> set is \<Longrightarrow> v1 ! nat i = FFin 1) \<Longrightarrow> fst (snd s) = FFin (of_nat n) \<Longrightarrow> n + length is < 1000 \<Longrightarrow>
     fst (snd (foldl (cosine_step v1 v2) s is)) = FFin (of_nat (n + length is))"
proof (induction "is" arbitrary: s n)
  case Nil
  then show ?case by simp
next
  case (Cons i "is")
  have "round64 (real n + 1) = FFin (real n + 1)"
    using round64_int [of "int n + 1"] Cons.prems(3) by simp
  then have "fst (snd (cosine_step v1 v2 s i)) = FFin (of_nat (Suc n))"
    using Cons.prems by (cases s) (simp add: cosine_step_def Let_def add.commute)
  with Cons.IH [of "cosine_step v1 v2 s i" "Suc n"] Cons.prems show ?case by simp
qed

theorem NaN_vector_is_preserved_witness:
  "EvaluateDrift (replicate 128 (FFin 1)) (replicate 128 FNaN) DefaultDimensions (FFin 0)
     = \<lparr>ax_AxisPreserved = True, ax_DriftScore = FFin 0, ax_DriftType = [], ax_ReasonCodes = []\<rparr>"
proof (rule NaN_vector_is_preserved)
  have "fst (snd (part_sums (replicate 128 (FFin 1)) (replicate 128 FNaN) p))
      = FFin (of_nat (length [fst p..fst (snd p)]))"
    if "0 \<le> fst p" "fst (snd p) < 128" for p
  proof -
    have "replicate 128 (FFin 1) ! nat i = FFin 1" if "i \<in> set [fst p..fst (snd p)]" for i
      using that \<open>0 \<le> fst p\<close> \<open>fst (snd p) < 128\<close> by (intro nth_replicate_part) auto
    then show ?thesis
      using that foldl_cosine_ones [of "[fst p..fst (snd p)]" "replicate 128 (FFin 1)"
        "(FFin 0, FFin 0, FFin 0)" 0 "replicate 128 FNaN"]
      unfolding part_sums_def case_prod_beta by fastforce
  qed
  then show "\<forall>p\<in>set (partitions DefaultDimensions). in_range p
      \<and> \<not> flt_eq (fst (snd (part_sums (replicate 128 (FFin 1)) (replicate 128 FNaN) p))) (FFin 0)
      \<and> (\<exists>i. fst p \<le> i \<and> i \<le> fst (snd p) \<and> replicate 128 FNaN ! nat i = FNaN)"
    by (auto simp: partitions_def DefaultDimensions_def in_range_def)
qed simp_all

theorem zero_partition_is_drift_witness:
  "\<not> ax_AxisPreserved (EvaluateDrift (replicate 128 (FFin 0)) (replicate 128 (FFin 0)) DefaultDimensions
     (FFin (1 / 10)))"
proof -
  have "\<forall>i. 0 \<le> i \<and> i \<le> 23 \<longrightarrow> replicate 128 (FFin 0) ! nat i = FFin 0"
    by (auto intro: nth_replicate_part)
  then show ?thesis
    using zero_partition_is_drift [OF _ default_in_range, of "replicate 128 (FFin 0)"
      "(0, 23, DriftTypeTemporality, ReasonTemporality)" "FFin (1 / 10)"]
    by (simp add: partitions_def DefaultDimensions_def)
qed

end
