(* ===== verification/Ledger_File.thy ===== *)
theory Ledger_File
  imports Quarantine
begin

text \<open>
  \<^verbatim>\<open>pkg/quarantine/persistence.go\<close>: the write-ahead ledger file. A record is its
  length, a magic number, the JSON payload and a SHA-256 checksum over the three. The JSON codec
  (\<^verbatim>\<open>encoding/json\<close>) is a parameter of the operations; \<open>json_roundtrip\<close> states of an
  event what the codec documents. A file is its contents and the outcomes of the coming writes, so
  that a write may stop half way. The framing laws are the locale \<open>record_framing\<close>, interpreted on
  the record format of the source.
\<close>

section \<open>Files\<close>

text \<open>
  The outcome of one \<^verbatim>\<open>Write\<close> or \<^verbatim>\<open>Sync\<close>: success, or an error after the
  first \<open>n\<close> bytes. An exhausted plan means success.
\<close>

datatype io_outcome = IOOk | IOFail nat go_error

record os_file =
  file_contents :: "byte list"
  file_plan :: "io_outcome list"

text \<open>The file is opened with \<^verbatim>\<open>O_APPEND\<close>: every write goes to the end.\<close>

definition file_Write :: "os_file \<Rightarrow> byte list \<Rightarrow> os_file \<times> go_error option" where
  "file_Write f bs =
     (case file_plan f of
        [] \<Rightarrow> (f\<lparr>file_contents := file_contents f @ bs\<rparr>, None)
      | IOOk # plan \<Rightarrow>
          (f\<lparr>file_contents := file_contents f @ bs, file_plan := plan\<rparr>, None)
      | IOFail n err # plan \<Rightarrow>
          (f\<lparr>file_contents := file_contents f @ take n bs, file_plan := plan\<rparr>, Some err))"

definition file_Sync :: "os_file \<Rightarrow> os_file \<times> go_error option" where
  "file_Sync f = file_Write f []"

text \<open>
  \<^verbatim>\<open>io.ReadFull\<close>, and \<^verbatim>\<open>binary.Read\<close> of a fixed-size value: all the bytes, or
  \<^verbatim>\<open>io.EOF\<close> when nothing is left, or \<^verbatim>\<open>io.ErrUnexpectedEOF\<close>.
\<close>

datatype read_result = ReadOk "byte list" "byte list" | ReadEOF | ReadUnexpectedEOF

definition ReadFull :: "nat \<Rightarrow> byte list \<Rightarrow> read_result" where
  "ReadFull n bs =
     (if n \<le> length bs then ReadOk (take n bs) (drop n bs)
      else if bs = [] then ReadEOF else ReadUnexpectedEOF)"

section \<open>The ledger\<close>

definition LogMagicNumber :: u16 where "LogMagicNumber = 0x564D"

abbreviation ErrPersistenceCorruptionPrefix :: string where
  "ErrPersistenceCorruptionPrefix \<equiv> ''PERSISTENCE_CORRUPTION''"
abbreviation ErrSecurityAlertPrefix :: string where
  "ErrSecurityAlertPrefix \<equiv> ''SECURITY_ALERT''"

record json_codec =
  json_Marshal :: "RevocationEvent \<Rightarrow> go_error + byte list"
  json_Unmarshal :: "byte list \<Rightarrow> go_error + RevocationEvent"

record FileLedger =
  fl_file :: "os_file option"
  fl_path :: string

text \<open>\<open>opened\<close> is the result of \<^verbatim>\<open>os.OpenFile\<close>.\<close>

definition NewFileLedger :: "string \<Rightarrow> go_error + os_file \<Rightarrow> go_error + FileLedger" where
  "NewFileLedger path opened =
     (case opened of Inl err \<Rightarrow> Inl err | Inr f \<Rightarrow> Inr \<lparr>fl_file = Some f, fl_path = path\<rparr>)"

definition Close :: "FileLedger \<Rightarrow> go_error option \<Rightarrow> FileLedger \<times> go_error option" where
  "Close l closeErr =
     (case fl_file l of None \<Rightarrow> (l, None) | Some f \<Rightarrow> (l\<lparr>fl_file := None\<rparr>, closeErr))"

definition recordChecksum :: "u32 \<Rightarrow> u16 \<Rightarrow> byte list \<Rightarrow> hash32" where
  "recordChecksum len magic payload =
     sha256_Sum256 (PutUint32 len @ PutUint16 magic @ payload)"

text \<open>
  The four writes and the sync of \<^verbatim>\<open>AppendEvent\<close>: each error returns at once and
  leaves in the file what was written before.
\<close>

fun write_all :: "os_file \<Rightarrow> byte list list \<Rightarrow> os_file \<times> go_error option" where
  "write_all f [] = file_Sync f"
| "write_all f (bs # rest) =
     (case file_Write f bs of
        (f', Some err) \<Rightarrow> (f', Some err)
      | (f', None) \<Rightarrow> write_all f' rest)"

definition ledger_AppendEvent ::
  "json_codec \<Rightarrow> FileLedger \<Rightarrow> RevocationEvent \<Rightarrow> FileLedger \<times> go_error option" where
  "ledger_AppendEvent js l event =
     (case fl_file l of
        None \<Rightarrow> (l, Some (ErrorString ''PERSISTENCE_CLOSED: file ledger is closed''))
      | Some f \<Rightarrow>
          (case json_Marshal js event of
             Inl err \<Rightarrow> (l, Some err)
           | Inr payload \<Rightarrow>
               if length payload = 0 then
                 (l, Some (ErrorString ''INVALID_LEDGER_EVENT: empty payload''))
               else if length payload > 2 ^ 32 - 1 then
                 (l, Some (ErrorString ''INVALID_LEDGER_EVENT: payload exceeds uint32 length''))
               else
                 let len = of_nat (length payload) :: u32;
                     checksum = recordChecksum len LogMagicNumber payload
                 in (case write_all f [PutUint32 len, PutUint16 LogMagicNumber, payload,
                                       list_of_bytes checksum] of
                       (f', err) \<Rightarrow> (l\<lparr>fl_file := Some f'\<rparr>, err))))"

section \<open>Replay\<close>

datatype 'p parsed = PEnd | PErr go_error | PRecord 'p "byte list"

definition corruption :: "string \<Rightarrow> go_error" where
  "corruption msg = ErrorString (ErrPersistenceCorruptionPrefix @ '': '' @ msg)"

definition tampering :: go_error where
  "tampering = ErrorString
     (ErrSecurityAlertPrefix @ '': cryptographic record tampering detected during log parsing'')"

text \<open>The loop body of \<^verbatim>\<open>replayFrom\<close> up to the decoding of the payload.\<close>

definition parse_record :: "byte list \<Rightarrow> byte list parsed" where
  "parse_record bs =
     (case ReadFull 4 bs of
        ReadEOF \<Rightarrow> PEnd
      | ReadUnexpectedEOF \<Rightarrow> PErr (corruption ''failed reading record length: unexpected EOF'')
      | ReadOk lenBytes bs1 \<Rightarrow>
          let len = get_be lenBytes :: u32 in
          if len = 0 then PErr (corruption ''zero-length log packet'')
          else
            (case ReadFull 2 bs1 of
               ReadOk magicBytes bs2 \<Rightarrow>
                 if (get_be magicBytes :: u16) \<noteq> LogMagicNumber
                 then PErr (corruption ''invalid log packet initialization signature'')
                 else
                   (case ReadFull (unat len) bs2 of
                      ReadOk payload bs3 \<Rightarrow>
                        (case ReadFull 32 bs3 of
                           ReadOk checksum bs4 \<Rightarrow>
                             if recordChecksum len LogMagicNumber payload \<noteq> copy_bytes checksum
                             then PErr tampering
                             else PRecord payload bs4
                         | _ \<Rightarrow> PErr (corruption ''truncated validation signature segment''))
                    | _ \<Rightarrow> PErr (corruption ''truncated or partial write encountered mid-stream''))
             | _ \<Rightarrow> PErr (corruption ''missing log packet boundary magic'')))"

lemma parse_record_shorter: "parse_record bs = PRecord p rest \<Longrightarrow> length rest < length bs"
  by (auto simp: parse_record_def ReadFull_def Let_def split: if_splits)

function replay_loop ::
  "json_codec \<Rightarrow> byte list \<Rightarrow> RevocationEvent list \<Rightarrow> go_error + RevocationEvent list" where
  "replay_loop js bs events =
     (case parse_record bs of
        PEnd \<Rightarrow> Inr events
      | PErr err \<Rightarrow> Inl err
      | PRecord payload rest \<Rightarrow>
          (case json_Unmarshal js payload of
             Inl err \<Rightarrow> Inl err
           | Inr event \<Rightarrow> replay_loop js rest (events @ [event])))"
  by pat_completeness auto
termination
  by (relation "measure (\<lambda>(js, bs, events). length bs)") (auto dest: parse_record_shorter)

declare replay_loop.simps [simp del]

definition replayFrom :: "json_codec \<Rightarrow> os_file \<Rightarrow> go_error + RevocationEvent list" where
  "replayFrom js f = replay_loop js (file_contents f) []"

definition ReplayGenesis :: "json_codec \<Rightarrow> FileLedger \<Rightarrow> go_error + RevocationEvent list" where
  "ReplayGenesis js l =
     (case fl_file l of
        None \<Rightarrow> Inl (ErrorString ''PERSISTENCE_CLOSED: file ledger is closed'')
      | Some f \<Rightarrow> replayFrom js f)"

definition ReplayFile :: "json_codec \<Rightarrow> go_error + os_file \<Rightarrow> go_error + RevocationEvent list" where
  "ReplayFile js opened = (case opened of Inl err \<Rightarrow> Inl err | Inr f \<Rightarrow> replayFrom js f)"

text \<open>\<open>now0\<close> and \<open>now1\<close> are the two readings of the clock.\<close>

definition RecoverMonitorFromFile ::
  "json_codec \<Rightarrow> go_error + os_file \<Rightarrow> u64 \<Rightarrow> go_time \<Rightarrow> go_time
     \<Rightarrow> go_error + RuntimeMonitor \<times> RuntimeSnapshot" where
  "RecoverMonitorFromFile js opened version now0 now1 =
     (case ReplayFile js opened of
        Inl err \<Rightarrow> Inl err
      | Inr events \<Rightarrow>
          let monitor = foldl AppendEvent (NewRuntimeMonitor now0) events;
              snap = CompileSnapshot events version now1
          in Inr (SwapActiveSnapshot monitor (Some snap), snap))"

section \<open>Framing\<close>

definition record_bytes :: "byte list \<Rightarrow> byte list" where
  "record_bytes payload =
     (let len = of_nat (length payload) :: u32
      in PutUint32 len @ PutUint16 LogMagicNumber @ payload
         @ list_of_bytes (recordChecksum len LogMagicNumber payload))"

definition payload_ok :: "byte list \<Rightarrow> bool" where
  "payload_ok p \<longleftrightarrow> p \<noteq> [] \<and> length p < 2 ^ 32"

lemma payload_len_word:
  "payload_ok p \<Longrightarrow> unat (of_nat (length p) :: u32) = length p"
  "payload_ok p \<Longrightarrow> (of_nat (length p) :: u32) \<noteq> 0"
proof -
  assume ok: "payload_ok p"
  then show u: "unat (of_nat (length p) :: u32) = length p"
    by (simp add: payload_ok_def unat_of_nat)
  show "(of_nat (length p) :: u32) \<noteq> 0"
  proof
    assume "(of_nat (length p) :: u32) = 0"
    with u have "length p = 0" by simp
    with ok show False by (simp add: payload_ok_def)
  qed
qed

lemma length_record_bytes [layout_simps]: "length (record_bytes p) = 38 + length p"
  by (simp add: record_bytes_def Let_def)

lemma ReadFull_append [simp]: "length a = n \<Longrightarrow> ReadFull n (a @ b) = ReadOk a b"
  by (simp add: ReadFull_def)

lemma parse_record_frame:
  assumes "payload_ok p"
  shows "parse_record (record_bytes p @ rest) = PRecord p rest"
  using payload_len_word [OF assms]
  by (simp add: parse_record_def record_bytes_def Let_def)

lemma parse_record_end: "parse_record bs = PEnd \<longleftrightarrow> bs = []"
  by (auto simp: parse_record_def ReadFull_def Let_def)

lemma ReadFull_OkD: "ReadFull n bs = ReadOk a b \<Longrightarrow> length a = n \<and> bs = a @ b"
  by (auto simp: ReadFull_def split: if_splits)

lemma parse_record_sound:
  assumes "parse_record bs = PRecord p rest"
  shows "payload_ok p \<and> bs = record_bytes p @ rest"
proof -
  from assms obtain lb bs1 mb bs2 bs3 cb where
    r: "ReadFull 4 bs = ReadOk lb bs1" "(get_be lb :: u32) \<noteq> 0" "ReadFull 2 bs1 = ReadOk mb bs2"
      "get_be mb = LogMagicNumber" "ReadFull (unat (get_be lb :: u32)) bs2 = ReadOk p bs3"
      "ReadFull 32 bs3 = ReadOk cb rest"
      "recordChecksum (get_be lb) LogMagicNumber p = copy_bytes cb"
    by (auto simp: parse_record_def Let_def split: read_result.splits if_splits)
  note len = r(1,3,5,6) [THEN ReadFull_OkD]
  have p: "length p = unat (get_be lb :: u32)" using len by simp
  then have "payload_ok p"
    using r(2) unsigned_less [of "get_be lb :: u32", where ?'a = nat] by (auto simp: payload_ok_def unat_eq_0)
  moreover have "PutUint32 (of_nat (length p)) = lb" "PutUint16 LogMagicNumber = mb"
    using len p PutUint_get r(4) by (auto simp flip: r(4))
  moreover have "list_of_bytes (recordChecksum (of_nat (length p)) LogMagicNumber p) = cb"
    using len p r(7) by (simp add: list_of_bytes_copy_exact)
  ultimately show ?thesis
    using len by (simp add: record_bytes_def Let_def)
qed

text \<open>
  The contract of a self-delimiting record format. A log is the concatenation of its records; the
  laws give that the log determines its records, and that a log cut inside a record is noticed.
\<close>

locale record_framing =
  fixes frame :: "'p \<Rightarrow> byte list" and parse :: "byte list \<Rightarrow> 'p parsed" and ok :: "'p \<Rightarrow> bool"
  assumes parse_end: "parse bs = PEnd \<longleftrightarrow> bs = []"
    and parse_frame: "ok p \<Longrightarrow> parse (frame p @ rest) = PRecord p rest"
    and parse_sound: "parse bs = PRecord p rest \<Longrightarrow> ok p \<and> bs = frame p @ rest"
begin

lemma frame_nonempty: "ok p \<Longrightarrow> frame p \<noteq> []"
  using parse_frame [of p "[]"] parse_end [of "frame p"] by auto

lemma cut_frame:
  assumes "ok p" and "0 < n" and "n < length (frame p)"
  shows "\<exists>err. parse (take n (frame p)) = PErr err"
proof (cases "parse (take n (frame p))")
  case PEnd
  with assms show ?thesis by (simp add: parse_end)
next
  case (PRecord q rest)
  from parse_sound [OF this] have "ok q" and cut: "take n (frame p) = frame q @ rest" by auto
  from cut have "frame p = frame q @ rest @ drop n (frame p)"
    by (metis append.assoc append_take_drop_id)
  then have "parse (frame p) = PRecord q (rest @ drop n (frame p))"
    using parse_frame [OF \<open>ok q\<close>] by metis
  then show ?thesis
    using parse_frame [OF assms(1), of "[]"] assms(3) by simp
qed auto

lemma frames_inject:
  assumes "list_all ok ps" and "list_all ok qs"
    and "concat (map frame ps) = concat (map frame qs)"
  shows "ps = qs"
  using assms
proof (induction ps arbitrary: qs)
  case Nil
  then show ?case using frame_nonempty by (cases qs) auto
next
  case (Cons p ps)
  then obtain q qs' where qs: "qs = q # qs'"
    using frame_nonempty by (cases qs) auto
  have "parse (concat (map frame (p # ps))) = PRecord p (concat (map frame ps))"
    and "parse (concat (map frame qs)) = PRecord q (concat (map frame qs'))"
    using Cons.prems(1,2) qs by (simp_all add: parse_frame)
  then have "p = q \<and> concat (map frame ps) = concat (map frame qs')"
    using Cons.prems(3) by simp
  with Cons qs show ?case by auto
qed

end

interpretation wal: record_framing record_bytes parse_record payload_ok
  by unfold_locales (auto simp: parse_record_end parse_record_frame dest: parse_record_sound)

section \<open>Logs of events\<close>

text \<open>What is relied on of \<^verbatim>\<open>encoding/json\<close> for an event: encoding succeeds, the text has a
  record's size, and decoding gives the event back.\<close>

definition json_roundtrip :: "json_codec \<Rightarrow> RevocationEvent \<Rightarrow> bool" where
  "json_roundtrip js e \<longleftrightarrow>
     (case json_Marshal js e of
        Inl _ \<Rightarrow> False
      | Inr p \<Rightarrow> payload_ok p \<and> json_Unmarshal js p = Inr e)"

definition event_record :: "json_codec \<Rightarrow> RevocationEvent \<Rightarrow> byte list" where
  "event_record js e = (case json_Marshal js e of Inl _ \<Rightarrow> [] | Inr p \<Rightarrow> record_bytes p)"

definition log_bytes :: "json_codec \<Rightarrow> RevocationEvent list \<Rightarrow> byte list" where
  "log_bytes js es = concat (map (event_record js) es)"

lemma log_bytes_simps [simp]:
  "log_bytes js [] = []" "log_bytes js (e # es) = event_record js e @ log_bytes js es"
  "log_bytes js (es @ fs) = log_bytes js es @ log_bytes js fs"
  by (simp_all add: log_bytes_def)

lemma json_roundtripE:
  assumes "json_roundtrip js e"
  obtains p where "json_Marshal js e = Inr p" and "payload_ok p" and "json_Unmarshal js p = Inr e"
    and "event_record js e = record_bytes p"
  using assms by (auto simp: json_roundtrip_def event_record_def split: sum.splits)

lemma event_record_nonempty: "json_roundtrip js e \<Longrightarrow> event_record js e \<noteq> []"
  by (metis json_roundtripE wal.frame_nonempty)

lemma replay_event:
  assumes "json_roundtrip js e"
  shows "replay_loop js (event_record js e @ rest) acc = replay_loop js rest (acc @ [e])"
  using assms
  by (elim json_roundtripE) (simp add: replay_loop.simps [of js "_ @ _"] wal.parse_frame)

lemma replay_log:
  "\<forall>e\<in>set es. json_roundtrip js e \<Longrightarrow>
     replay_loop js (log_bytes js es @ rest) acc = replay_loop js rest (acc @ es)"
  by (induction es arbitrary: acc) (simp_all add: replay_event)

lemma replay_Nil [simp]: "replay_loop js [] acc = Inr acc"
  by (simp add: replay_loop.simps wal.parse_end [THEN iffD2])

lemma replay_error: "parse_record bs = PErr err \<Longrightarrow> replay_loop js bs acc = Inl err"
  by (simp add: replay_loop.simps)

lemma replay_cut_event:
  assumes "json_roundtrip js e" and "0 < n" and "n < length (event_record js e)"
  shows "\<exists>err. replay_loop js (take n (event_record js e)) acc = Inl err"
proof -
  from assms(1) obtain p where "payload_ok p" "event_record js e = record_bytes p"
    by (rule json_roundtripE)
  with assms(2,3) wal.cut_frame [of p n] show ?thesis by (auto dest: replay_error)
qed

lemma replay_cut:
  assumes "\<forall>e\<in>set es. json_roundtrip js e" and "n \<le> length (log_bytes js es)"
  shows "replay_loop js (take n (log_bytes js es)) acc = Inr fs \<longleftrightarrow>
    (\<exists>k\<le>length es. fs = acc @ take k es \<and> n = length (log_bytes js (take k es)))"
  using assms
proof (induction es arbitrary: n acc)
  case Nil
  then show ?case by auto
next
  case (Cons e es)
  let ?F = "length (event_record js e)"
  have F: "0 < ?F" using Cons.prems(1) by (simp add: event_record_nonempty)
  have split_k: "(\<exists>k\<le>length (e # es). P k) \<longleftrightarrow> P 0 \<or> (\<exists>k\<le>length es. P (Suc k))" for P
    by (auto simp: less_Suc_eq_le [symmetric] Ex_less_Suc2)
  consider "n = 0" | "0 < n" "n < ?F" | "?F \<le> n" by linarith
  then show ?case
  proof cases
    case 1
    with F show ?thesis unfolding split_k by auto
  next
    case 2
    with replay_cut_event [of js e n acc] Cons.prems(1) show ?thesis
      unfolding split_k by auto
  next
    case 3
    then have "replay_loop js (take n (log_bytes js (e # es))) acc
        = replay_loop js (take (n - ?F) (log_bytes js es)) (acc @ [e])"
      using Cons.prems(1) by (simp add: replay_event)
    also have "\<dots> = Inr fs \<longleftrightarrow>
        (\<exists>k\<le>length es. fs = (acc @ [e]) @ take k es \<and> n - ?F = length (log_bytes js (take k es)))"
      using Cons by simp
    finally show ?thesis
      using 3 F unfolding split_k by auto
  qed
qed

section \<open>Appending\<close>

lemma write_all_ok:
  "file_plan f = [] \<Longrightarrow>
     write_all f bss = (f\<lparr>file_contents := file_contents f @ concat bss\<rparr>, None)"
  by (induction bss arbitrary: f) (simp_all add: file_Sync_def file_Write_def)

lemma file_Write_prefix:
  "file_Write f bs = (f', r) \<Longrightarrow>
     \<exists>n. file_contents f' = file_contents f @ take n bs \<and> (r = None \<longrightarrow> take n bs = bs)"
  by (auto simp: file_Write_def split: list.splits io_outcome.splits)
    (metis append_Nil2 take_all_iff order_refl)+

lemma write_all_prefix:
  "write_all f bss = (f', r) \<Longrightarrow>
     \<exists>n. file_contents f' = file_contents f @ take n (concat bss)
       \<and> (r = None \<longrightarrow> take n (concat bss) = concat bss)"
proof (induction bss arbitrary: f)
  case Nil
  then show ?case using file_Write_prefix [of f "[]"] by (auto simp: file_Sync_def)
next
  case (Cons bs bss)
  obtain f1 r1 where w: "file_Write f bs = (f1, r1)" by fastforce
  from file_Write_prefix [OF this] obtain n where
    n: "file_contents f1 = file_contents f @ take n bs" "r1 = None \<longrightarrow> take n bs = bs" by blast
  show ?case
  proof (cases r1)
    case (Some err)
    with w n Cons.prems show ?thesis
      by (intro exI [of _ "min n (length bs)"]) (auto simp: min_def)
  next
    case None
    with w Cons.prems have "write_all f1 bss = (f', r)" by simp
    from Cons.IH [OF this] obtain m where
      "file_contents f' = file_contents f1 @ take m (concat bss)"
      "r = None \<longrightarrow> take m (concat bss) = concat bss" by blast
    with n None show ?thesis
      by (intro exI [of _ "length bs + m"]) simp
  qed
qed

lemma ledger_AppendEvent_writes:
  assumes "json_roundtrip js e" and "fl_file l = Some f" and "json_Marshal js e = Inr p"
  shows "ledger_AppendEvent js l e =
    (case write_all f [PutUint32 (of_nat (length p)), PutUint16 LogMagicNumber, p,
        list_of_bytes (recordChecksum (of_nat (length p)) LogMagicNumber p)] of
       (f', err) \<Rightarrow> (l\<lparr>fl_file := Some f'\<rparr>, err))"
  using assms by (auto simp: ledger_AppendEvent_def json_roundtrip_def payload_ok_def Let_def)

lemma record_pieces:
  "concat [PutUint32 (of_nat (length p)), PutUint16 LogMagicNumber, p,
     list_of_bytes (recordChecksum (of_nat (length p)) LogMagicNumber p)] = record_bytes p"
  by (simp add: record_bytes_def Let_def)

lemma ledger_AppendEvent_ok:
  assumes "json_roundtrip js e" and "fl_file l = Some f" and "file_plan f = []"
  shows "ledger_AppendEvent js l e =
    (l\<lparr>fl_file := Some (f\<lparr>file_contents := file_contents f @ event_record js e\<rparr>)\<rparr>, None)"
proof -
  from assms(1) obtain p where p: "json_Marshal js e = Inr p" "event_record js e = record_bytes p"
    by (rule json_roundtripE)
  show ?thesis
    unfolding ledger_AppendEvent_writes [OF assms(1,2) p(1)] write_all_ok [OF assms(3)] record_pieces p(2)
    by simp
qed

lemma write_all_done:
  "write_all f bss = (f', None) \<Longrightarrow> file_contents f' = file_contents f @ concat bss"
  by (induction bss arbitrary: f)
    (auto simp: file_Sync_def file_Write_def split: list.splits io_outcome.splits prod.splits
      option.splits)

text \<open>An append that reports success has put the whole record at the end of the file.\<close>

lemma ledger_AppendEvent_durable:
  assumes "ledger_AppendEvent js l e = (l', None)"
  shows "\<exists>f f'. fl_file l = Some f \<and> fl_file l' = Some f'
    \<and> file_contents f' = file_contents f @ event_record js e"
proof -
  from assms obtain f p f' where f: "fl_file l = Some f" "json_Marshal js e = Inr p"
      "l' = l\<lparr>fl_file := Some f'\<rparr>"
      "write_all f [PutUint32 (of_nat (length p)), PutUint16 LogMagicNumber, p,
         list_of_bytes (recordChecksum (of_nat (length p)) LogMagicNumber p)] = (f', None)"
    by (auto simp: ledger_AppendEvent_def Let_def split: option.splits sum.splits if_splits prod.splits)
  from write_all_done [OF this(4)] f(1-3) show ?thesis
    unfolding record_pieces by (simp add: event_record_def)
qed

text \<open>A whole sequence of appends that all succeed.\<close>

definition append_events :: "json_codec \<Rightarrow> FileLedger \<Rightarrow> RevocationEvent list \<Rightarrow> FileLedger" where
  "append_events js l es = foldl (\<lambda>l e. fst (ledger_AppendEvent js l e)) l es"

lemma append_events_ok:
  "\<forall>e\<in>set es. json_roundtrip js e \<Longrightarrow> fl_file l = Some f \<Longrightarrow> file_plan f = [] \<Longrightarrow>
     append_events js l es
       = l\<lparr>fl_file := Some (f\<lparr>file_contents := file_contents f @ log_bytes js es\<rparr>)\<rparr>"
proof (induction es arbitrary: l f)
  case Nil
  then show ?case by (simp add: append_events_def)
next
  case (Cons e es)
  then show ?case
    using Cons.IH [of "fst (ledger_AppendEvent js l e)"
        "f\<lparr>file_contents := file_contents f @ event_record js e\<rparr>"]
    by (simp add: append_events_def ledger_AppendEvent_ok)
qed

text \<open>A length below 65536 starts with two zero bytes, which are not the magic number.\<close>

lemma drop_bit_small: "n < 2 ^ m \<Longrightarrow> drop_bit m (of_nat n :: u32) = 0"
proof -
  assume n: "n < 2 ^ m"
  have "unat (drop_bit m (of_nat n :: u32)) = unat (of_nat n :: u32) div 2 ^ m"
    by (simp only: unat_drop_bit_eq drop_bit_eq_div [where 'a = nat])
  also have "\<dots> \<le> n div 2 ^ m"
    by (intro div_le_mono) (simp add: unat_of_nat)
  also have "\<dots> = 0" using n by simp
  finally show ?thesis by (simp add: unat_eq_0)
qed

lemma short_length_is_no_magic:
  assumes "length p < 2 ^ 16" and "len \<noteq> 0"
  shows "parse_record (PutUint32 len @ record_bytes p)
    = PErr (corruption ''invalid log packet initialization signature'')"
proof -
  have zeros: "drop_bit 16 (of_nat (length p) :: u32) = 0" "drop_bit 24 (of_nat (length p) :: u32) = 0"
    using assms(1) by (auto intro!: drop_bit_small)
  obtain a b where "PutUint32 (of_nat (length p)) = 0 # 0 # [a, b]"
    using zeros by (simp add: PutUint32_def numeral_eq_Suc)
  then obtain rest where "record_bytes p = [0, 0] @ rest"
    by (simp add: record_bytes_def Let_def)
  moreover have "ReadFull 2 (0 # 0 # rest) = ReadOk [0, 0] rest" by (simp add: ReadFull_def)
  moreover have "(get_be [0, 0] :: u16) \<noteq> LogMagicNumber" by code_simp
  ultimately show ?thesis
    using assms(2) by (simp add: parse_record_def Let_def)
qed

section \<open>Properties\<close>

text \<open>
  C6: what was appended is what is replayed. On a fresh ledger file whose writes succeed, appending
  any sequence of events and replaying from byte zero returns exactly that sequence.
\<close>

theorem append_then_replay:
  assumes "NewFileLedger path (Inr \<lparr>file_contents = [], file_plan = []\<rparr>) = Inr l"
    and "\<forall>e\<in>set es. json_roundtrip js e"
  shows "ReplayGenesis js (append_events js l es) = Inr es"
proof -
  have "fl_file l = Some \<lparr>file_contents = [], file_plan = []\<rparr>"
    using assms(1) by (auto simp: NewFileLedger_def)
  with assms(2) replay_log [of es js "[]" "[]"] show ?thesis
    by (simp add: append_events_ok ReplayGenesis_def replayFrom_def)
qed

text \<open>
  C7: a log cut anywhere is either refused or replayed up to a record boundary. Replaying the first
  \<open>n\<close> bytes of a log succeeds exactly when \<open>n\<close> is the end of a record, and then gives exactly the
  events before the cut; every torn record is an error.
\<close>

theorem torn_log_is_refused:
  assumes "\<forall>e\<in>set es. json_roundtrip js e" and "n \<le> length (log_bytes js es)"
  shows "replayFrom js \<lparr>file_contents = take n (log_bytes js es), file_plan = []\<rparr> = Inr fs \<longleftrightarrow>
    (\<exists>k\<le>length es. fs = take k es \<and> n = length (log_bytes js (take k es)))"
  using replay_cut [OF assms, of "[]"] by (simp add: replayFrom_def)

text \<open>
  C32: a changed payload is noticed. If the payload of a record is replaced by another of the same
  length while its checksum stays, replay stops with the tampering alert at that record, whatever
  follows, unless the two checksummed byte strings collide under SHA-256.
\<close>

theorem tampered_record_is_refused:
  assumes "\<forall>e\<in>set es. json_roundtrip js e" and "payload_ok p" and "length p' = length p"
    and "p' \<noteq> p"
  shows "replayFrom js \<lparr>file_contents = log_bytes js es
        @ PutUint32 (of_nat (length p')) @ PutUint16 LogMagicNumber @ p'
        @ list_of_bytes (recordChecksum (of_nat (length p)) LogMagicNumber p) @ rest,
      file_plan = plan\<rparr> = Inl tampering
    \<or> sha256_collision {PutUint32 (of_nat (length p)) @ PutUint16 LogMagicNumber @ p,
        PutUint32 (of_nat (length p)) @ PutUint16 LogMagicNumber @ p'}"
proof (rule disjCI)
  assume nc: "\<not> sha256_collision {PutUint32 (of_nat (length p)) @ PutUint16 LogMagicNumber @ p,
        PutUint32 (of_nat (length p)) @ PutUint16 LogMagicNumber @ p'}"
  let ?len = "of_nat (length p) :: u32"
  have "recordChecksum ?len LogMagicNumber p' \<noteq> recordChecksum ?len LogMagicNumber p"
    using nc assms(4) by (auto simp: recordChecksum_def sha256_collision_def)
  then have "parse_record (PutUint32 ?len @ PutUint16 LogMagicNumber @ p'
      @ list_of_bytes (recordChecksum ?len LogMagicNumber p) @ rest) = PErr tampering"
    using payload_len_word [OF assms(2)] assms(3) by (simp add: parse_record_def Let_def)
  then show "replayFrom js \<lparr>file_contents = log_bytes js es
        @ PutUint32 (of_nat (length p')) @ PutUint16 LogMagicNumber @ p'
        @ list_of_bytes (recordChecksum (of_nat (length p)) LogMagicNumber p) @ rest,
      file_plan = plan\<rparr> = Inl tampering"
    using assms(1,3) by (simp add: replayFrom_def replay_log replay_error)
qed

text \<open>
  A failed append never touches what was there. Whatever the writes do, the file keeps its
  contents and gains a prefix of the new record; without an error it gains the whole record.
\<close>

theorem append_keeps_the_log:
  assumes "json_roundtrip js e" and "fl_file l = Some f"
    and "ledger_AppendEvent js l e = (l', err)"
  shows "\<exists>f' n. fl_file l' = Some f'
    \<and> file_contents f' = file_contents f @ take n (event_record js e)
    \<and> (err = None \<longrightarrow> take n (event_record js e) = event_record js e)"
proof -
  from assms(1) obtain p where p: "json_Marshal js e = Inr p" "event_record js e = record_bytes p"
    by (rule json_roundtripE)
  obtain f' r where w: "write_all f [PutUint32 (of_nat (length p)), PutUint16 LogMagicNumber, p,
      list_of_bytes (recordChecksum (of_nat (length p)) LogMagicNumber p)] = (f', r)" by fastforce
  with assms p(1) have "l' = l\<lparr>fl_file := Some f'\<rparr>" "err = r"
    by (simp_all add: ledger_AppendEvent_writes)
  with write_all_prefix [OF w, unfolded record_pieces] p(2) show ?thesis by auto
qed

text \<open>
  C39: a torn append makes every later event unrecoverable. If an append fails after writing only
  the length field, the ledger stays open and later appends succeed; but replay then fails for
  good, and with it the recovery of all events, those before the failure included.
\<close>

theorem torn_append_poisons_the_log:
  assumes "\<forall>e\<in>set es. json_roundtrip js e" and "json_roundtrip js e1" and "json_roundtrip js e2"
    and "json_Marshal js e2 = Inr p2" and "length p2 < 2 ^ 16"
    and "fl_file l = Some \<lparr>file_contents = log_bytes js es, file_plan = [IOOk, IOFail 0 io_err]\<rparr>"
    and "ledger_AppendEvent js l e1 = (l1, r1)" and "ledger_AppendEvent js l1 e2 = (l2, r2)"
  shows "r1 = Some io_err \<and> r2 = None
    \<and> ReplayGenesis js l2 = Inl (corruption ''invalid log packet initialization signature'')"
proof -
  from assms(2) obtain p1 where p1: "json_Marshal js e1 = Inr p1" "payload_ok p1"
    by (rule json_roundtripE)
  have l1: "l1 = l\<lparr>fl_file := Some \<lparr>file_contents = log_bytes js es
        @ PutUint32 (of_nat (length p1)), file_plan = []\<rparr>\<rparr>" and r1: "r1 = Some io_err"
    using assms(7) ledger_AppendEvent_writes [OF assms(2,6) p1(1)]
    by (simp_all add: file_Write_def)
  have e2: "ledger_AppendEvent js l1 e2 = (l1\<lparr>fl_file := Some \<lparr>file_contents = log_bytes js es
        @ PutUint32 (of_nat (length p1)) @ event_record js e2, file_plan = []\<rparr>\<rparr>, None)"
    using ledger_AppendEvent_ok [OF assms(3)] by (simp add: l1)
  have "event_record js e2 = record_bytes p2"
    using assms(3,4) by (auto elim: json_roundtripE)
  then have "parse_record (PutUint32 (of_nat (length p1)) @ event_record js e2)
      = PErr (corruption ''invalid log packet initialization signature'')"
    using payload_len_word [OF p1(2)] assms(5) by (simp add: short_length_is_no_magic)
  then show ?thesis
    using e2 assms(1,8) r1 by (simp add: ReplayGenesis_def replayFrom_def replay_log replay_error)
qed

lemma foldl_AppendEvent: "foldl AppendEvent m es = m\<lparr>mon_ledger := mon_ledger m @ es\<rparr>"
  by (induction es arbitrary: m) (simp_all add: AppendEvent_def)

lemma fold_apply_event_time:
  "fold apply_event es (s\<lparr>sn_CreatedAtUnix := t\<rparr>) = (fold apply_event es s)\<lparr>sn_CreatedAtUnix := t\<rparr>"
proof (induction es arbitrary: s)
  case Nil
  then show ?case by simp
next
  case (Cons e es)
  have "apply_event e (s\<lparr>sn_CreatedAtUnix := t\<rparr>) = (apply_event e s)\<lparr>sn_CreatedAtUnix := t\<rparr>"
    by (simp add: apply_event_def Let_def)
  then show ?case by (simp add: Cons.IH)
qed

text \<open>The compilation time is not part of the digest.\<close>

lemma compiled_hash_time:
  "sn_SnapshotHash (CompileSnapshot es v t) = sn_SnapshotHash (CompileSnapshot es v t')"
proof -
  have "blank_snapshot v n t' = (blank_snapshot v n t)\<lparr>sn_CreatedAtUnix := Unix t'\<rparr>" for n
    by (simp add: blank_snapshot_def)
  then show ?thesis
    by (simp add: CompileSnapshot_def Let_def fold_apply_event_time ComputeSnapshotHash_def
        snapshot_bytes_def)
qed

lemma RecoverMonitorFromFile_log:
  assumes "\<forall>e\<in>set es. json_roundtrip js e"
  shows "\<exists>m. RecoverMonitorFromFile js (Inr \<lparr>file_contents = log_bytes js es, file_plan = plan\<rparr>)
        version now0 now1 = Inr (m, CompileSnapshot es version now1)
      \<and> Ledger m = es \<and> (\<forall>mid. Lookup m mid = mem_verdict (mem_history mid es))"
  using assms replay_log [of es js "[]" "[]"]
  by (simp add: RecoverMonitorFromFile_def ReplayFile_def replayFrom_def Let_def Ledger_def Lookup_def
      SwapActiveSnapshot_def foldl_AppendEvent NewRuntimeMonitor_def lookup_compiled)

text \<open>
  A restart does not change the enforced state. Recovering from the log of a monitor's ledger
  succeeds, restores the ledger, and gives every memory the verdict that the running monitor gives
  after compiling the same ledger; with the same version, the digest is the same too.
\<close>

theorem recovery_restores_the_monitor:
  assumes "\<forall>e\<in>set (Ledger m). json_roundtrip js e"
    and "CompileAndSwap m t = (live, liveSnap)"
  shows "\<exists>m' snap. RecoverMonitorFromFile js
        (Inr \<lparr>file_contents = log_bytes js (Ledger m), file_plan = plan\<rparr>) version now0 now1
          = Inr (m', snap)
      \<and> Ledger m' = Ledger m \<and> (\<forall>mid. Lookup m' mid = Lookup live mid)
      \<and> (version = sn_Version liveSnap \<longrightarrow> sn_SnapshotHash snap = sn_SnapshotHash liveSnap)"
  using RecoverMonitorFromFile_log [OF assms(1), of plan version now0 now1]
    Lookup_CompileAndSwap [of m t] assms(2)
  by (auto simp: CompileAndSwap_def Let_def Ledger_def intro: compiled_hash_time)

section \<open>Concrete instances\<close>

text \<open>A codec over a table of known events: the text of an event is its position.\<close>

definition table_codec :: "RevocationEvent list \<Rightarrow> json_codec" where
  "table_codec es =
     \<lparr>json_Marshal = (\<lambda>e. Inr [of_nat (Suc (length (takeWhile (\<lambda>x. x \<noteq> e) es)))]),
      json_Unmarshal = (\<lambda>p. case p of
         [b] \<Rightarrow> (if unat b - 1 < length es then Inr (es ! (unat b - 1))
                 else Inl (ErrorString ''unknown event''))
       | _ \<Rightarrow> Inl (ErrorString ''malformed event''))\<rparr>"

definition demo_log :: "RevocationEvent list" where
  "demo_log = [demo_event 1 8 EventRevokeMemory, demo_event 2 9 EventDeleteRequested]"

lemma demo_events_differ: "demo_event 1 8 ty \<noteq> demo_event 2 9 ty'"
  by (auto dest: arg_cong [where f = ev_MemoryID])

lemma demo_log_roundtrip: "\<forall>e\<in>set demo_log. json_roundtrip (table_codec demo_log) e"
  using demo_events_differ
  by (auto simp: demo_log_def table_codec_def json_roundtrip_def payload_ok_def)

theorem append_then_replay_witness:
  "ReplayGenesis (table_codec demo_log) (append_events (table_codec demo_log)
      \<lparr>fl_file = Some \<lparr>file_contents = [], file_plan = []\<rparr>, fl_path = ''wal''\<rparr> demo_log)
     = Inr demo_log"
  by (rule append_then_replay [OF _ demo_log_roundtrip, of "''wal''"]) (simp add: NewFileLedger_def)

theorem torn_log_is_refused_witness:
  "\<not> (\<exists>fs. replayFrom (table_codec demo_log)
      \<lparr>file_contents = take 1 (log_bytes (table_codec demo_log) demo_log), file_plan = []\<rparr> = Inr fs)"
proof -
  have long: "2 \<le> length (event_record (table_codec demo_log) e)" if "e \<in> set demo_log" for e
    using demo_log_roundtrip that
    by (auto elim!: json_roundtripE simp: length_record_bytes dest!: bspec)
  have "1 \<le> length (log_bytes (table_codec demo_log) demo_log)"
    using long [of "demo_event 1 8 EventRevokeMemory"] by (simp add: demo_log_def)
  note torn_log_is_refused [OF demo_log_roundtrip this]
  moreover have "length (log_bytes (table_codec demo_log) (take k demo_log)) \<noteq> 1" for k
    using long [of "demo_event 1 8 EventRevokeMemory"] by (cases k) (auto simp: demo_log_def)
  ultimately show ?thesis by metis
qed

theorem tampered_record_is_refused_witness:
  "\<not> (replayFrom (table_codec demo_log) \<lparr>file_contents = log_bytes (table_codec demo_log) demo_log
        @ PutUint32 (of_nat (length [2 :: byte])) @ PutUint16 LogMagicNumber @ [2]
        @ list_of_bytes (recordChecksum (of_nat (length [1 :: byte])) LogMagicNumber [1]) @ [],
      file_plan = []\<rparr> \<noteq> Inl tampering
    \<and> \<not> sha256_collision {PutUint32 (of_nat (length [1 :: byte])) @ PutUint16 LogMagicNumber @ [1],
        PutUint32 (of_nat (length [1 :: byte])) @ PutUint16 LogMagicNumber @ [2]})"
  using tampered_record_is_refused [OF demo_log_roundtrip, of "[1]" "[2]" "[]" "[]"]
  by (auto simp: payload_ok_def)

definition demo_ledger :: "byte list \<Rightarrow> io_outcome list \<Rightarrow> FileLedger" where
  "demo_ledger bs plan =
     \<lparr>fl_file = Some \<lparr>file_contents = bs, file_plan = plan\<rparr>, fl_path = ''wal''\<rparr>"

theorem append_keeps_the_log_witness:
  "\<exists>f' n. fl_file (fst (ledger_AppendEvent (table_codec demo_log)
        (demo_ledger [1, 2, 3] [IOOk, IOFail 1 (ErrorString ''disk full'')])
        (demo_event 1 8 EventRevokeMemory))) = Some f'
    \<and> file_contents f' = [1, 2, 3] @ take n (event_record (table_codec demo_log)
        (demo_event 1 8 EventRevokeMemory))"
  using append_keeps_the_log [of "table_codec demo_log" "demo_event 1 8 EventRevokeMemory"
      "demo_ledger [1, 2, 3] [IOOk, IOFail 1 (ErrorString ''disk full'')]"
      "\<lparr>file_contents = [1, 2, 3], file_plan = [IOOk, IOFail 1 (ErrorString ''disk full'')]\<rparr>"]
    demo_log_roundtrip
  by (fastforce simp: demo_ledger_def demo_log_def prod_eq_iff)

theorem torn_append_poisons_the_log_witness:
  "let js = table_codec demo_log;
       l1 = fst (ledger_AppendEvent js (demo_ledger (log_bytes js demo_log)
              [IOOk, IOFail 0 (ErrorString ''disk full'')]) (demo_event 1 8 EventRevokeMemory));
       l2 = fst (ledger_AppendEvent js l1 (demo_event 2 9 EventDeleteRequested))
   in ReplayGenesis js l2 = Inl (corruption ''invalid log packet initialization signature'')"
proof -
  let ?js = "table_codec demo_log" and ?e1 = "demo_event 1 8 EventRevokeMemory"
    and ?e2 = "demo_event 2 9 EventDeleteRequested"
    and ?l = "demo_ledger (log_bytes (table_codec demo_log) demo_log)
              [IOOk, IOFail 0 (ErrorString ''disk full'')]"
  have rt: "json_roundtrip ?js ?e1" "json_roundtrip ?js ?e2"
    using demo_log_roundtrip by (simp_all add: demo_log_def)
  obtain p2 where "json_Marshal ?js ?e2 = Inr p2" "length p2 < 2 ^ 16"
    by (simp add: table_codec_def)
  from torn_append_poisons_the_log [OF demo_log_roundtrip rt this, of ?l "ErrorString ''disk full''"]
  show ?thesis by (simp add: demo_ledger_def Let_def prod_eq_iff)
qed

theorem recovery_restores_the_monitor_witness:
  "\<exists>m' snap. RecoverMonitorFromFile (table_codec demo_log)
        (Inr \<lparr>file_contents = log_bytes (table_codec demo_log) demo_log, file_plan = []\<rparr>) 1 0 0
          = Inr (m', snap)
      \<and> Ledger m' = demo_log
      \<and> (\<forall>mid. Lookup m' mid = Lookup (fst (CompileAndSwap (demo_monitor demo_log) 0)) mid)"
  using recovery_restores_the_monitor [of "demo_monitor demo_log" "table_codec demo_log" 0
      "fst (CompileAndSwap (demo_monitor demo_log) 0)" "snd (CompileAndSwap (demo_monitor demo_log) 0)"
      "[]" 1 0 0] demo_log_roundtrip
  by (auto simp only: Ledger_demo_monitor prod.collapse)

end
