(* ===== verification/Go_Chan.thy ===== *)
theory Go_Chan
  imports Mam_Prelude
begin

text \<open>
  Buffered channels as the sources use them: \<^verbatim>\<open>select\<close> with a send and a
  \<^verbatim>\<open>default\<close> (an attempt that never blocks), a receive, and
  \<^verbatim>\<open>close\<close>. Sending on a closed channel panics; receiving from one drains the buffer and
  then reports that it is closed. What the clients rely on is the locale \<open>bounded_fifo\<close>: attempts
  succeed exactly when there is room, elements come out in the order they went in, and the buffer
  never exceeds its capacity.
\<close>

record 'a go_chan =
  ch_buf :: "'a list"
  ch_cap :: nat
  ch_closed :: bool

definition make_chan :: "nat \<Rightarrow> 'a go_chan" where
  "make_chan n = \<lparr>ch_buf = [], ch_cap = n, ch_closed = False\<rparr>"

datatype 'a send_result = Sent "'a go_chan" | SendWouldBlock | SendPanics

definition chan_try_send :: "'a \<Rightarrow> 'a go_chan \<Rightarrow> 'a send_result" where
  "chan_try_send x ch =
     (if ch_closed ch then SendPanics
      else if length (ch_buf ch) < ch_cap ch then Sent (ch\<lparr>ch_buf := ch_buf ch @ [x]\<rparr>)
      else SendWouldBlock)"

datatype 'a recv_result = Received 'a "'a go_chan" | RecvClosed | RecvWouldBlock

definition chan_recv :: "'a go_chan \<Rightarrow> 'a recv_result" where
  "chan_recv ch =
     (case ch_buf ch of
        x # xs \<Rightarrow> Received x (ch\<lparr>ch_buf := xs\<rparr>)
      | [] \<Rightarrow> if ch_closed ch then RecvClosed else RecvWouldBlock)"

definition chan_close :: "'a go_chan \<Rightarrow> 'a go_chan option" where
  "chan_close ch = (if ch_closed ch then None else Some (ch\<lparr>ch_closed := True\<rparr>))"

section \<open>The contract\<close>

locale bounded_fifo =
  fixes items :: "'c \<Rightarrow> 'a list" and capacity :: "'c \<Rightarrow> nat"
    and offer :: "'a \<Rightarrow> 'c \<Rightarrow> 'c option" and poll :: "'c \<Rightarrow> ('a \<times> 'c) option"
  assumes offer_Some: "offer x c = Some c' \<Longrightarrow>
      items c' = items c @ [x] \<and> capacity c' = capacity c \<and> length (items c) < capacity c"
    and poll_Some: "poll c = Some (x, c') \<Longrightarrow> items c = x # items c' \<and> capacity c' = capacity c"
    and poll_None: "poll c = None \<longleftrightarrow> items c = []"
begin

definition within :: "'c \<Rightarrow> bool" where
  "within c \<longleftrightarrow> length (items c) \<le> capacity c"

lemma within_offer: "offer x c = Some c' \<Longrightarrow> within c'"
  using offer_Some [of x c c'] by (simp add: within_def)

lemma within_poll: "poll c = Some (x, c') \<Longrightarrow> within c \<Longrightarrow> within c'"
  using poll_Some [of c x c'] by (simp add: within_def)

lemma offer_full: "capacity c \<le> length (items c) \<Longrightarrow> offer x c = None"
  using offer_Some [of x c] by (cases "offer x c") auto

text \<open>A sequence of operations: \<open>Inl x\<close> offers \<open>x\<close>, \<open>Inr ()\<close> polls; refused operations do nothing.\<close>

fun run :: "('a + unit) list \<Rightarrow> 'c \<Rightarrow> 'c \<times> 'a list \<times> 'a list" where
  "run [] c = (c, [], [])"
| "run (Inl x # ops) c =
     (case offer x c of
        None \<Rightarrow> run ops c
      | Some c' \<Rightarrow> (case run ops c' of (d, ins, outs) \<Rightarrow> (d, x # ins, outs)))"
| "run (Inr u # ops) c =
     (case poll c of
        None \<Rightarrow> run ops c
      | Some (x, c') \<Rightarrow> (case run ops c' of (d, ins, outs) \<Rightarrow> (d, ins, x # outs)))"

text \<open>First in, first out: what was there and went in is what came out and is still there.\<close>

lemma run_fifo: "run ops c = (d, ins, outs) \<Longrightarrow> items c @ ins = outs @ items d"
proof (induction ops c arbitrary: d ins outs rule: run.induct)
  case (1 c)
  then show ?case by simp
next
  case (2 x ops c)
  show ?case
  proof (cases "offer x c")
    case None
    with 2 show ?thesis by simp
  next
    case (Some c')
    with "2.prems" obtain ins' where ins: "ins = x # ins'" "run ops c' = (d, ins', outs)"
      by (auto split: prod.splits)
    from "2.IH"(2) [OF Some ins(2)] offer_Some [OF Some] ins(1) show ?thesis by simp
  qed
next
  case (3 u ops c)
  show ?case
  proof (cases "poll c")
    case None
    with 3 show ?thesis by simp
  next
    case (Some p)
    then obtain x c' where p: "poll c = Some (x, c')" by (cases p) auto
    with "3.prems" obtain outs' where outs: "outs = x # outs'" "run ops c' = (d, ins, outs')"
      by (auto split: prod.splits)
    from "3.IH"(2) [OF p refl outs(2)] poll_Some [OF p] outs(1) show ?thesis by simp
  qed
qed

lemma run_within: "run ops c = (d, ins, outs) \<Longrightarrow> within c \<Longrightarrow> within d"
  by (induction ops c arbitrary: d ins outs rule: run.induct)
    (auto dest: within_offer within_poll split: option.splits prod.splits)

end

definition chan_offer :: "'a \<Rightarrow> 'a go_chan \<Rightarrow> 'a go_chan option" where
  "chan_offer x ch = (case chan_try_send x ch of Sent ch' \<Rightarrow> Some ch' | _ \<Rightarrow> None)"

definition chan_poll :: "'a go_chan \<Rightarrow> ('a \<times> 'a go_chan) option" where
  "chan_poll ch = (case chan_recv ch of Received x ch' \<Rightarrow> Some (x, ch') | _ \<Rightarrow> None)"

interpretation chan: bounded_fifo ch_buf ch_cap chan_offer chan_poll
  by unfold_locales
    (auto simp: chan_offer_def chan_try_send_def chan_poll_def chan_recv_def
      split: if_splits list.splits)

lemma chan_offer_open:
  "\<not> ch_closed ch \<Longrightarrow> chan_offer x ch = None \<longleftrightarrow> ch_cap ch \<le> length (ch_buf ch)"
  by (simp add: chan_offer_def chan_try_send_def)

lemma chan_offer_closed_frame:
  "chan_offer x ch = Some ch' \<Longrightarrow> \<not> ch_closed ch \<and> \<not> ch_closed ch'"
  by (auto simp: chan_offer_def chan_try_send_def split: if_splits)

lemma chan_poll_closed_frame: "chan_poll ch = Some (x, ch') \<Longrightarrow> ch_closed ch' = ch_closed ch"
  by (auto simp: chan_poll_def chan_recv_def split: list.splits if_splits)

end
