(* ===== verification/Axis_Worker.thy ===== *)
theory Axis_Worker
  imports Axis Ledger_File Go_Chan
begin

text \<open>
  \<^verbatim>\<open>pkg/axis/worker.go\<close>: the drift monitor. Jobs enter a bounded queue without
  blocking, workers take them out, evaluate the drift, and turn a failing axis into a durable
  quarantine event. The queue is used through the contract of \<open>Go_Chan\<close>. The counters are
  \<^verbatim>\<open>atomic.Uint64\<close>, so they wrap. The step relation interleaves producers, workers,
  closing and cancellation; a worker processes its job in one step (the finer interleaving of two
  writers of the monitor is the subject of \<open>Monitor_Race\<close>).
\<close>

record MemoryTransformationJob =
  job_MemoryID :: id16
  job_AnchorVector :: StructuralVector
  job_MutatedVector :: StructuralVector
  job_OperatorID :: string
  job_SourcePipeline :: string
  job_PolicySnapshot :: hash32

record WorkerStats =
  ws_Processed :: u64
  ws_Quarantined :: u64
  ws_Dropped :: u64
  ws_Errors :: u64

record DriftMonitorCoordinator =
  dm_Ledger :: "FileLedger option"
  dm_Monitor :: "RuntimeMonitor option"
  dm_Dimensions :: InvariantDimensions
  dm_Threshold :: flt
  dm_JobQueue :: "MemoryTransformationJob go_chan"
  dm_processed :: u64
  dm_quarantined :: u64
  dm_dropped :: u64
  dm_errors :: u64

definition NewDriftMonitorCoordinator ::
  "FileLedger option \<Rightarrow> RuntimeMonitor option \<Rightarrow> InvariantDimensions \<Rightarrow> flt \<Rightarrow> int
   \<Rightarrow> DriftMonitorCoordinator"
where
  "NewDriftMonitorCoordinator ledger monitor dims threshold queueBuffer =
     (let n = (if queueBuffer \<le> 0 then 1 else queueBuffer)
      in \<lparr>dm_Ledger = ledger, dm_Monitor = monitor, dm_Dimensions = dims, dm_Threshold = threshold,
          dm_JobQueue = make_chan (nat n), dm_processed = 0, dm_quarantined = 0, dm_dropped = 0,
          dm_errors = 0\<rparr>)"

text \<open>\<^verbatim>\<open>close\<close> of a closed channel panics: \<open>None\<close>.\<close>

definition StopAccepting :: "DriftMonitorCoordinator \<Rightarrow> DriftMonitorCoordinator option" where
  "StopAccepting c = map_option (\<lambda>q. c\<lparr>dm_JobQueue := q\<rparr>) (chan_close (dm_JobQueue c))"

text \<open>A send on the closed queue panics: \<open>None\<close>.\<close>

definition SubmitNonBlocking ::
  "MemoryTransformationJob \<Rightarrow> DriftMonitorCoordinator \<Rightarrow> (DriftMonitorCoordinator \<times> bool) option"
where
  "SubmitNonBlocking job c =
     (case chan_try_send job (dm_JobQueue c) of
        Sent q \<Rightarrow> Some (c\<lparr>dm_JobQueue := q\<rparr>, True)
      | SendWouldBlock \<Rightarrow> Some (c\<lparr>dm_dropped := dm_dropped c + 1\<rparr>, False)
      | SendPanics \<Rightarrow> None)"

definition axis_Stats :: "DriftMonitorCoordinator \<Rightarrow> WorkerStats" where
  "axis_Stats c = \<lparr>ws_Processed = dm_processed c, ws_Quarantined = dm_quarantined c,
     ws_Dropped = dm_dropped c, ws_Errors = dm_errors c\<rparr>"

definition MapDriftToQuarantine :: "string \<Rightarrow> QuarantineReason \<times> EventType" where
  "MapDriftToQuarantine driftType =
     (if driftType = DriftTypeTemporality then (ReasonPoisoningSuspected, EventPoisoningSuspected)
      else if driftType = DriftTypeEpistemic then (ReasonPoisoningSuspected, EventPoisoningSuspected)
      else if driftType = DriftTypeScope then (ReasonCrossSessionLeak, EventCrossSessionLeak)
      else if driftType = DriftTypeTrust then (ReasonRetroactiveRevocation, EventQuarantineMemory)
      else if driftType = DriftTypeMandate
        then (ReasonPromptInjectionDetected, EventPromptInjectionDetected)
      else (ReasonPoisoningSuspected, EventQuarantineMemory))"

text \<open>\<open>rand\<close> is the result of \<^verbatim>\<open>rand.Read\<close>, \<open>t0\<close> and \<open>t1\<close> the clock readings.\<close>

definition axis_newEventID :: "go_error + byte list \<Rightarrow> go_error + id16" where
  "axis_newEventID rand =
     (case rand of
        Inl err \<Rightarrow> Inl (ErrorString ''AXIS_EVENT_ID_FAILURE: crypto random source unavailable'')
      | Inr bs \<Rightarrow> Inr (copy_bytes bs))"

definition eventForDrift ::
  "go_error + byte list \<Rightarrow> go_time \<Rightarrow> MemoryTransformationJob \<Rightarrow> AxisCheckResult
   \<Rightarrow> go_error + RevocationEvent"
where
  "eventForDrift rand t0 job res =
     (case axis_newEventID rand of
        Inl err \<Rightarrow> Inl err
      | Inr eventID \<Rightarrow>
          let (qReason, eType) = MapDriftToQuarantine (ax_DriftType res)
          in Inr \<lparr>ev_EventID = eventID, ev_MemoryID = job_MemoryID job, ev_EventType = eType,
               ev_Reason = qReason, ev_OperatorID = job_OperatorID job,
               ev_Source = job_SourcePipeline job, ev_CreatedAt = t0,
               ev_PolicyHash = job_PolicySnapshot job, ev_PreviousState = [],
               ev_NewState = ''quarantined'', ev_Signature = zero_bytes, ev_SigningKeyID = []\<rparr>)"

definition processJob ::
  "json_codec \<Rightarrow> go_error + byte list \<Rightarrow> go_time \<Rightarrow> go_time \<Rightarrow> MemoryTransformationJob
   \<Rightarrow> DriftMonitorCoordinator \<Rightarrow> DriftMonitorCoordinator \<times> go_error option"
where
  "processJob js rand t0 t1 job c0 =
     (let c = c0\<lparr>dm_processed := dm_processed c0 + 1\<rparr>;
          res = EvaluateDrift (job_AnchorVector job) (job_MutatedVector job) (dm_Dimensions c)
                  (dm_Threshold c)
      in
      if ax_AxisPreserved res then (c, None)
      else
        (case eventForDrift rand t0 job res of
           Inl err \<Rightarrow> (c\<lparr>dm_errors := dm_errors c + 1\<rparr>, Some err)
         | Inr event \<Rightarrow>
             let (ledger', appendErr) =
                   (case dm_Ledger c of
                      None \<Rightarrow> (None, None)
                    | Some l \<Rightarrow> let (l', e) = ledger_AppendEvent js l event in (Some l', e))
             in
             (case appendErr of
                Some err \<Rightarrow>
                  (c\<lparr>dm_Ledger := ledger', dm_errors := dm_errors c + 1\<rparr>, Some err)
              | None \<Rightarrow>
                  (c\<lparr>dm_Ledger := ledger',
                     dm_Monitor := map_option
                       (\<lambda>m. fst (CompileAndSwap (AppendEvent m event) t1)) (dm_Monitor c),
                     dm_quarantined := dm_quarantined c + 1\<rparr>, None))))"

definition ProcessJobForTest ::
  "json_codec \<Rightarrow> go_error + byte list \<Rightarrow> go_time \<Rightarrow> go_time \<Rightarrow> MemoryTransformationJob
   \<Rightarrow> DriftMonitorCoordinator \<Rightarrow> DriftMonitorCoordinator \<times> go_error option"
where
  "ProcessJobForTest js rand t0 t1 job c = processJob js rand t0 t1 job c"

section \<open>Workers\<close>

text \<open>
  A worker waits in its \<^verbatim>\<open>select\<close>, processes a job, or has returned. \<open>as_offered\<close> and
  \<open>as_taken\<close> are ghost histories of the jobs that were accepted by the queue and taken from it, and
  \<open>as_attempts\<close> counts the submissions.
\<close>

datatype worker_pc = WIdle | WBusy MemoryTransformationJob | WReturned

record axis_system =
  as_coord :: DriftMonitorCoordinator
  as_workers :: "worker_pc list"
  as_cancelled :: bool
  as_offered :: "MemoryTransformationJob list"
  as_taken :: "MemoryTransformationJob list"
  as_attempts :: nat

text \<open>
  The steps: a submission, closing the queue, cancelling the context, and the moves of
  \<^verbatim>\<open>workerLoop\<close> (take a job, process it, return on a drained closed queue, return on a
  cancelled context).
\<close>

inductive axis_step :: "json_codec \<Rightarrow> axis_system \<Rightarrow> axis_system \<Rightarrow> bool" for js where
  submit: "SubmitNonBlocking job (as_coord s) = Some (c, ok) \<Longrightarrow>
     axis_step js s (s\<lparr>as_coord := c, as_attempts := as_attempts s + 1,
       as_offered := as_offered s @ (if ok then [job] else [])\<rparr>)"
| close: "StopAccepting (as_coord s) = Some c \<Longrightarrow> axis_step js s (s\<lparr>as_coord := c\<rparr>)"
| cancel: "axis_step js s (s\<lparr>as_cancelled := True\<rparr>)"
| take: "i < length (as_workers s) \<Longrightarrow> as_workers s ! i = WIdle \<Longrightarrow>
     chan_recv (dm_JobQueue (as_coord s)) = Received job q \<Longrightarrow>
     axis_step js s (s\<lparr>as_coord := (as_coord s)\<lparr>dm_JobQueue := q\<rparr>,
       as_workers := (as_workers s)[i := WBusy job], as_taken := as_taken s @ [job]\<rparr>)"
| work: "i < length (as_workers s) \<Longrightarrow> as_workers s ! i = WBusy job \<Longrightarrow>
     processJob js rand t0 t1 job (as_coord s) = (c, err) \<Longrightarrow>
     axis_step js s (s\<lparr>as_coord := c, as_workers := (as_workers s)[i := WIdle]\<rparr>)"
| drained: "i < length (as_workers s) \<Longrightarrow> as_workers s ! i = WIdle \<Longrightarrow>
     chan_recv (dm_JobQueue (as_coord s)) = RecvClosed \<Longrightarrow>
     axis_step js s (s\<lparr>as_workers := (as_workers s)[i := WReturned]\<rparr>)"
| stopped: "i < length (as_workers s) \<Longrightarrow> as_workers s ! i = WIdle \<Longrightarrow> as_cancelled s \<Longrightarrow>
     axis_step js s (s\<lparr>as_workers := (as_workers s)[i := WReturned]\<rparr>)"

text \<open>\<^verbatim>\<open>Start\<close> launches at least one worker.\<close>

definition Start :: "DriftMonitorCoordinator \<Rightarrow> int \<Rightarrow> axis_system" where
  "Start c workerCount =
     \<lparr>as_coord = c, as_workers = replicate (nat (if workerCount \<le> 0 then 1 else workerCount)) WIdle,
      as_cancelled = False, as_offered = [], as_taken = [], as_attempts = 0\<rparr>"

text \<open>\<^verbatim>\<open>Wait\<close> returns when every worker has returned.\<close>

definition Wait_returns :: "axis_system \<Rightarrow> bool" where
  "Wait_returns s \<longleftrightarrow> (\<forall>w\<in>set (as_workers s). w = WReturned)"

fun is_busy :: "worker_pc \<Rightarrow> bool" where
  "is_busy (WBusy job) = True"
| "is_busy _ = False"

definition busy :: "axis_system \<Rightarrow> nat" where
  "busy s = length (filter is_busy (as_workers s))"

section \<open>One operation\<close>

lemma processJob_frame:
  assumes "processJob js rand t0 t1 job c = (c', err)"
  shows "dm_JobQueue c' = dm_JobQueue c" and "dm_dropped c' = dm_dropped c"
    and "dm_processed c' = dm_processed c + 1"
  using assms
  by (auto simp: processJob_def Let_def case_prod_beta split: if_splits sum.splits option.splits)

lemma SubmitNonBlocking_cases:
  assumes "SubmitNonBlocking job c = Some (c', ok)"
  obtains q where "ok" and "chan_offer job (dm_JobQueue c) = Some q" and "c' = c\<lparr>dm_JobQueue := q\<rparr>"
  | "\<not> ok" and "c' = c\<lparr>dm_dropped := dm_dropped c + 1\<rparr>"
  using assms by (auto simp: SubmitNonBlocking_def chan_offer_def split: send_result.splits)

lemma chan_recv_poll: "chan_recv ch = Received x ch' \<longleftrightarrow> chan_poll ch = Some (x, ch')"
  by (auto simp: chan_poll_def split: recv_result.splits)

lemma chan_recv_closed: "chan_recv ch = RecvClosed \<longleftrightarrow> ch_buf ch = [] \<and> ch_closed ch"
  by (auto simp: chan_recv_def split: list.splits)

text \<open>Whatever the drift type, the event that is emitted blocks the memory.\<close>

lemma MapDriftToQuarantine_blocks: "blocking_event (snd (MapDriftToQuarantine ty))"
  by (simp add: MapDriftToQuarantine_def blocking_event_def quarantine_event_def)

lemma eventForDrift_fields:
  "eventForDrift rand t0 job res = Inr e \<Longrightarrow>
     ev_MemoryID e = job_MemoryID job \<and> blocking_event (ev_EventType e)"
  using MapDriftToQuarantine_blocks [of "ax_DriftType res"]
  by (auto simp: eventForDrift_def case_prod_beta Let_def split: sum.splits)

text \<open>A job that is processed without an error although its axis is not preserved.\<close>

lemma processJob_drift:
  assumes "processJob js rand t0 t1 job c = (c', None)"
    and "\<not> ax_AxisPreserved (EvaluateDrift (job_AnchorVector job) (job_MutatedVector job)
      (dm_Dimensions c) (dm_Threshold c))"
    and "dm_Monitor c = Some m"
  obtains e where "ev_MemoryID e = job_MemoryID job"
    and "eventForDrift rand t0 job (EvaluateDrift (job_AnchorVector job) (job_MutatedVector job)
      (dm_Dimensions c) (dm_Threshold c)) = Inr e"
    and "dm_Monitor c' = Some (fst (CompileAndSwap (AppendEvent m e) t1))"
    and "dm_quarantined c' = dm_quarantined c + 1"
    and "case dm_Ledger c of None \<Rightarrow> True
      | Some l \<Rightarrow> \<exists>l'. dm_Ledger c' = Some l' \<and> ledger_AppendEvent js l e = (l', None)"
    and "rd_Decision (Lookup (fst (CompileAndSwap (AppendEvent m e) t1)) (job_MemoryID job)) \<noteq> DecisionUse"
proof -
  let ?res = "EvaluateDrift (job_AnchorVector job) (job_MutatedVector job) (dm_Dimensions c) (dm_Threshold c)"
  obtain e where e: "eventForDrift rand t0 job ?res = Inr e"
    using assms(1,2) by (cases "eventForDrift rand t0 job ?res") (auto simp: processJob_def Let_def)
  have "mem_blocked (mem_history (ev_MemoryID e) (mon_ledger m @ [e]))"
    unfolding mem_history_snoc using eventForDrift_fields [OF e] by (intro mem_step_blocking) simp
  then have "rd_Decision (Lookup (fst (CompileAndSwap (AppendEvent m e) t1)) (job_MemoryID job)) \<noteq> DecisionUse"
    using eventForDrift_fields [OF e]
    by (simp add: Lookup_CompileAndSwap mem_verdict_use_iff AppendEvent_def)
  with assms e eventForDrift_fields [OF e] show thesis
    by (intro that [of e])
      (auto simp: processJob_def Let_def case_prod_beta prod_eq_iff split: option.splits)
qed

text \<open>The quarantine counter moves only then.\<close>

lemma processJob_counts:
  assumes "processJob js rand t0 t1 job c = (c', err)" and "dm_quarantined c' \<noteq> dm_quarantined c"
  shows "err = None \<and> \<not> ax_AxisPreserved (EvaluateDrift (job_AnchorVector job) (job_MutatedVector job)
      (dm_Dimensions c) (dm_Threshold c))"
  using assms by (auto simp: processJob_def Let_def case_prod_beta split: if_splits sum.splits option.splits)

section \<open>Invariant of the workers\<close>

definition queue :: "axis_system \<Rightarrow> MemoryTransformationJob go_chan" where
  "queue s = dm_JobQueue (as_coord s)"

definition axis_inv :: "nat \<Rightarrow> axis_system \<Rightarrow> bool" where
  "axis_inv n s \<longleftrightarrow>
     as_offered s = as_taken s @ ch_buf (queue s)
   \<and> of_nat (as_attempts s) = of_nat (length (as_offered s)) + dm_dropped (as_coord s)
   \<and> of_nat (length (as_taken s)) = dm_processed (as_coord s) + of_nat (busy s)
   \<and> ch_cap (queue s) = n \<and> length (ch_buf (queue s)) \<le> n
   \<and> (\<not> as_cancelled s \<and> WReturned \<in> set (as_workers s) \<longrightarrow>
        ch_closed (queue s) \<and> ch_buf (queue s) = [])"

lemmas axis_inv_simps = axis_inv_def queue_def

lemma busy_update:
  assumes "i < length ws"
  shows "length (filter is_busy (ws[i := w])) + (if is_busy (ws ! i) then 1 else 0)
    = length (filter is_busy ws) + (if is_busy w then 1 else 0)"
  using assms
proof (induction ws arbitrary: i)
  case Nil
  then show ?case by simp
next
  case (Cons x ws)
  then show ?case by (cases i) auto
qed

lemma busy_steps:
  assumes "i < length ws"
  shows "ws ! i = WIdle \<Longrightarrow> length (filter is_busy (ws[i := WBusy job])) = Suc (length (filter is_busy ws))"
    and "ws ! i = WBusy job \<Longrightarrow> Suc (length (filter is_busy (ws[i := WIdle]))) = length (filter is_busy ws)"
    and "ws ! i = WIdle \<Longrightarrow> length (filter is_busy (ws[i := WReturned])) = length (filter is_busy ws)"
  using busy_update [OF assms, of "WBusy job"] busy_update [OF assms, of WIdle]
    busy_update [OF assms, of WReturned] by simp_all

lemma returned_update: "w \<noteq> WReturned \<Longrightarrow> WReturned \<in> set (ws[i := w]) \<Longrightarrow> WReturned \<in> set ws"
  using set_update_subset_insert [of ws i w] by auto

lemma axis_step_inv: "axis_step js s t \<Longrightarrow> axis_inv n s \<Longrightarrow> axis_inv n t"
proof (induction rule: axis_step.induct)
  case (submit job s c ok)
  from submit(1) show ?case
  proof (cases rule: SubmitNonBlocking_cases)
    case (1 q)
    with submit(2) chan.offer_Some [OF 1(2)] chan_offer_closed_frame [OF 1(2)] show ?thesis
      by (auto simp: axis_inv_simps busy_def)
  next
    case 2
    with submit(2) show ?thesis by (auto simp: axis_inv_simps busy_def)
  qed
next
  case (close s c)
  then show ?case
    by (auto simp: axis_inv_simps busy_def StopAccepting_def chan_close_def split: if_splits)
next
  case (cancel s)
  then show ?case by (auto simp: axis_inv_simps busy_def)
next
  case (take i s job q)
  from take(3) have q: "chan_poll (queue s) = Some (job, q)" by (simp add: chan_recv_poll queue_def)
  with take(4) have "WReturned \<in> set (as_workers s) \<Longrightarrow> as_cancelled s"
    using chan.poll_Some [OF q] by (auto simp: axis_inv_simps)
  with take(4) chan.poll_Some [OF q] busy_steps(1) [OF take(1,2), of job] show ?case
    by (auto simp: axis_inv_simps busy_def dest: returned_update [rotated])
next
  case (work i s job rand t0 t1 c err)
  with processJob_frame [OF work(3)] busy_steps(2) [OF work(1,2), symmetric] show ?case
    by (auto simp: axis_inv_simps busy_def dest: returned_update [rotated])
next
  case (drained i s)
  then show ?case
    using busy_steps(3) [OF drained(1,2)] by (auto simp: axis_inv_simps busy_def chan_recv_closed)
next
  case (stopped i s)
  then show ?case
    using busy_steps(3) [OF stopped(1,2)] by (auto simp: axis_inv_simps busy_def)
qed

definition axis_init ::
  "FileLedger option \<Rightarrow> RuntimeMonitor option \<Rightarrow> InvariantDimensions \<Rightarrow> flt \<Rightarrow> int \<Rightarrow> int \<Rightarrow> axis_system \<Rightarrow> bool"
where
  "axis_init ledger monitor dims threshold queueBuffer workerCount s \<longleftrightarrow>
     s = Start (NewDriftMonitorCoordinator ledger monitor dims threshold queueBuffer) workerCount"

lemma axis_init_inv:
  "axis_init ledger monitor dims threshold queueBuffer workerCount s \<Longrightarrow> axis_inv (nat (max 1 queueBuffer)) s"
  by (auto simp: axis_init_def axis_inv_simps Start_def NewDriftMonitorCoordinator_def make_chan_def
      busy_def Let_def)

interpretation axis_workers: invariant_system
    "axis_init ledger monitor dims threshold queueBuffer workerCount" "axis_step js"
    "axis_inv (nat (max 1 queueBuffer))"
  by unfold_locales (rule axis_init_inv, assumption, rule axis_step_inv)

section \<open>Shutdown\<close>

text \<open>
  What a closed queue still costs: two for a queued job, one more for the worker that processes it,
  one for a worker that has to return, one for the cancellation. Submitting to and closing a closed
  queue panic, so they are no steps.
\<close>

fun worker_weight :: "worker_pc \<Rightarrow> nat" where
  "worker_weight (WBusy job) = 2"
| "worker_weight WIdle = 1"
| "worker_weight WReturned = 0"

definition work_left :: "axis_system \<Rightarrow> nat" where
  "work_left s = 2 * length (ch_buf (queue s)) + sum_list (map worker_weight (as_workers s))
     + (if as_cancelled s then 0 else 1)"

definition axis_moves :: "json_codec \<Rightarrow> axis_system \<Rightarrow> axis_system \<Rightarrow> bool" where
  "axis_moves js s t \<longleftrightarrow> axis_step js s t \<and> t \<noteq> s"

lemma closed_step:
  assumes "axis_step js s t" and "ch_closed (queue s)"
  shows "ch_closed (queue t) \<and> (work_left t < work_left s \<or> t = s)"
  using assms
proof (induction rule: axis_step.induct)
  case (submit job s c ok)
  then show ?case by (auto simp: SubmitNonBlocking_def chan_try_send_def queue_def)
next
  case (close s c)
  then show ?case by (simp add: StopAccepting_def chan_close_def queue_def)
next
  case (cancel s)
  then show ?case by (cases s) (auto simp: work_left_def queue_def)
next
  case (take i s job q)
  then have q: "chan_poll (queue s) = Some (job, q)" by (simp add: chan_recv_poll queue_def)
  with take sum_list_map_update [OF take(1), of worker_weight "WBusy job"] show ?case
    using chan.poll_Some [OF q] chan_poll_closed_frame [OF q] by (simp add: work_left_def queue_def)
next
  case (work i s job rand t0 t1 c err)
  with processJob_frame [OF work(3)] sum_list_map_update [OF work(1), of worker_weight WIdle]
  show ?case by (simp add: work_left_def queue_def)
next
  case (drained i s)
  with sum_list_map_update [OF drained(1), of worker_weight WReturned]
  show ?case by (simp add: work_left_def queue_def)
next
  case (stopped i s)
  with sum_list_map_update [OF stopped(1), of worker_weight WReturned]
  show ?case by (simp add: work_left_def queue_def)
qed

lemma closed_progress:
  assumes "ch_closed (queue s)" and "\<not> Wait_returns s"
  shows "\<exists>t. axis_moves js s t"
proof -
  obtain i where i: "i < length (as_workers s)" "as_workers s ! i \<noteq> WReturned"
    using assms(2) by (auto simp: Wait_returns_def in_set_conv_nth)
  have move: "\<exists>t. axis_moves js s t"
    if "axis_step js s u" "as_workers u = (as_workers s)[i := w]" "w \<noteq> as_workers s ! i" for u w
  proof -
    have "u \<noteq> s" using i(1) that(2,3) by (metis nth_list_update_eq)
    with that(1) show ?thesis by (auto simp: axis_moves_def)
  qed
  show ?thesis
  proof (cases "as_workers s ! i")
    case (WBusy job)
    obtain c err where "processJob js (Inr []) 0 0 job (as_coord s) = (c, err)" by fastforce
    from axis_step.work [OF i(1) WBusy this] show ?thesis by (rule move [where w = WIdle]) (simp_all add: WBusy)
  next
    case WIdle
    show ?thesis
    proof (cases "ch_buf (queue s)")
      case Nil
      with assms(1) have "chan_recv (dm_JobQueue (as_coord s)) = RecvClosed"
        by (simp add: chan_recv_closed queue_def)
      from axis_step.drained [OF i(1) WIdle this] show ?thesis by (rule move [where w = WReturned]) (simp_all add: WIdle)
    next
      case (Cons job js')
      then have "chan_recv (dm_JobQueue (as_coord s)) = Received job ((queue s)\<lparr>ch_buf := js'\<rparr>)"
        by (simp add: chan_recv_def queue_def)
      from axis_step.take [OF i(1) WIdle this] show ?thesis
        by (rule move [where w = "WBusy job"]) (simp_all add: WIdle)
    qed
  qed (use i(2) in simp)
qed

interpretation shutdown: terminating_system
    "\<lambda>s. ch_closed (queue s)" "axis_moves js" work_left Wait_returns
  by unfold_locales (auto simp: axis_moves_def dest: closed_step intro: closed_progress [unfolded axis_moves_def])

section \<open>Properties\<close>

text \<open>
  C20: every submission is accounted for. In every reachable state of producers and workers, the jobs
  that the queue accepted are, in order, those taken by workers followed by those still queued, at most
  the configured number; the submissions are the accepted ones plus the dropped counter; and the taken
  ones are the processed counter plus the jobs being worked on (counters modulo 2 to the 64).
\<close>

theorem submissions_are_accounted:
  assumes "reach (axis_init ledger monitor dims threshold queueBuffer workerCount) (axis_step js) s"
  shows "as_offered s = as_taken s @ ch_buf (dm_JobQueue (as_coord s))
    \<and> length (ch_buf (dm_JobQueue (as_coord s))) \<le> nat (max 1 queueBuffer)
    \<and> of_nat (as_attempts s) = of_nat (length (as_offered s)) + ws_Dropped (axis_Stats (as_coord s))
    \<and> of_nat (length (as_taken s)) = ws_Processed (axis_Stats (as_coord s)) + of_nat (busy s)"
  using axis_workers.reach_I [OF assms] by (simp add: axis_inv_simps axis_Stats_def)

text \<open>
  C21: a graceful stop loses nothing. When all workers have returned and the context was never
  cancelled, the queue is closed and empty and every job it ever accepted has been processed.
\<close>

theorem graceful_stop_processes_all:
  assumes "reach (axis_init ledger monitor dims threshold queueBuffer workerCount) (axis_step js) s"
    and "Wait_returns s" and "as_workers s \<noteq> []" and "\<not> as_cancelled s"
  shows "ch_closed (dm_JobQueue (as_coord s)) \<and> ch_buf (dm_JobQueue (as_coord s)) = []
    \<and> ws_Processed (axis_Stats (as_coord s)) = of_nat (length (as_offered s))"
proof -
  from assms(2,3) have "WReturned \<in> set (as_workers s)"
    by (cases "as_workers s") (auto simp: Wait_returns_def)
  moreover have "busy s = 0"
    using assms(2) by (auto simp: busy_def Wait_returns_def filter_empty_conv)
  ultimately show ?thesis
    using axis_workers.reach_I [OF assms(1)] assms(4) by (simp add: axis_inv_simps axis_Stats_def)
qed

text \<open>
  C22: stopping terminates. Once the queue is closed, \<^verbatim>\<open>Wait\<close> can always return: from any state the
  workers can go on until all of them have returned, and whatever they do, in any order and with any
  outcome of the jobs, they take at most two steps for each queued job, two for each worker and one
  for the cancellation.
\<close>

theorem closed_queue_drains:
  assumes "ch_closed (dm_JobQueue (as_coord s))"
  shows "(\<exists>t. (axis_moves js)\<^sup>*\<^sup>* s t \<and> Wait_returns t)
    \<and> ((axis_moves js ^^ n) s u \<longrightarrow>
        n \<le> 2 * length (ch_buf (dm_JobQueue (as_coord s))) + 2 * length (as_workers s) + 1)"
proof -
  have "worker_weight w \<le> 2" for w by (cases w) auto
  from sum_list_map_bound [of worker_weight, OF this, of "as_workers s"] show ?thesis
    using shutdown.reaches_finished [of s js] shutdown.run_bound [of n js s u] assms
    by (auto simp: queue_def work_left_def split: if_splits)
qed

text \<open>
  C24: detected drift is enforced. When a job is processed without an error and its axis is not
  preserved, the record of a blocking event of its memory is at the end of the ledger file (if there is
  one), and the monitor (if there is one) refuses the memory from then on.
\<close>

theorem drift_is_enforced:
  assumes "processJob js rand t0 t1 job c = (c', None)"
    and "\<not> ax_AxisPreserved (EvaluateDrift (job_AnchorVector job) (job_MutatedVector job)
      (dm_Dimensions c) (dm_Threshold c))"
    and "dm_Monitor c = Some m"
  shows "\<exists>e m'. ev_MemoryID e = job_MemoryID job \<and> dm_Monitor c' = Some m'
    \<and> Ledger m' = Ledger m @ [e]
    \<and> (\<forall>l f. dm_Ledger c = Some l \<and> fl_file l = Some f \<longrightarrow>
         (\<exists>l' f'. dm_Ledger c' = Some l' \<and> fl_file l' = Some f'
            \<and> file_contents f' = file_contents f @ event_record js e))
    \<and> rd_Decision (Lookup m' (job_MemoryID job)) \<noteq> DecisionUse
    \<and> dm_quarantined c' = dm_quarantined c + 1"
  using assms
proof (rule processJob_drift, goal_cases)
  case (1 e)
  let ?m = "fst (CompileAndSwap (AppendEvent m e) t1)"
  have "Ledger ?m = Ledger m @ [e]"
    by (simp add: Ledger_def CompileAndSwap_def Let_def SwapActiveSnapshot_def AppendEvent_def)
  moreover have "\<exists>l' f'. dm_Ledger c' = Some l' \<and> fl_file l' = Some f'
      \<and> file_contents f' = file_contents f @ event_record js e"
    if "dm_Ledger c = Some l" "fl_file l = Some f" for l f
    using 1(5) that ledger_AppendEvent_durable by fastforce
  ultimately show ?case
    using 1 by (intro exI [of _ e] exI [of _ ?m]) simp
qed

section \<open>Concrete instances\<close>

definition demo_job :: MemoryTransformationJob where
  "demo_job = \<lparr>job_MemoryID = copy_bytes [9], job_AnchorVector = [], job_MutatedVector = [],
     job_OperatorID = ''op'', job_SourcePipeline = ''pipe'', job_PolicySnapshot = zero_bytes\<rparr>"

definition demo_drift_coordinator :: DriftMonitorCoordinator where
  "demo_drift_coordinator =
     NewDriftMonitorCoordinator None (Some (NewRuntimeMonitor 0)) DefaultDimensions (FFin (1 / 10)) 1"

abbreviation demo_axis_reach :: "axis_system \<Rightarrow> bool" where
  "demo_axis_reach \<equiv> reach (axis_init None (Some (NewRuntimeMonitor 0)) DefaultDimensions (FFin (1 / 10)) 1 1)
     (axis_step (table_codec []))"

lemma demo_axis_start: "demo_axis_reach (Start demo_drift_coordinator 1)"
  by (rule reach_init) (simp add: axis_init_def demo_drift_coordinator_def)

definition demo_submitted :: axis_system where
  "demo_submitted = (Start demo_drift_coordinator 1)
     \<lparr>as_coord := demo_drift_coordinator\<lparr>dm_JobQueue := \<lparr>ch_buf = [demo_job], ch_cap = 1, ch_closed = False\<rparr>\<rparr>,
      as_attempts := 1, as_offered := [demo_job]\<rparr>"

lemma demo_submitted_reach: "demo_axis_reach demo_submitted"
proof (rule reach_step [OF demo_axis_start])
  have "SubmitNonBlocking demo_job demo_drift_coordinator
      = Some (demo_drift_coordinator\<lparr>dm_JobQueue := \<lparr>ch_buf = [demo_job], ch_cap = 1, ch_closed = False\<rparr>\<rparr>, True)"
    by (simp add: SubmitNonBlocking_def chan_try_send_def demo_drift_coordinator_def
        NewDriftMonitorCoordinator_def make_chan_def)
  then show "axis_step (table_codec []) (Start demo_drift_coordinator 1) demo_submitted"
    using axis_step.submit [of demo_job "Start demo_drift_coordinator 1" _ True "table_codec []"]
    by (simp add: demo_submitted_def Start_def)
qed

theorem submissions_are_accounted_witness:
  "as_offered demo_submitted = as_taken demo_submitted @ ch_buf (dm_JobQueue (as_coord demo_submitted))
   \<and> (of_nat (as_attempts demo_submitted) :: u64)
       = of_nat (length (as_offered demo_submitted)) + ws_Dropped (axis_Stats (as_coord demo_submitted))"
  using submissions_are_accounted [OF demo_submitted_reach] by blast

definition demo_closed :: axis_system where
  "demo_closed = (Start demo_drift_coordinator 1)
     \<lparr>as_coord := demo_drift_coordinator\<lparr>dm_JobQueue := \<lparr>ch_buf = [], ch_cap = 1, ch_closed = True\<rparr>\<rparr>\<rparr>"

text \<open>A run that accepts a job, closes the queue with the job still in it, processes it and returns.\<close>

lemma demo_stopped:
  "\<exists>s. demo_axis_reach s \<and> as_workers s = [WReturned] \<and> \<not> as_cancelled s \<and> as_offered s = [demo_job]"
proof -
  let ?step = "axis_step (table_codec [])"
  let ?q = "\<lambda>jobs. \<lparr>ch_buf = jobs, ch_cap = 1, ch_closed = True\<rparr>"
  let ?c = "demo_drift_coordinator\<lparr>dm_JobQueue := ?q [demo_job]\<rparr>"
  obtain c err where job: "processJob (table_codec []) (Inr [5]) 1 2 demo_job
      (demo_drift_coordinator\<lparr>dm_JobQueue := ?q []\<rparr>) = (c, err)" by fastforce
  note queue = processJob_frame(1) [OF job]
  let ?closed = "demo_submitted\<lparr>as_coord := ?c\<rparr>"
  let ?taken = "?closed\<lparr>as_coord := demo_drift_coordinator\<lparr>dm_JobQueue := ?q []\<rparr>,
    as_workers := [WBusy demo_job], as_taken := [demo_job]\<rparr>"
  let ?done = "?taken\<lparr>as_coord := c, as_workers := [WIdle]\<rparr>"
  have "?step demo_submitted ?closed"
    using axis_step.close [of demo_submitted]
    by (simp add: demo_submitted_def StopAccepting_def chan_close_def)
  then have 1: "demo_axis_reach ?closed" by (rule reach_step [OF demo_submitted_reach])
  have "?step ?closed ?taken"
    using axis_step.take [of 0 ?closed demo_job "?q []"] by (simp add: demo_submitted_def Start_def chan_recv_def)
  then have 2: "demo_axis_reach ?taken" by (rule reach_step [OF 1])
  have "?step ?taken ?done"
    using axis_step.work [where i = 0 and s = ?taken] job by simp
  then have 3: "demo_axis_reach ?done" by (rule reach_step [OF 2])
  have "?step ?done (?done\<lparr>as_workers := [WReturned]\<rparr>)"
    using axis_step.drained [of 0 ?done "table_codec []"] queue by (simp add: chan_recv_def)
  then have "demo_axis_reach (?done\<lparr>as_workers := [WReturned]\<rparr>)" by (rule reach_step [OF 3])
  then show ?thesis
    by (intro exI conjI) (assumption, simp_all add: demo_submitted_def Start_def)
qed

theorem graceful_stop_processes_all_witness:
  "\<exists>s. demo_axis_reach s \<and> as_offered s = [demo_job] \<and> ch_buf (dm_JobQueue (as_coord s)) = []
     \<and> ws_Processed (axis_Stats (as_coord s)) = 1"
proof -
  obtain s where s: "demo_axis_reach s" "as_workers s = [WReturned]" "\<not> as_cancelled s" "as_offered s = [demo_job]"
    using demo_stopped by blast
  with graceful_stop_processes_all [OF s(1)] show ?thesis by (auto simp: Wait_returns_def)
qed

theorem closed_queue_drains_witness:
  "\<exists>t. (axis_moves (table_codec []))\<^sup>*\<^sup>* demo_closed t \<and> Wait_returns t"
  using closed_queue_drains [of demo_closed "table_codec []"] by (simp add: demo_closed_def)

theorem drift_is_enforced_witness:
  "\<exists>c' m'. processJob (table_codec []) (Inr [5]) 1 2 demo_job demo_drift_coordinator = (c', None)
     \<and> dm_Monitor c' = Some m' \<and> rd_Decision (Lookup m' (copy_bytes [9])) \<noteq> DecisionUse"
proof -
  have drift: "\<not> ax_AxisPreserved (EvaluateDrift (job_AnchorVector demo_job) (job_MutatedVector demo_job)
      (dm_Dimensions demo_drift_coordinator) (dm_Threshold demo_drift_coordinator))"
    unfolding EvaluateDrift_def by (rule fold_malformed) (simp_all add: demo_job_def partitions_def)
  then obtain c' where run: "processJob (table_codec []) (Inr [5]) 1 2 demo_job demo_drift_coordinator
      = (c', None)"
    by (simp add: processJob_def Let_def eventForDrift_def axis_newEventID_def case_prod_beta
        demo_drift_coordinator_def NewDriftMonitorCoordinator_def)
  from drift_is_enforced [OF run drift, of "NewRuntimeMonitor 0"] run show ?thesis
    by (auto simp: demo_drift_coordinator_def NewDriftMonitorCoordinator_def demo_job_def)
qed

end
