(* ===== verification/Vectorstore.thy ===== *)
theory Vectorstore
  imports Axis_Worker
begin

text \<open>
  \<^verbatim>\<open>pkg/integrations/vectorstore/interceptor.go\<close>: the hook that passes retrieved vectors
  through unchanged and submits them for drift analysis. The coordinator is shared with its workers;
  \<open>env i\<close> is what the others do to it before iteration \<open>i\<close> of the loop. A panic (a submission to a
  closed queue) is \<open>None\<close>.
\<close>

record VectorRecord =
  vr_MemoryID :: id16
  vr_Embedding :: StructuralVector
  vr_PayloadText :: string

record InterceptorStats =
  is_Submitted :: u64
  is_Dropped :: u64
  is_Skipped :: u64

record InterceptorWrapper =
  iw_Coordinator :: "DriftMonitorCoordinator option"
  iw_OperatorID :: string
  iw_PipelineID :: string
  iw_PolicyHash :: hash32
  iw_submitted :: u64
  iw_dropped :: u64
  iw_skipped :: u64

definition NewInterceptorWrapper ::
  "DriftMonitorCoordinator option \<Rightarrow> string \<Rightarrow> string \<Rightarrow> hash32 \<Rightarrow> InterceptorWrapper"
where
  "NewInterceptorWrapper coord operatorID pipelineID policyHash =
     \<lparr>iw_Coordinator = coord, iw_OperatorID = operatorID, iw_PipelineID = pipelineID,
      iw_PolicyHash = policyHash, iw_submitted = 0, iw_dropped = 0, iw_skipped = 0\<rparr>"

definition ErrNilCoordinator :: go_error where
  "ErrNilCoordinator = ErrorString ''INTERCEPTOR_ERROR: DriftMonitorCoordinator required''"

definition ErrLengthMismatch :: go_error where
  "ErrLengthMismatch = ErrorString
     ''INTERCEPTOR_ERROR: record length mismatch between baseline anchors and retrieved vectors''"

text \<open>The copy is a value of its own; lists are values here.\<close>

definition cloneVector :: "StructuralVector \<Rightarrow> StructuralVector" where
  "cloneVector v = v"

definition intercept_job :: "InterceptorWrapper \<Rightarrow> VectorRecord \<Rightarrow> VectorRecord \<Rightarrow> MemoryTransformationJob" where
  "intercept_job w anchor retrieved =
     \<lparr>job_MemoryID = vr_MemoryID retrieved, job_AnchorVector = cloneVector (vr_Embedding anchor),
      job_MutatedVector = cloneVector (vr_Embedding retrieved), job_OperatorID = iw_OperatorID w,
      job_SourcePipeline = iw_PipelineID w, job_PolicySnapshot = iw_PolicyHash w\<rparr>"

text \<open>The loop over the records, from iteration \<open>i\<close> on.\<close>

fun intercept_loop ::
  "(nat \<Rightarrow> DriftMonitorCoordinator \<Rightarrow> DriftMonitorCoordinator) \<Rightarrow> nat
   \<Rightarrow> (VectorRecord \<times> VectorRecord) list \<Rightarrow> InterceptorWrapper \<Rightarrow> DriftMonitorCoordinator
   \<Rightarrow> (InterceptorWrapper \<times> DriftMonitorCoordinator) option"
where
  "intercept_loop env i [] w c = Some (w, c)"
| "intercept_loop env i ((anchor, retrieved) # ps) w c0 =
     (let c = env i c0 in
      if vr_MemoryID anchor \<noteq> vr_MemoryID retrieved then
        intercept_loop env (Suc i) ps (w\<lparr>iw_skipped := iw_skipped w + 1\<rparr>) c
      else
        (case SubmitNonBlocking (intercept_job w anchor retrieved) c of
           None \<Rightarrow> None
         | Some (c', True) \<Rightarrow>
             intercept_loop env (Suc i) ps (w\<lparr>iw_submitted := iw_submitted w + 1\<rparr>) c'
         | Some (c', False) \<Rightarrow>
             intercept_loop env (Suc i) ps (w\<lparr>iw_dropped := iw_dropped w + 1\<rparr>) c'))"

definition InterceptQueryResults ::
  "(nat \<Rightarrow> DriftMonitorCoordinator \<Rightarrow> DriftMonitorCoordinator) \<Rightarrow> InterceptorWrapper option
   \<Rightarrow> go_error option \<Rightarrow> VectorRecord list \<Rightarrow> VectorRecord list
   \<Rightarrow> (InterceptorWrapper option \<times> VectorRecord list \<times> go_error option) option"
where
  "InterceptQueryResults env wo ctxErr anchorRecords retrievedRecords =
     (case Option.bind wo (\<lambda>w. map_option (\<lambda>c. (w, c)) (iw_Coordinator w)) of
        None \<Rightarrow> Some (wo, retrievedRecords, Some ErrNilCoordinator)
      | Some (w, c) \<Rightarrow>
          if length anchorRecords \<noteq> length retrievedRecords
            then Some (wo, retrievedRecords, Some ErrLengthMismatch)
          else
            (case ctxErr of
               Some err \<Rightarrow> Some (wo, retrievedRecords, Some err)
             | None \<Rightarrow>
                 (case intercept_loop env 0 (zip anchorRecords retrievedRecords) w c of
                    None \<Rightarrow> None
                  | Some (w', c') \<Rightarrow>
                      Some (Some (w'\<lparr>iw_Coordinator := Some c'\<rparr>), retrievedRecords, None))))"

definition interceptor_Stats :: "InterceptorWrapper option \<Rightarrow> InterceptorStats" where
  "interceptor_Stats wo =
     (case wo of
        None \<Rightarrow> \<lparr>is_Submitted = 0, is_Dropped = 0, is_Skipped = 0\<rparr>
      | Some w \<Rightarrow>
          \<lparr>is_Submitted = iw_submitted w, is_Dropped = iw_dropped w, is_Skipped = iw_skipped w\<rparr>)"

definition stats_sum :: "InterceptorStats \<Rightarrow> u64" where
  "stats_sum s = is_Submitted s + is_Dropped s + is_Skipped s"

definition mismatches :: "(VectorRecord \<times> VectorRecord) list \<Rightarrow> nat" where
  "mismatches ps = length (filter (\<lambda>(a, r). vr_MemoryID a \<noteq> vr_MemoryID r) ps)"

lemma intercept_loop_counts:
  "intercept_loop env i ps w c = Some (w', c') \<Longrightarrow>
     iw_submitted w' + iw_dropped w' + iw_skipped w'
       = iw_submitted w + iw_dropped w + iw_skipped w + of_nat (length ps)
   \<and> iw_skipped w' = iw_skipped w + of_nat (mismatches ps)"
proof (induction ps arbitrary: i w c)
  case Nil
  then show ?case by (simp add: mismatches_def)
next
  case (Cons p ps)
  obtain a r where p: "p = (a, r)" by (cases p)
  show ?case
  proof (cases "vr_MemoryID a = vr_MemoryID r")
    case False
    with Cons.prems p
    have "intercept_loop env (Suc i) ps (w\<lparr>iw_skipped := iw_skipped w + 1\<rparr>) (env i c) = Some (w', c')"
      by simp
    note IH = Cons.IH [OF this]
    show ?thesis
      by (intro conjI; insert IH [THEN conjunct1] False p)
        (simp_all add: mismatches_def algebra_simps IH [THEN conjunct2])
  next
    case True
    with Cons.prems p obtain d ok where
      "intercept_loop env (Suc i) ps
         (if ok then w\<lparr>iw_submitted := iw_submitted w + 1\<rparr> else w\<lparr>iw_dropped := iw_dropped w + 1\<rparr>) d
       = Some (w', c')"
      by (fastforce split: option.splits bool.splits)
    note IH = Cons.IH [OF this]
    show ?thesis
      by (cases ok; intro conjI; insert IH [THEN conjunct1] True p)
        (simp_all add: mismatches_def algebra_simps IH [THEN conjunct2])
  qed
qed

lemma SubmitNonBlocking_open: "SubmitNonBlocking job c = None \<longleftrightarrow> ch_closed (dm_JobQueue c)"
  by (auto simp: SubmitNonBlocking_def chan_try_send_def split: option.splits if_splits)

lemma intercept_loop_closed:
  assumes "\<And>i d. ch_closed (dm_JobQueue (env i d)) = ch_closed (dm_JobQueue d)"
  shows "ch_closed (dm_JobQueue c) \<Longrightarrow> mismatches ps < length ps \<Longrightarrow> intercept_loop env i ps w c = None"
proof (induction ps arbitrary: i w c)
  case Nil
  then show ?case by (simp add: mismatches_def)
next
  case (Cons p ps)
  obtain a r where p: "p = (a, r)" by (cases p)
  with Cons assms show ?case
    using SubmitNonBlocking_open [of "intercept_job w a r" "env i c", THEN iffD2]
    by (cases "vr_MemoryID a = vr_MemoryID r") (auto simp: Let_def mismatches_def)
qed

section \<open>Properties\<close>

text \<open>
  C36: interception is transparent. Whatever the workers do in between and whatever the outcome, a call
  that returns gives back the retrieved records untouched; with an error nothing was counted, and
  without one every record was counted exactly once, as submitted, dropped or skipped (counters modulo
  2 to the 64), the skipped ones being those whose identifiers differ from their anchors'.
\<close>

theorem interception_is_transparent:
  assumes "InterceptQueryResults env wo ctxErr anchors retrieved = Some (wo', records, err)"
  shows "records = retrieved
    \<and> (if err = None
       then stats_sum (interceptor_Stats wo') = stats_sum (interceptor_Stats wo) + of_nat (length retrieved)
         \<and> is_Skipped (interceptor_Stats wo')
             = is_Skipped (interceptor_Stats wo) + of_nat (mismatches (zip anchors retrieved))
       else wo' = wo)"
  using assms
  by (auto simp: InterceptQueryResults_def interceptor_Stats_def stats_sum_def bind_eq_Some_conv
      dest!: intercept_loop_counts split: option.splits if_splits)

text \<open>
  After the shutdown of the drift monitor the hook panics. Once the job queue is closed, a query
  whose results match at least one anchor does not return at all, although the hook is meant never to
  interfere with the retrieval.
\<close>

theorem interception_panics_after_stop:
  assumes "\<And>i d. ch_closed (dm_JobQueue (env i d)) = ch_closed (dm_JobQueue d)"
    and "iw_Coordinator w = Some c" and "StopAccepting c = Some c'"
    and "length anchors = length retrieved" and "mismatches (zip anchors retrieved) < length retrieved"
  shows "InterceptQueryResults env (Some (w\<lparr>iw_Coordinator := Some c'\<rparr>)) None anchors retrieved = None"
proof -
  have "ch_closed (dm_JobQueue c')"
    using assms(3) by (auto simp: StopAccepting_def chan_close_def split: if_splits)
  with assms(1,4,5) show ?thesis
    by (simp add: InterceptQueryResults_def intercept_loop_closed)
qed

definition demo_vector :: "byte \<Rightarrow> VectorRecord" where
  "demo_vector n = \<lparr>vr_MemoryID = copy_bytes [n], vr_Embedding = replicate 128 (FFin 1), vr_PayloadText = ''t''\<rparr>"

definition demo_interceptor :: InterceptorWrapper where
  "demo_interceptor = NewInterceptorWrapper (Some demo_drift_coordinator) ''op'' ''pipe'' zero_bytes"

theorem interception_is_transparent_witness:
  "\<exists>wo'. InterceptQueryResults (\<lambda>i c. c) (Some demo_interceptor) None [demo_vector 1, demo_vector 2]
      [demo_vector 1, demo_vector 3] = Some (wo', [demo_vector 1, demo_vector 3], None)
    \<and> stats_sum (interceptor_Stats wo') = stats_sum (interceptor_Stats (Some demo_interceptor)) + 2"
proof -
  obtain wo' where run: "InterceptQueryResults (\<lambda>i c. c) (Some demo_interceptor) None
      [demo_vector 1, demo_vector 2] [demo_vector 1, demo_vector 3]
      = Some (wo', [demo_vector 1, demo_vector 3], None)"
    by (simp add: InterceptQueryResults_def demo_interceptor_def NewInterceptorWrapper_def demo_vector_def
        demo_drift_coordinator_def NewDriftMonitorCoordinator_def make_chan_def SubmitNonBlocking_def
        chan_try_send_def)
  from interception_is_transparent [OF run] run show ?thesis by auto
qed

theorem interception_panics_after_stop_witness:
  "InterceptQueryResults (\<lambda>i c. c) (Some (demo_interceptor\<lparr>iw_Coordinator :=
      StopAccepting demo_drift_coordinator\<rparr>)) None [demo_vector 1] [demo_vector 1] = None"
proof -
  obtain c' where "StopAccepting demo_drift_coordinator = Some c'"
    by (simp add: StopAccepting_def chan_close_def demo_drift_coordinator_def
        NewDriftMonitorCoordinator_def make_chan_def)
  then show ?thesis
    using interception_panics_after_stop [of "\<lambda>i c. c" demo_interceptor demo_drift_coordinator c'
        "[demo_vector 1]" "[demo_vector 1]"]
    by (simp add: demo_interceptor_def NewInterceptorWrapper_def mismatches_def)
qed

end
