(* ===== verification/Float_Bounds.thy ===== *)
theory Float_Bounds
  imports Go_Float
begin

text \<open>
  Error analysis for \<open>Go_Float\<close>: rounding is monotone with respect to powers of two, and in the
  normal range its relative error is at most half a unit in the last place. The powers of two are
  written \<open>pow2 k\<close> with an integer exponent.
\<close>

section \<open>Rounding to an integer\<close>

lemma round_even_error: "\<bar>of_int (round_even x) - x\<bar> \<le> 1 / 2"
  using floor_correct [of x] by (auto simp: round_even_def Let_def)

lemma round_even_ge: "of_int k \<le> x \<Longrightarrow> k \<le> round_even x"
  using le_floor_iff [of k x] by (auto simp: round_even_def Let_def)

lemma round_even_le:
  assumes "x \<le> of_int k"
  shows "round_even x \<le> k"
proof (cases "x = of_int k")
  case False
  with assms have "\<lfloor>x\<rfloor> < k" by (simp add: floor_less_iff)
  then show ?thesis by (auto simp: round_even_def Let_def)
qed simp

section \<open>Powers of two\<close>

definition pow2 :: "int \<Rightarrow> real" where
  "pow2 k = 2 powr of_int k"

lemma pow2_pos [simp]: "0 < pow2 k"
  by (simp add: pow2_def)

lemma pow2_nonneg [simp]: "0 \<le> pow2 k" "pow2 k \<noteq> 0" "\<not> pow2 k \<le> 0" "\<not> pow2 k < 0"
  by (simp_all add: pow2_def not_le not_less)

lemma pow2_leD: "pow2 k \<le> x \<Longrightarrow> 0 \<le> x"
  by (rule order_trans [OF pow2_nonneg(1)])

lemma pow2_add: "pow2 (a + b) = pow2 a * pow2 b"
  by (simp add: pow2_def powr_add)

lemma sqrt_pow2: "sqrt (pow2 (2 * k)) = pow2 k"
  using pow2_add [of k k] by (intro real_sqrt_unique) (simp_all add: power2_eq_square)

lemma pow2_diff: "pow2 (a - b) = pow2 a / pow2 b"
  by (simp add: pow2_def powr_diff)

lemma pow2_le [simp]: "pow2 a \<le> pow2 b \<longleftrightarrow> a \<le> b"
  by (simp add: pow2_def)

lemma pow2_0 [simp]: "pow2 0 = 1" "pow2 1 = 2" "pow2 (- 1) = 1 / 2"
  by (simp_all add: pow2_def powr_minus_divide)

lemma pow2_nat: "0 \<le> k \<Longrightarrow> pow2 k = of_int (2 ^ nat k)"
  by (simp add: pow2_def powr_real_of_int)

lemma pow2_quotient: "b \<le> a \<Longrightarrow> of_int (2 ^ nat (a - b)) = pow2 a / pow2 b"
  using pow2_nat [of "a - b"] by (simp add: pow2_diff)

lemma pow2_numeral: "pow2 (numeral n) = 2 ^ numeral n" "pow2 (- numeral n) = 1 / 2 ^ numeral n"
  by (simp_all add: pow2_def powr_minus_divide)

text \<open>The exponent of the last place of a rounded value.\<close>

definition ulp_exp :: "nat \<Rightarrow> int \<Rightarrow> real \<Rightarrow> int" where
  "ulp_exp p emin x = max emin (\<lfloor>log 2 \<bar>x\<bar>\<rfloor> - int p + 1)"

lemma fround_alt:
  "fround p emin etop x =
     (if x = 0 then FFin 0
      else let v = of_int (round_even (x / pow2 (ulp_exp p emin x))) * pow2 (ulp_exp p emin x)
        in if \<bar>v\<bar> > (2 ^ p - 1) * pow2 etop then FInf (0 < x) else FFin v)"
  by (simp add: fround_def ulp_exp_def pow2_def Let_def)

lemma log_bounds:
  assumes "0 < x"
  shows "pow2 \<lfloor>log 2 x\<rfloor> \<le> x" and "x < pow2 (\<lfloor>log 2 x\<rfloor> + 1)"
    and "pow2 k \<le> x \<longleftrightarrow> k \<le> \<lfloor>log 2 x\<rfloor>"
proof -
  show "pow2 k \<le> x \<longleftrightarrow> k \<le> \<lfloor>log 2 x\<rfloor>" for k
    using assms by (simp add: pow2_def le_floor_iff le_log_iff)
  from this [of "\<lfloor>log 2 x\<rfloor>"] this [of "\<lfloor>log 2 x\<rfloor> + 1"]
  show "pow2 \<lfloor>log 2 x\<rfloor> \<le> x" "x < pow2 (\<lfloor>log 2 x\<rfloor> + 1)" by linarith+
qed

section \<open>Signs and bounds\<close>

lemma fround_sign:
  assumes "fround p emin etop x = FFin v"
  shows "0 \<le> x \<Longrightarrow> 0 \<le> v" and "x \<le> 0 \<Longrightarrow> v \<le> 0"
proof -
  let ?e = "pow2 (ulp_exp p emin x)"
  from assms have v: "x = 0 \<and> v = 0 \<or> v = of_int (round_even (x / ?e)) * ?e"
    by (auto simp: fround_alt Let_def split: if_splits)
  { assume "0 \<le> x"
    then have "0 \<le> round_even (x / ?e)" by (intro round_even_ge) simp
    then show "0 \<le> v" using v by auto }
  { assume "x \<le> 0"
    then have "round_even (x / ?e) \<le> 0" by (intro round_even_le) (simp add: divide_le_0_iff)
    then show "v \<le> 0" using v by (auto simp: mult_le_0_iff) }
qed

lemma fround_ge:
  assumes "fround p emin etop x = FFin v" and "pow2 k \<le> x" and "emin \<le> k" and "0 < p"
  shows "pow2 k \<le> v"
proof -
  let ?L = "\<lfloor>log 2 x\<rfloor>" and ?e = "ulp_exp p emin x"
  from assms(2) have x: "0 < x" by (rule less_le_trans [OF pow2_pos])
  with assms(2) have L: "k \<le> ?L" by (simp add: log_bounds(3))
  with x assms(3,4) have e: "?e \<le> ?L" by (simp add: ulp_exp_def)
  have "of_int (2 ^ nat (?L - ?e)) \<le> x / pow2 ?e"
    unfolding pow2_quotient [OF e] using log_bounds(1) [OF x] by (intro divide_right_mono) simp_all
  then have "of_int (2 ^ nat (?L - ?e)) \<le> real_of_int (round_even (x / pow2 ?e))"
    by (simp only: of_int_le_iff round_even_ge)
  then have "pow2 (?L - ?e) * pow2 ?e \<le> of_int (round_even (x / pow2 ?e)) * pow2 ?e"
    using e by (intro mult_right_mono) (simp_all add: pow2_nat)
  then have "pow2 ?L \<le> of_int (round_even (x / pow2 ?e)) * pow2 ?e" by (simp flip: pow2_add)
  with assms(1) x L show ?thesis
    by (auto simp: fround_alt Let_def intro: order_trans [of _ "pow2 ?L"] split: if_splits)
qed

lemma fround_le:
  assumes "0 < x" and "x \<le> pow2 k" and "emin \<le> k" and "0 < p"
    and "pow2 k \<le> (2 ^ p - 1) * pow2 etop"
  obtains v where "fround p emin etop x = FFin v" and "0 \<le> v" and "v \<le> pow2 k"
proof -
  let ?e = "ulp_exp p emin x"
  let ?v = "of_int (round_even (x / pow2 ?e)) * pow2 ?e"
  have "pow2 \<lfloor>log 2 x\<rfloor> \<le> pow2 k" using log_bounds(1) [OF assms(1)] assms(2) by linarith
  with assms(1,3,4) have e: "?e \<le> k" by (simp add: ulp_exp_def)
  have "x / pow2 ?e \<le> of_int (2 ^ nat (k - ?e))"
    unfolding pow2_quotient [OF e] using assms(2) by (intro divide_right_mono) simp_all
  then have "real_of_int (round_even (x / pow2 ?e)) \<le> of_int (2 ^ nat (k - ?e))"
    by (simp only: of_int_le_iff round_even_le)
  then have "?v \<le> pow2 (k - ?e) * pow2 ?e"
    using e by (intro mult_right_mono) (simp_all add: pow2_nat)
  then have le: "?v \<le> pow2 k" by (simp flip: pow2_add)
  have "0 \<le> round_even (x / pow2 ?e)" using assms(1) by (intro round_even_ge) simp
  then have "0 \<le> ?v" by simp
  with le assms(1,5) that show thesis by (simp add: fround_alt Let_def)
qed

section \<open>Relative error\<close>

lemma fround_error:
  assumes "fround p emin etop x = FFin v" and "pow2 (emin + int p - 1) \<le> x"
  shows "\<bar>v - x\<bar> \<le> x * pow2 (- int p)"
proof -
  let ?L = "\<lfloor>log 2 x\<rfloor>" and ?e = "ulp_exp p emin x"
  from assms(2) have x: "0 < x" by (rule less_le_trans [OF pow2_pos])
  with assms(2) have "emin + int p - 1 \<le> ?L" by (simp add: log_bounds(3))
  with x have e: "?e = ?L - int p + 1" by (simp add: ulp_exp_def)
  from assms(1) x have "v = of_int (round_even (x / pow2 ?e)) * pow2 ?e"
    by (auto simp: fround_alt Let_def split: if_splits)
  then have "\<bar>v - x\<bar> = \<bar>of_int (round_even (x / pow2 ?e)) - x / pow2 ?e\<bar> * pow2 ?e"
    by (simp add: abs_mult_pos left_diff_distrib)
  also have "\<dots> \<le> 1 / 2 * pow2 ?e"
    by (intro mult_right_mono round_even_error) simp
  also have "\<dots> = pow2 ?L * pow2 (- int p)"
    unfolding e by (simp add: pow2_def powr_add powr_diff powr_minus_divide)
  also have "\<dots> \<le> x * pow2 (- int p)"
    using log_bounds(1) [OF x] by (intro mult_right_mono) simp_all
  finally show ?thesis .
qed

section \<open>Symmetry\<close>

lemma round_even_minus: "round_even (- x) = - round_even x"
proof (cases "x = of_int \<lfloor>x\<rfloor>")
  case True
  then show ?thesis by (metis of_int_minus round_even_int)
next
  case False
  then have "\<lfloor>- x\<rfloor> = - \<lfloor>x\<rfloor> - 1" by (simp add: floor_minus ceiling_altdef)
  then show ?thesis by (auto simp: round_even_def Let_def)
qed

lemma fround_minus: "fround p emin etop (- x) = flt_neg (fround p emin etop x)"
proof -
  have "ulp_exp p emin (- x) = ulp_exp p emin x" by (simp add: ulp_exp_def)
  moreover have "- x / y = - (x / y)" for y :: real by simp
  ultimately show ?thesis by (auto simp: fround_alt Let_def round_even_minus)
qed

lemma flt_neg_neg [simp]: "flt_neg (flt_neg a) = a"
  by (cases a) simp_all

section \<open>Positive values of known magnitude\<close>

definition pos :: "int \<Rightarrow> int \<Rightarrow> flt \<Rightarrow> bool" where
  "pos l h a \<longleftrightarrow> (\<exists>r. a = FFin r \<and> pow2 l \<le> r \<and> r \<le> pow2 h)"

lemma posI: "pow2 l \<le> r \<Longrightarrow> r \<le> pow2 h \<Longrightarrow> pos l h (FFin r)"
  by (simp add: pos_def)

lemma posE:
  assumes "pos l h a"
  obtains r where "a = FFin r" and "pow2 l \<le> r" and "r \<le> pow2 h" and "0 < r"
  using assms less_le_trans [OF pow2_pos] by (auto simp: pos_def)

lemma pos_weaken: "pos l h a \<Longrightarrow> l' \<le> l \<Longrightarrow> h \<le> h' \<Longrightarrow> pos l' h' a"
proof -
  assume a: "pos l h a" and le: "l' \<le> l" "h \<le> h'"
  from a obtain r where r: "a = FFin r" "pow2 l \<le> r" "r \<le> pow2 h" by (auto simp: pos_def)
  have "pow2 l' \<le> r" by (rule order_trans [OF _ r(2)]) (simp add: le)
  moreover have "r \<le> pow2 h'" by (rule order_trans [OF r(3)]) (simp add: le)
  ultimately show ?thesis using r(1) by (simp add: pos_def)
qed

lemma pos_fround:
  assumes "pow2 l \<le> x" and "x \<le> pow2 h" and "emin \<le> l" and "0 < p"
    and "pow2 h \<le> (2 ^ p - 1) * pow2 etop"
  shows "pos l h (fround p emin etop x)"
proof -
  have x: "0 < x" using assms(1) by (rule less_le_trans [OF pow2_pos])
  have "l \<le> h" using assms(1,2) by (metis order_trans pow2_le)
  with x assms obtain v where "fround p emin etop x = FFin v" "v \<le> pow2 h"
    by (elim fround_le [where p = p and emin = emin and etop = etop]) auto
  with fround_ge [OF this(1) assms(1,3,4)] show ?thesis by (simp add: pos_def)
qed

lemma pow2_top64: "k \<le> 1023 \<Longrightarrow> pow2 k \<le> (2 ^ 53 - 1) * pow2 971"
  and pow2_top32: "k \<le> 127 \<Longrightarrow> pow2 k \<le> (2 ^ 24 - 1) * pow2 104"
proof -
  assume "k \<le> 1023"
  then have "pow2 k \<le> pow2 1023" by simp
  also have "pow2 1023 = 2 ^ 52 * pow2 971" using pow2_add [of 52 971] by (simp add: pow2_numeral)
  also have "\<dots> \<le> (2 ^ 53 - 1) * pow2 971" by (intro mult_right_mono) simp_all
  finally show "pow2 k \<le> (2 ^ 53 - 1) * pow2 971" .
next
  assume "k \<le> 127"
  then have "pow2 k \<le> pow2 127" by simp
  also have "pow2 127 = 2 ^ 23 * pow2 104" using pow2_add [of 23 104] by (simp add: pow2_numeral)
  also have "\<dots> \<le> (2 ^ 24 - 1) * pow2 104" by (intro mult_right_mono) simp_all
  finally show "pow2 k \<le> (2 ^ 24 - 1) * pow2 104" .
qed

lemma pos_round64: "pow2 l \<le> x \<Longrightarrow> x \<le> pow2 h \<Longrightarrow> - 1074 \<le> l \<Longrightarrow> h \<le> 1023 \<Longrightarrow> pos l h (round64 x)"
  unfolding round64_def by (rule pos_fround [OF _ _ _ _ pow2_top64]) simp_all

lemma pos_round32: "pow2 l \<le> x \<Longrightarrow> x \<le> pow2 h \<Longrightarrow> - 149 \<le> l \<Longrightarrow> h \<le> 127 \<Longrightarrow> pos l h (round32 x)"
  unfolding round32_def by (rule pos_fround [OF _ _ _ _ pow2_top32]) simp_all

lemma pow2_mult_mono:
  assumes "pow2 l \<le> x" and "x \<le> pow2 h" and "pow2 l' \<le> y" and "y \<le> pow2 h'"
  shows "pow2 (l + l') \<le> x * y" and "x * y \<le> pow2 (h + h')"
  using assms pow2_leD [OF assms(1)] pow2_leD [OF assms(3)]
  by (auto simp: pow2_add intro: mult_mono)

lemma pow2_divide_mono:
  assumes "pow2 l \<le> x" and "x \<le> pow2 h" and "pow2 l' \<le> y" and "y \<le> pow2 h'"
  shows "pow2 (l - h') \<le> x / y" and "x / y \<le> pow2 (h - l')"
proof -
  have y: "0 < y" using assms(3) by (rule less_le_trans [OF pow2_pos])
  show "pow2 (l - h') \<le> x / y" "x / y \<le> pow2 (h - l')"
    unfolding pow2_diff using assms y pow2_leD [OF assms(1)] by (auto intro: frac_le)
qed

lemma pos_mul64:
  "pos l h a \<Longrightarrow> pos l' h' b \<Longrightarrow> - 1074 \<le> l + l' \<Longrightarrow> h + h' \<le> 1023 \<Longrightarrow> pos (l + l') (h + h') (flt_mul round64 a b)"
  by (auto elim!: posE intro!: pos_round64 pow2_mult_mono)

lemma pos_mul32:
  "pos l h a \<Longrightarrow> pos l' h' b \<Longrightarrow> - 149 \<le> l + l' \<Longrightarrow> h + h' \<le> 127 \<Longrightarrow> pos (l + l') (h + h') (flt_mul round32 a b)"
  by (auto elim!: posE intro!: pos_round32 pow2_mult_mono)

lemma pos_div64:
  "pos l h a \<Longrightarrow> pos l' h' b \<Longrightarrow> - 1074 \<le> l - h' \<Longrightarrow> h - l' \<le> 1023 \<Longrightarrow> pos (l - h') (h - l') (flt_div round64 a b)"
  by (auto elim!: posE intro!: pos_round64 pow2_divide_mono)

lemma pos_sqrt:
  assumes "pos (2 * l) (2 * h) a" and "- 1074 \<le> l" and "h \<le> 1023"
  shows "pos l h (flt_sqrt a)"
proof -
  from assms(1) obtain r where r: "a = FFin r" "pow2 (2 * l) \<le> r" "r \<le> pow2 (2 * h)" "0 < r" by (rule posE)
  from r(2,3) have "sqrt (pow2 (2 * l)) \<le> sqrt r" "sqrt r \<le> sqrt (pow2 (2 * h))"
    by (simp_all only: real_sqrt_le_iff)
  then have "pow2 l \<le> sqrt r" "sqrt r \<le> pow2 h" by (simp_all only: sqrt_pow2)
  with r assms(2,3) show ?thesis by (simp add: pos_round64)
qed

lemma flt_neg_mul:
  "flt_mul round32 (flt_neg a) b = flt_neg (flt_mul round32 a b)"
  "flt_mul round32 a (flt_neg b) = flt_neg (flt_mul round32 a b)"
  if "a = FFin x" "b = FFin y" for x y
  using that fround_minus [of 24 "- 149" 104 "x * y"] by (simp_all add: round32_def)

text \<open>
  A sum of at most 128 positive values: the rounding errors do not reach a factor of two.
\<close>

lemma pos_sum_aux:
  assumes "\<forall>a\<in>set as. pos l h a" and "- 1022 \<le> l" and "h \<le> 1000" and "n + length as \<le> 128"
    and "pow2 l \<le> s" and "s \<le> pow2 h * (2 * real n - 1)" and "0 < n"
  shows "\<exists>r. foldl (flt_add round64) (FFin s) as = FFin r \<and> pow2 l \<le> r
    \<and> r \<le> pow2 h * (2 * real (n + length as) - 1)"
  using assms(1,4-7)
proof (induction as arbitrary: s n)
  case Nil
  then show ?case by simp
next
  case (Cons a as)
  then obtain x where x: "a = FFin x" "pow2 l \<le> x" "x \<le> pow2 h" "0 < x" by (auto elim: posE)
  have s: "0 \<le> s" using Cons.prems(3) by (rule pow2_leD)
  have lo: "pow2 l \<le> s + x" using s x(2) by simp
  have n: "2 * real n \<le> 256" using Cons.prems(2) by simp
  have hi: "s + x \<le> pow2 h * (2 * real n)" using Cons.prems(4) x(3) by (simp add: algebra_simps)
  also have "\<dots> \<le> pow2 h * pow2 8" using n by (intro mult_left_mono) (simp_all add: pow2_numeral)
  finally have "s + x \<le> pow2 (h + 8)" by (simp add: pow2_add)
  moreover have "pow2 (- 1022) \<le> s + x" by (rule order_trans [OF _ lo]) (simp add: assms(2))
  moreover have "pos l (h + 8) (round64 (s + x))"
    using lo calculation(1) assms(2,3) by (intro pos_round64) auto
  ultimately obtain r where r: "round64 (s + x) = FFin r" "pow2 l \<le> r" "r - (s + x) \<le> (s + x) * pow2 (- 53)"
    using fround_error [of 53 "- 1074" 971 "s + x"] by (auto elim!: posE simp: round64_def abs_le_iff)
  have "(s + x) * pow2 (- 53) \<le> pow2 h * (2 * real n) * pow2 (- 53)" using hi by (intro mult_right_mono) simp_all
  also have "\<dots> = pow2 h * (2 * real n * pow2 (- 53))" by simp
  also have "\<dots> \<le> pow2 h * 1" using n by (intro mult_left_mono) (simp_all add: pow2_numeral)
  finally have "r \<le> pow2 h * (2 * real (Suc n) - 1)" using r(3) hi by (simp add: algebra_simps)
  with Cons.IH [of "Suc n" r] Cons.prems(1,2) r(1,2) x(1) show ?case by simp
qed

lemma pos_sum:
  assumes "\<forall>a\<in>set as. pos l h a" and "- 1022 \<le> l" and "h \<le> 1000" and "as \<noteq> []" and "length as \<le> 128"
  shows "pos l (h + 8) (foldl (flt_add round64) (FFin 0) as)"
proof -
  obtain a as' where as: "as = a # as'" using assms(4) by (cases as) auto
  then have "pos l h a" using assms(1) by simp
  then obtain x where x: "a = FFin x" "pow2 l \<le> x" "x \<le> pow2 h" by (rule posE)
  then have "pos l h (round64 x)" using assms(2,3) by (intro pos_round64) auto
  then obtain s where s: "round64 x = FFin s" "pow2 l \<le> s" "s \<le> pow2 h" by (rule posE)
  have "\<exists>r. foldl (flt_add round64) (FFin s) as' = FFin r \<and> pow2 l \<le> r
      \<and> r \<le> pow2 h * (2 * real (1 + length as') - 1)"
    using assms s by (intro pos_sum_aux) (auto simp: as)
  then obtain r where r: "foldl (flt_add round64) (FFin s) as' = FFin r" "pow2 l \<le> r"
      "r \<le> pow2 h * (2 * real (1 + length as') - 1)" by blast
  have "2 * real (1 + length as') - 1 \<le> pow2 8" using assms(5) by (simp add: as pow2_numeral)
  then have "pow2 h * (2 * real (1 + length as') - 1) \<le> pow2 h * pow2 8" by (intro mult_left_mono) simp_all
  from order_trans [OF r(3) this] have "r \<le> pow2 (h + 8)" by (simp add: pow2_add)
  with r(1,2) s(1) x(1) show ?thesis by (simp add: as pos_def)
qed

section \<open>Values of either sign\<close>

lemma fround_least: "fround p emin etop x = FFin v \<Longrightarrow> 0 \<le> x \<Longrightarrow> v = 0 \<or> pow2 emin \<le> v"
proof -
  assume fr: "fround p emin etop x = FFin v" and x: "0 \<le> x"
  let ?e = "ulp_exp p emin x"
  from fr have v: "v = 0 \<or> v = of_int (round_even (x / pow2 ?e)) * pow2 ?e"
    by (auto simp: fround_alt Let_def split: if_splits)
  have "0 \<le> round_even (x / pow2 ?e)" using x by (intro round_even_ge) simp
  then consider "round_even (x / pow2 ?e) = 0" | "1 \<le> real_of_int (round_even (x / pow2 ?e))" by linarith
  then show ?thesis
  proof cases
    case 1
    with v show ?thesis by auto
  next
    case 2
    have "pow2 emin \<le> 1 * pow2 ?e" by (simp add: ulp_exp_def)
    also have "\<dots> \<le> of_int (round_even (x / pow2 ?e)) * pow2 ?e"
      using 2 by (intro mult_right_mono) simp_all
    finally show ?thesis using v by auto
  qed
qed

lemma fround_top: "fround p emin etop x = FFin v \<Longrightarrow> v \<le> (2 ^ p - 1) * pow2 etop"
  by (auto simp: fround_alt Let_def split: if_splits)

lemma fround_nonpos: "x \<le> 0 \<Longrightarrow> 0 \<le> t \<Longrightarrow> \<not> flt_gt (fround p emin etop x) (FFin t)"
proof (cases "fround p emin etop x")
  case (FFin v)
  assume "x \<le> 0" "0 \<le> t"
  with FFin fround_sign(2) [OF FFin] show ?thesis by simp
next
  case (FInf s)
  assume "x \<le> 0"
  with FInf have "\<not> s" by (auto simp: fround_alt Let_def split: if_splits)
  with FInf show ?thesis by simp
qed simp

lemma fround_Inf: "fround p emin etop x = FInf s \<Longrightarrow> 0 \<le> x \<Longrightarrow> s"
  by (auto simp: fround_alt Let_def split: if_splits)

lemma fround_not_NaN [simp]: "fround p emin etop x \<noteq> FNaN"
  by (auto simp: fround_alt Let_def)

text \<open>A binary64 operation whose exact result is known up to powers of two.\<close>

lemma round64_between:
  assumes "pow2 a \<le> x" and "x \<le> pow2 b" and "- 1022 \<le> a" and "b \<le> 1023"
  obtains v where "round64 x = FFin v" and "pow2 a \<le> v" and "v \<le> pow2 b"
    and "\<bar>v - x\<bar> \<le> x * pow2 (- 53)"
proof -
  from assms(1) have "0 < x" by (rule less_le_trans [OF pow2_pos])
  moreover have ab: "a \<le> b" using assms(1,2) by (metis order_trans pow2_le)
  ultimately obtain v where v: "fround 53 (- 1074) 971 x = FFin v" "v \<le> pow2 b"
    using assms(2-4) pow2_top64 [OF assms(4)] by (elim fround_le [where p = 53 and emin = "- 1074" and etop = 971]) auto
  moreover have "pow2 a \<le> v"
    using fround_ge [OF v(1) assms(1)] assms(3) by simp
  moreover have "pow2 (- 1022) \<le> x" using assms(1,3) by (meson order_trans pow2_le)
  then have "\<bar>v - x\<bar> \<le> x * pow2 (- 53)"
    using fround_error [OF v(1)] by simp
  ultimately show thesis using that by (simp add: round64_def)
qed

end
