(* ===== verification/Axis_Numeric.thy ===== *)
theory Axis_Numeric
  imports Axis Float_Bounds
begin

text \<open>
  The drift check of \<^verbatim>\<open>pkg/axis/integrity.go\<close> under rounding: what it says about a vector
  compared with itself, for every vector of 128 \<^verbatim>\<open>float32\<close> values, infinities and NaNs included.
\<close>

section \<open>The norm of a partition\<close>

text \<open>A sum of \<open>n\<close> squares: NaN, infinite, zero, or far from underflow and overflow.\<close>

fun norm_ok :: "nat \<Rightarrow> flt \<Rightarrow> bool" where
  "norm_ok n (FFin r) \<longleftrightarrow> r = 0 \<or> pow2 (- 149) \<le> r \<and> r \<le> pow2 (128 + int n)"
| "norm_ok n (FInf s) \<longleftrightarrow> s"
| "norm_ok n FNaN \<longleftrightarrow> True"

abbreviation square32 :: "flt \<Rightarrow> flt" where
  "square32 x \<equiv> flt_mul round32 x x"

lemma norm_ok_square: "norm_ok 0 (square32 x)"
proof (cases x)
  case (FFin a)
  show ?thesis
  proof (cases "round32 (a * a)")
    case (FFin v)
    have "v \<le> (2 ^ 24 - 1) * pow2 104" using FFin by (auto simp: round32_def dest: fround_top)
    also have "\<dots> \<le> 2 ^ 24 * pow2 104" by (intro mult_right_mono) simp_all
    also have "\<dots> = pow2 128" using pow2_add [of 24 104] by (simp add: pow2_numeral)
    finally show ?thesis
      using FFin fround_least [of 24 "- 149" 104 "a * a" v] \<open>x = FFin a\<close> by (auto simp: round32_def)
  next
    case (FInf s)
    with \<open>x = FFin a\<close> show ?thesis by (auto simp: round32_def dest: fround_Inf)
  next
    case FNaN
    with \<open>x = FFin a\<close> show ?thesis by simp
  qed
qed simp_all

lemma norm_ok_add:
  assumes "norm_ok n a" and "norm_ok 0 b" and "n \<le> 800"
  shows "norm_ok (Suc n) (flt_add round64 a b)"
    and "flt_add round64 a b = FFin 0 \<longleftrightarrow> a = FFin 0 \<and> b = FFin 0"
proof -
  have "norm_ok (Suc n) (flt_add round64 a b)
    \<and> (flt_add round64 a b = FFin 0 \<longleftrightarrow> a = FFin 0 \<and> b = FFin 0)"
  proof (cases "\<exists>r q. a = FFin r \<and> b = FFin q")
    case True
    then obtain r q where ab: "a = FFin r" "b = FFin q" by blast
    with assms have r: "r = 0 \<or> pow2 (- 149) \<le> r" "r \<le> pow2 (128 + int n)" "0 \<le> r"
      and q: "q = 0 \<or> pow2 (- 149) \<le> q" "q \<le> pow2 128" "0 \<le> q"
      by (auto dest: pow2_leD)
    show ?thesis
    proof (cases "r = 0 \<and> q = 0")
      case True
      with ab show ?thesis by simp
    next
      case False
      with r q have lo: "pow2 (- 149) \<le> r + q" by linarith
      have "q \<le> pow2 (128 + int n)" by (rule order_trans [OF q(2)]) simp
      with r have hi: "r + q \<le> pow2 (129 + int n)"
        using pow2_add [of 1 "128 + int n"] pow2_numeral(1) [of num.One] by simp
      obtain v where "round64 (r + q) = FFin v" "pow2 (- 149) \<le> v" "v \<le> pow2 (129 + int n)"
        using round64_between [OF lo hi] assms(3) by auto
      with ab False show ?thesis using pow2_pos [of "- 149"] by auto
    qed
  next
    case False
    with assms(1,2) show ?thesis by (cases a; cases b) auto
  qed
  then show "norm_ok (Suc n) (flt_add round64 a b)"
    and "flt_add round64 a b = FFin 0 \<longleftrightarrow> a = FFin 0 \<and> b = FFin 0" by blast+
qed

definition add_square :: "StructuralVector \<Rightarrow> flt \<Rightarrow> int \<Rightarrow> flt" where
  "add_square v n i = flt_add round64 n (square32 (v ! nat i))"

lemma foldl_cosine_same:
  "foldl (cosine_step v v) (a, a, a) is = (foldl (add_square v) a is, foldl (add_square v) a is, foldl (add_square v) a is)"
  by (induction "is" arbitrary: a) (simp_all add: cosine_step_def add_square_def Let_def)

lemma norm_ok_sum:
  "norm_ok n a \<Longrightarrow> n + length is \<le> 800 \<Longrightarrow>
     norm_ok (n + length is) (foldl (add_square v) a is)
   \<and> (foldl (add_square v) a is = FFin 0 \<longleftrightarrow> a = FFin 0 \<and> (\<forall>i\<in>set is. square32 (v ! nat i) = FFin 0))"
proof (induction "is" arbitrary: n a)
  case Nil
  then show ?case by simp
next
  case (Cons i "is")
  then have "norm_ok (Suc n) (add_square v a i)"
    and "add_square v a i = FFin 0 \<longleftrightarrow> a = FFin 0 \<and> square32 (v ! nat i) = FFin 0"
    using norm_ok_add [of n a "square32 (v ! nat i)"] norm_ok_square by (auto simp: add_square_def)
  with Cons.IH [of "Suc n" "add_square v a i"] Cons.prems(2) show ?case by auto
qed

section \<open>The similarity of a vector with itself\<close>

lemma self_quotient:
  fixes r s p u :: real
  assumes "0 < r" and "0 \<le> u" and "u \<le> 1 / 8" and "\<bar>s - sqrt r\<bar> \<le> sqrt r * u" and "\<bar>p - s * s\<bar> \<le> s * s * u"
  shows "1 - 3 * u \<le> r / p" and "r / p \<le> 2" and "0 < p"
proof -
  let ?q = "sqrt r"
  have q: "0 < ?q" "?q * ?q = r" using assms(1) by simp_all
  have s: "?q * (1 - u) \<le> s" "s \<le> ?q * (1 + u)" using assms(4) by (auto simp: abs_le_iff algebra_simps)
  have u: "0 \<le> 1 - u" "0 \<le> 1 + u" using assms(2,3) by auto
  have s0: "0 \<le> s" using s(1) q(1) u(1) by (meson less_imp_le mult_nonneg_nonneg order_trans)
  have hi: "s * s \<le> r * (1 + u) ^ 2"
  proof -
    have "s * s \<le> (?q * (1 + u)) * (?q * (1 + u))" using s(2) s0 by (intro mult_mono) auto
    also have "\<dots> = (?q * ?q) * (1 + u) ^ 2" by (simp add: power2_eq_square ac_simps)
    finally show ?thesis using q(2) by simp
  qed
  have lo: "r * (1 - u) ^ 2 \<le> s * s"
  proof -
    have "(?q * (1 - u)) * (?q * (1 - u)) \<le> s * s" using s(1) q(1) u(1) s0 by (intro mult_mono) auto
    moreover have "(?q * (1 - u)) * (?q * (1 - u)) = (?q * ?q) * (1 - u) ^ 2"
      by (simp add: power2_eq_square ac_simps)
    ultimately show ?thesis using q(2) by simp
  qed
  have "p \<le> s * s * (1 + u)" using assms(5) by (auto simp: abs_le_iff algebra_simps)
  also have "\<dots> \<le> r * (1 + u) ^ 2 * (1 + u)" using hi u(2) by (intro mult_right_mono)
  finally have p_hi: "p \<le> r * (1 + u) ^ 3" by (simp add: power3_eq_cube power2_eq_square ac_simps)
  have "r * (1 - u) ^ 2 * (1 - u) \<le> s * s * (1 - u)" using lo u(1) by (intro mult_right_mono)
  also have "\<dots> \<le> p" using assms(5) by (auto simp: abs_le_iff algebra_simps)
  finally have p_lo: "r * (1 - u) ^ 3 \<le> p" by (simp add: power3_eq_cube power2_eq_square ac_simps)
  have "(7 / 8 :: real) ^ 3 \<le> (1 - u) ^ 3" using assms(3) by (intro power_mono) auto
  then have half: "1 / 2 \<le> (1 - u) ^ 3" by (simp add: power3_eq_cube)
  have "r * (1 / 2) \<le> r * (1 - u) ^ 3" using half assms(1) by (intro mult_left_mono) auto
  with p_lo have p2: "r \<le> 2 * p" by simp
  with assms(1) show p0: "0 < p" by simp
  show "r / p \<le> 2" using p2 p0 by (simp add: divide_le_eq)
  have "(1 - 3 * u) * (1 + u) ^ 3 = 1 - (6 * u ^ 2 + 8 * u ^ 3 + 3 * u ^ 4)"
    by (simp add: eval_nat_numeral algebra_simps)
  also have "\<dots> \<le> 1" using assms(2) by (simp only: diff_le_eq) simp
  finally have c: "(1 - 3 * u) * (1 + u) ^ 3 \<le> 1" .
  have "(1 - 3 * u) * p \<le> (1 - 3 * u) * (r * (1 + u) ^ 3)"
    using p_hi assms(3) by (intro mult_left_mono) auto
  also have "\<dots> \<le> r" using mult_left_mono [OF c, of r] assms(1) by (simp add: ac_simps)
  finally show "1 - 3 * u \<le> r / p" using p0 by (simp add: le_divide_eq)
qed

text \<open>In binary64 the difference from one is below every threshold from \<open>pow2 (- 51)\<close>.\<close>

lemma self_drift_small:
  assumes "pow2 (- 149) \<le> r" and "r \<le> pow2 256" and "pow2 (- 51) \<le> t"
  shows "\<not> flt_gt (flt_sub round64 (FFin 1) (flt_div round64 (FFin r)
      (flt_mul round64 (flt_sqrt (FFin r)) (flt_sqrt (FFin r))))) (FFin t)"
proof -
  let ?u = "pow2 (- 53)"
  have u: "?u = 1 / 2 ^ 53" "pow2 (- 51) = 4 * ?u" by (simp_all add: pow2_numeral)
  have r: "0 < r" using assms(1) by (rule less_le_trans [OF pow2_pos])
  have "pow2 (- 150) \<le> r" by (rule order_trans [OF _ assms(1)]) simp
  with assms(2) have "pow2 (- 75) \<le> sqrt r" "sqrt r \<le> pow2 128"
    by (simp_all only: real_sqrt_le_iff sqrt_pow2 [of "- 75", simplified, symmetric]
        sqrt_pow2 [of 128, simplified, symmetric])
  then obtain s where s: "round64 (sqrt r) = FFin s" "pow2 (- 75) \<le> s" "s \<le> pow2 128"
      "\<bar>s - sqrt r\<bar> \<le> sqrt r * ?u"
    by (rule round64_between) simp_all
  have "pow2 (- 75) * pow2 (- 75) \<le> s * s" "s * s \<le> pow2 128 * pow2 128"
    using s(2,3) pow2_leD [OF s(2)] by (intro mult_mono; simp)+
  then have "pow2 (- 150) \<le> s * s" "s * s \<le> pow2 256"
    using pow2_add [of "- 75" "- 75"] pow2_add [of 128 128] by simp_all
  then obtain p where p: "round64 (s * s) = FFin p" "\<bar>p - s * s\<bar> \<le> s * s * ?u"
    by (rule round64_between) simp_all
  have q: "1 - 3 * ?u \<le> r / p" "r / p \<le> 2" "0 < p"
    using self_quotient [OF r _ _ s(4) p(2)] by (simp_all add: u(1))
  have "pow2 (- 1) \<le> r / p" by (rule order_trans [OF _ q(1)]) (simp add: u(1))
  moreover have "r / p \<le> pow2 1" using q(2) by simp
  ultimately obtain t' where t': "round64 (r / p) = FFin t'" "\<bar>t' - r / p\<bar> \<le> r / p * ?u"
    by (rule round64_between) simp_all
  have "1 - 4 * ?u \<le> (1 - 3 * ?u) * (1 - ?u)" by (simp add: u(1))
  also have "\<dots> \<le> r / p * (1 - ?u)" using q(1) by (intro mult_right_mono) (simp_all add: u(1))
  also have "\<dots> \<le> t'" using t'(2) by (auto simp: abs_le_iff algebra_simps)
  finally have small: "1 - t' \<le> pow2 (- 51)" using u(2) by simp
  have drift: "flt_sub round64 (FFin 1) (flt_div round64 (FFin r)
      (flt_mul round64 (flt_sqrt (FFin r)) (flt_sqrt (FFin r)))) = round64 (1 - t')"
    using r s(1) p(1) q(3) t'(1) by (simp add: flt_sub_def)
  have t: "0 \<le> t" using assms(3) by (rule pow2_leD)
  show ?thesis
  proof (cases "1 - t' \<le> 0")
    case True
    with t show ?thesis unfolding drift unfolding round64_def by (intro fround_nonpos)
  next
    case False
    then obtain d where "round64 (1 - t') = FFin d" "d \<le> pow2 (- 51)"
      using fround_le [of "1 - t'" "- 51" "- 1074" 53 971] small pow2_top64 [of "- 51"]
      by (auto simp: round64_def)
    with assms(3) show ?thesis unfolding drift by simp
  qed
qed

section \<open>Underflowing squares\<close>

lemma round_even_half: "round_even y = 0" if "0 \<le> y" "y \<le> 1 / 2" for y
proof -
  have "\<lfloor>y\<rfloor> = 0" using that by (simp add: floor_eq_iff)
  then show ?thesis using that by (auto simp: round_even_def Let_def)
qed

lemma round_even_above_half: "1 \<le> round_even y" if "1 / 2 < y" for y
proof -
  have "\<lfloor>y\<rfloor> = 0 \<or> 1 \<le> \<lfloor>y\<rfloor>" using that by linarith
  then show ?thesis using that by (auto simp: round_even_def Let_def)
qed

lemma round32_zero:
  assumes "0 \<le> x"
  shows "round32 x = FFin 0 \<longleftrightarrow> x \<le> pow2 (- 150)"
proof (cases "pow2 (- 149) \<le> x")
  case True
  then have "pow2 (- 150) < x"
    by (rule less_le_trans [rotated]) (simp add: pow2_def)
  moreover have "round32 x \<noteq> FFin 0"
    using fround_ge [of 24 "- 149" 104 x 0 "- 149"] True by (auto simp: round32_def)
  ultimately show ?thesis by simp
next
  case False
  show ?thesis
  proof (cases "x = 0")
    case True
    then show ?thesis by (simp add: round32_def fround_alt)
  next
    case nz: False
    with assms have x: "0 < x" by simp
    with False have "\<lfloor>log 2 \<bar>x\<bar>\<rfloor> < - 149" using log_bounds(3) [OF x, of "- 149"] by linarith
    then have "\<lfloor>log 2 \<bar>x\<bar>\<rfloor> - int 24 + 1 \<le> - 149" by linarith
    then have e: "ulp_exp 24 (- 149) x = - 149" by (simp only: ulp_exp_def max_absorb1)
    have half: "x / pow2 (- 149) \<le> 1 / 2 \<longleftrightarrow> x \<le> pow2 (- 150)"
      by (simp add: pow2_numeral field_simps)
    have "round_even (x / pow2 (- 149)) = 0 \<longleftrightarrow> x / pow2 (- 149) \<le> 1 / 2"
      using round_even_half [of "x / pow2 (- 149)"] round_even_above_half [of "x / pow2 (- 149)"] x
      by (cases "x / pow2 (- 149) \<le> 1 / 2") auto
    with nz e half show ?thesis
      by (auto simp: round32_def fround_alt Let_def)
  qed
qed

lemma square32_zero: "square32 a = FFin 0 \<longleftrightarrow> (\<exists>x. a = FFin x \<and> \<bar>x\<bar> \<le> 1 / 2 ^ 75)"
proof (cases a)
  case (FFin x)
  have "x * x \<le> pow2 (- 150) \<longleftrightarrow> \<bar>x\<bar> \<le> pow2 (- 75)"
    using abs_le_square_iff [of x "pow2 (- 75)"] pow2_add [of "- 75" "- 75"] by (simp add: power2_eq_square)
  moreover have "pow2 (- 75) = 1 / 2 ^ 75" by (simp add: pow2_numeral)
  ultimately show ?thesis using FFin by (simp add: round32_zero)
qed auto

section \<open>Unchanged vectors\<close>

lemma unchanged_part_fails:
  assumes "in_range part" and "1 / 2 ^ 51 \<le> t" and "t < 1"
  shows "part_fails v v (FFin t) part \<longleftrightarrow>
    (\<forall>i. fst part \<le> i \<and> i \<le> fst (snd part) \<longrightarrow> square32 (v ! nat i) = FFin 0)"
proof -
  obtain start stop rest where part: "part = (start, stop, rest)" by (cases part)
  let ?n = "foldl (add_square v) (FFin 0) [start..stop]"
  have sums: "part_sums v v part = (?n, ?n, ?n)" by (simp add: part part_sums_def foldl_cosine_same)
  have len: "length [start..stop] \<le> 128" using assms(1) by (auto simp: part in_range_def)
  from norm_ok_sum [of 0 "FFin 0" "[start..stop]" v] len
  have n: "norm_ok (length [start..stop]) ?n"
    and zero: "?n = FFin 0 \<longleftrightarrow> (\<forall>i\<in>set [start..stop]. square32 (v ! nat i) = FFin 0)" by simp_all
  have "part_fails v v (FFin t) part \<longleftrightarrow> ?n = FFin 0"
  proof (cases ?n)
    case (FFin r)
    show ?thesis
    proof (cases "r = 0")
      case True
      with FFin sums assms(3) show ?thesis by (simp add: part_fails_def part_drift_def flt_sub_def)
    next
      case False
      with n FFin have r: "pow2 (- 149) \<le> r" "r \<le> pow2 (128 + int (length [start..stop]))" by simp_all
      have "r \<le> pow2 256" proof (rule order_trans [OF r(2)])
        have "128 + int (length [start..stop]) \<le> 256" using len by linarith
        then show "pow2 (128 + int (length [start..stop])) \<le> pow2 256" by (simp only: pow2_le)
      qed
      with self_drift_small [OF r(1) this, of t] assms(2) FFin False sums show ?thesis
        by (simp add: part_fails_def part_drift_def pow2_numeral)
    qed
  next
    case (FInf s)
    with n sums show ?thesis by (simp add: part_fails_def part_drift_def flt_sub_def)
  next
    case FNaN
    with sums show ?thesis by (simp add: part_fails_def part_drift_def)
  qed
  with zero show ?thesis by (auto simp: part)
qed

lemma in_range_start: "in_range p \<Longrightarrow> fst p \<le> fst p \<and> fst p \<le> fst (snd p) \<and> nat (fst p) < 128"
  by (cases p) (auto simp: in_range_def)

lemma unchanged_vector_preserved:
  assumes "length v = 128" and "\<forall>p\<in>set (partitions dims). in_range p"
    and "1 / 2 ^ 51 \<le> t" and "t < 1"
  shows "ax_AxisPreserved (EvaluateDrift v v dims (FFin t)) \<longleftrightarrow>
    (\<forall>p\<in>set (partitions dims). \<exists>i. fst p \<le> i \<and> i \<le> fst (snd p) \<and> square32 (v ! nat i) \<noteq> FFin 0)"
  unfolding EvaluateDrift_preserved [OF assms(1,1,2)]
  using unchanged_part_fails [OF _ assms(3,4), of _ v] assms(2) by (intro ball_cong) auto

section \<open>Opposed vectors\<close>

lemma foldl_cosine_sums:
  "foldl (cosine_step v1 v2) (d, a, b) is =
     (foldl (flt_add round64) d (map (\<lambda>i. flt_mul round32 (v1 ! nat i) (v2 ! nat i)) is),
      foldl (flt_add round64) a (map (\<lambda>i. square32 (v1 ! nat i)) is),
      foldl (flt_add round64) b (map (\<lambda>i. square32 (v2 ! nat i)) is))"
  by (induction "is" arbitrary: d a b) (simp_all add: cosine_step_def Let_def)

lemma flt_neg_add: "flt_add round64 (flt_neg a) (flt_neg b) = flt_neg (flt_add round64 a b)"
proof (cases "\<exists>x y. a = FFin x \<and> b = FFin y")
  case True
  then obtain x y where "a = FFin x" "b = FFin y" by blast
  moreover have "- x - y = - (x + y)" by simp
  ultimately show ?thesis by (simp only: flt_neg.simps flt_add.simps fround_minus round64_def flip: diff_conv_add_uminus)
next
  case False
  then show ?thesis by (cases a; cases b) auto
qed

lemma foldl_neg:
  "foldl (flt_add round64) (flt_neg s) (map (\<lambda>i. flt_neg (f i)) is)
     = flt_neg (foldl (flt_add round64) s (map f is))"
  by (induction "is" arbitrary: s) (simp_all add: flt_neg_add)

lemma square32_neg: "square32 (flt_neg a) = square32 a"
  by (cases a) auto

lemma opposed_sums:
  assumes "in_range part"
    and "\<And>i. fst part \<le> i \<Longrightarrow> i \<le> fst (snd part) \<Longrightarrow>
      pos (- 60) 60 (v1 ! nat i) \<and> v2 ! nat i = flt_neg (w (nat i)) \<and> pos (- 60) 60 (w (nat i))"
  obtains D n1 n2 where "part_sums v1 v2 part = (flt_neg D, n1, n2)"
    and "pos (- 120) 128 D" and "pos (- 120) 128 n1" and "pos (- 120) 128 n2"
proof -
  obtain start stop rest where part: "part = (start, stop, rest)" by (cases part)
  let ?is = "[start..stop]"
  have len: "?is \<noteq> []" "length ?is \<le> 128" using assms(1) by (auto simp: part in_range_def)
  have e: "pos (- 60) 60 (v1 ! nat i)" "v2 ! nat i = flt_neg (w (nat i))" "pos (- 60) 60 (w (nat i))"
    if "i \<in> set ?is" for i using assms(2) [of i] that by (auto simp: part)
  have sums: "pos (- 120) 128 (foldl (flt_add round64) (FFin 0) (map f ?is))"
    if "\<And>i. i \<in> set ?is \<Longrightarrow> pos (- 120) 120 (f i)" for f
    using pos_sum [of "map f ?is" "- 120" 120] that len by simp
  have prod: "pos (- 120) 120 (flt_mul round32 a b)" if "pos (- 60) 60 a" "pos (- 60) 60 b" for a b
    using pos_mul32 [OF that] by simp
  let ?D = "foldl (flt_add round64) (FFin 0) (map (\<lambda>i. flt_mul round32 (v1 ! nat i) (w (nat i))) ?is)"
  let ?n1 = "foldl (flt_add round64) (FFin 0) (map (\<lambda>i. square32 (v1 ! nat i)) ?is)"
  let ?n2 = "foldl (flt_add round64) (FFin 0) (map (\<lambda>i. square32 (w (nat i))) ?is)"
  have maps: "map (\<lambda>i. flt_mul round32 (v1 ! nat i) (v2 ! nat i)) ?is
      = map (\<lambda>i. flt_neg (flt_mul round32 (v1 ! nat i) (w (nat i)))) ?is"
  proof (rule map_cong [OF refl])
    fix i assume i: "i \<in> set ?is"
    from e(1) [OF i] obtain x where "v1 ! nat i = FFin x" by (rule posE)
    moreover from e(3) [OF i] obtain y where "w (nat i) = FFin y" by (rule posE)
    ultimately show "flt_mul round32 (v1 ! nat i) (v2 ! nat i) = flt_neg (flt_mul round32 (v1 ! nat i) (w (nat i)))"
      unfolding e(2) [OF i] by (rule flt_neg_mul(2))
  qed
  have maps2: "map (\<lambda>i. square32 (v2 ! nat i)) ?is = map (\<lambda>i. square32 (w (nat i))) ?is"
    using e(2) by (simp add: square32_neg)
  have zero: "flt_neg (FFin 0) = FFin 0" by simp
  have part_sums: "part_sums v1 v2 part = (flt_neg ?D, ?n1, ?n2)"
    unfolding part part_sums_def prod.case foldl_cosine_sums maps maps2
      foldl_neg [of "FFin 0", unfolded zero] ..
  show thesis using e(1,3) by (intro that [OF part_sums]) (auto intro!: sums prod)
qed

text \<open>
  When the components of a partition have been negated, up to any positive factors within wide
  bounds, its drift is at least one.
\<close>

lemma opposed_part_fails:
  assumes "in_range part" and "t < 1"
    and "\<And>i. fst part \<le> i \<Longrightarrow> i \<le> fst (snd part) \<Longrightarrow>
      pos (- 60) 60 (v1 ! nat i) \<and> v2 ! nat i = flt_neg (w (nat i)) \<and> pos (- 60) 60 (w (nat i))"
  shows "part_fails v1 v2 (FFin t) part"
proof -
  from assms(1,3) obtain D' N1 N2 where part_sums: "part_sums v1 v2 part = (flt_neg D', N1, N2)"
    and p: "pos (- 120) 128 D'" "pos (- 120) 128 N1" "pos (- 120) 128 N2"
    by (rule opposed_sums)
  have "pos (- 60) 64 (flt_sqrt N1)" "pos (- 60) 64 (flt_sqrt N2)"
    using p(2,3) pos_sqrt [of "- 60" 64] by simp_all
  then have "pos (- 120) 128 (flt_mul round64 (flt_sqrt N1) (flt_sqrt N2))"
    using pos_mul64 [of "- 60" 64 _ "- 60" 64] by simp
  with p obtain d n1 n2 m where v: "D' = FFin d" "N1 = FFin n1" "N2 = FFin n2"
      "flt_mul round64 (flt_sqrt N1) (flt_sqrt N2) = FFin m" "0 < n1" "0 < n2" "0 < m"
    and D: "pos (- 120) 128 (FFin d)" and M: "pos (- 120) 128 (FFin m)"
    by (elim posE) (simp add: pos_def)
  obtain s where s: "round64 (d / m) = FFin s" "s \<le> pow2 248" "0 < s"
    using pos_div64 [OF D M] v(7) by (auto elim: posE)
  have "flt_div round64 (flt_neg (FFin d)) (FFin m) = FFin (- s)"
    using s(1) v(7) fround_minus [of 53 "- 1074" 971 "d / m"] by (simp add: round64_def)
  then have drift: "part_drift v1 v2 part = round64 (1 + s)"
    using v by (simp add: part_drift_def part_sums flt_sub_def)
  have "pow2 0 \<le> pow2 248" by (simp only: pow2_le)
  then have "1 + s \<le> pow2 248 + pow2 248" using s(2) by (simp only: pow2_0)
  also have "\<dots> = pow2 249" using pow2_add [of 1 248] by simp
  finally have "pos 0 249 (round64 (1 + s))" using s(3) by (intro pos_round64) simp_all
  then show ?thesis using assms(2) by (auto simp: part_fails_def drift elim!: posE)
qed

section \<open>Properties\<close>

text \<open>
  C29: no false alarms, and the only ones there are. For every vector of 128 \<^verbatim>\<open>float32\<close> values
  (infinities and NaNs included), every choice of partitions in range and every threshold from 1/2^51 up to
  below one, comparing the vector with itself reports the axis as preserved, whatever the rounding errors,
  if and only if every partition has a component that is not within 1/2^75 of zero: a partition of
  smaller components underflows to norm zero and counts as full drift.
\<close>

theorem unchanged_vector_preserved_iff:
  assumes "length v = 128" and "\<forall>p\<in>set (partitions dims). in_range p"
    and "1 / 2 ^ 51 \<le> t" and "t < 1"
  shows "ax_AxisPreserved (EvaluateDrift v v dims (FFin t)) \<longleftrightarrow>
    (\<forall>p\<in>set (partitions dims). \<exists>i. fst p \<le> i \<and> i \<le> fst (snd p)
      \<and> \<not> (\<exists>x. v ! nat i = FFin x \<and> \<bar>x\<bar> \<le> 1 / 2 ^ 75))"
  using unchanged_vector_preserved [OF assms] by (simp only: square32_zero)

section \<open>Concrete instances\<close>

theorem unchanged_vector_preserved_iff_witness:
  "ax_AxisPreserved (EvaluateDrift (replicate 128 (FFin 1)) (replicate 128 (FFin 1)) DefaultDimensions
     (FFin (35 / 100)))"
proof -
  have "\<forall>p\<in>set (partitions DefaultDimensions). \<exists>i. fst p \<le> i \<and> i \<le> fst (snd p)
      \<and> \<not> (\<exists>x. replicate 128 (FFin 1) ! nat i = FFin x \<and> \<bar>x\<bar> \<le> 1 / 2 ^ 75)"
  proof
    fix p assume "p \<in> set (partitions DefaultDimensions)"
    then have "fst p \<le> fst p \<and> fst p \<le> fst (snd p) \<and> nat (fst p) < 128"
      using default_in_range in_range_start by blast
    then show "\<exists>i. fst p \<le> i \<and> i \<le> fst (snd p)
        \<and> \<not> (\<exists>x. replicate 128 (FFin 1) ! nat i = FFin x \<and> \<bar>x\<bar> \<le> 1 / 2 ^ 75)"
      by (intro exI [of _ "fst p"]) simp
  qed
  then show ?thesis
    using unchanged_vector_preserved_iff [of "replicate 128 (FFin 1)" DefaultDimensions "35 / 100"]
      default_in_range by simp
qed

end
