(* ===== verification/Axis_Fixtures.thy ===== *)
theory Axis_Fixtures
  imports Axis_Numeric
begin

text \<open>
  \<^verbatim>\<open>benchmarks/axis_fixtures/generate.go\<close>: the generator of the drift fixtures. Vectors
  are built and normalised in \<^verbatim>\<open>float32\<close>, so what the drift check says about them depends
  on rounding.
\<close>

record AxisFixture =
  fx_FixtureID :: string
  fx_Category :: string
  fx_AnchorDescription :: string
  fx_MutatedDescription :: string
  fx_ExpectedDriftType :: string
  fx_ExpectedReasonCode :: string
  fx_GlobalSimilarityExpectedMin :: flt
  fx_AxisDriftExpectedMin :: flt
  fx_AnchorVector :: StructuralVector
  fx_MutatedVector :: StructuralVector

text \<open>The conversion \<^verbatim>\<open>float32(x)\<close> of a binary64 value.\<close>

definition to_float32 :: "flt \<Rightarrow> flt" where
  "to_float32 x = (case x of FFin r \<Rightarrow> round32 r | y \<Rightarrow> y)"

definition magnitude :: "StructuralVector \<Rightarrow> flt" where
  "magnitude v = flt_sqrt (foldl (\<lambda>mag x. flt_add round64 mag (flt_mul round32 x x)) (FFin 0) v)"

definition normalize :: "StructuralVector \<Rightarrow> StructuralVector" where
  "normalize v =
     (let mag = magnitude v in
      if flt_eq mag (FFin 0) then v else map (\<lambda>x. to_float32 (flt_div round64 x mag)) v)"

text \<open>\<open>c * float32(i%5+1)\<close> with a constant \<open>c\<close>\<close>

definition fixture_component :: "real \<Rightarrow> int \<Rightarrow> flt" where
  "fixture_component c i = flt_mul round32 (round32 c) (round32 (of_int (i mod 5 + 1)))"

definition GenerateBaseVector :: "int \<Rightarrow> int \<Rightarrow> StructuralVector" where
  "GenerateBaseVector targetStart targetEnd =
     normalize (map (\<lambda>i. if targetStart \<le> i \<and> i \<le> targetEnd then fixture_component (3 / 100) i
       else fixture_component (30 / 100) i) [0..127])"

definition NormalizeBaseVector :: StructuralVector where
  "NormalizeBaseVector = normalize (map (fixture_component (1 / 10)) [0..127])"

text \<open>The vectors have 128 components and the ranges are partitions, so no index is out of range.\<close>

definition MutateSubspace :: "StructuralVector \<Rightarrow> int \<Rightarrow> int \<Rightarrow> flt \<Rightarrow> StructuralVector" where
  "MutateSubspace base start stop factor =
     normalize (map (\<lambda>i. if start \<le> i \<and> i \<le> stop then flt_mul round32 (base ! nat i) factor
       else base ! nat i) [0..127])"

definition fixture ::
  "string \<Rightarrow> string \<Rightarrow> string \<Rightarrow> string \<Rightarrow> string \<Rightarrow> string \<Rightarrow> int \<Rightarrow> int \<Rightarrow> AxisFixture"
where
  "fixture fid category anchor mutated driftType reason start stop =
     (let base = GenerateBaseVector start stop in
      \<lparr>fx_FixtureID = fid, fx_Category = category, fx_AnchorDescription = anchor,
       fx_MutatedDescription = mutated, fx_ExpectedDriftType = driftType,
       fx_ExpectedReasonCode = reason, fx_GlobalSimilarityExpectedMin = round64 (95 / 100),
       fx_AxisDriftExpectedMin = round64 (150 / 100), fx_AnchorVector = base,
       fx_MutatedVector = MutateSubspace base start stop (FFin (- (7 / 2)))\<rparr>)"

definition fixtures :: "AxisFixture list" where
  "fixtures =
     (let cleanBase = NormalizeBaseVector in
      [fixture ''temporality_shift_001'' ''TEMPORALITY_SHIFT''
         ''User is currently frustrated with logging in.''
         ''User is an abusive client with ongoing security risks.''
         ''TEMPORARY_STATE_PROMOTED_TO_STABLE_TRAIT'' ''TEMPORARITY_DRIFT_DETECTED'' 0 23,
       fixture ''epistemic_shift_001'' ''EPISTEMIC_MODAL_SHIFT''
         ''The support note says the user suspects a double billing error.''
         ''The system confirmed a double billing error occurred.''
         ''INFERENCE_PROMOTED_TO_FACT'' ''EPISTEMIC_MODAL_SHIFT'' 24 47,
       fixture ''scope_expansion_001'' ''SCOPE_EXPANSION''
         ''Apply a 10% discount for this specific delayed order code.''
         ''Always apply a 10% discount globally to this user profile.''
         ''CONTEXT_BOUND_MEMORY_REUSED_GLOBALLY'' ''SCOPE_EXPANSION_VIOLATION'' 48 71,
       fixture ''source_trust_001'' ''SOURCE_TRUST_COLLAPSE''
         ''Unverified customer statement claims prior approval.''
         ''Customer has prior approval.''
         ''LOW_TRUST_SOURCE_PROMOTED'' ''SOURCE_TRUST_COLLAPSE'' 72 95,
       fixture ''mandate_confusion_001'' ''MANDATE_CONFUSION''
         ''User prefers faster responses.''
         ''Agent is authorized to skip review steps for this user.''
         ''PREFERENCE_PROMOTED_TO_MANDATE'' ''PREFERENCE_PROMOTED_TO_AUTHORITY'' 96 127,
       \<lparr>fx_FixtureID = ''clean_control_001'', fx_Category = ''CLEAN_CONTROL'',
        fx_AnchorDescription = ''User prefers concise responses.'',
        fx_MutatedDescription = ''User prefers concise answers.'',
        fx_ExpectedDriftType = [], fx_ExpectedReasonCode = [],
        fx_GlobalSimilarityExpectedMin = round64 (99 / 100), fx_AxisDriftExpectedMin = FFin 0,
        fx_AnchorVector = cleanBase, fx_MutatedVector = cleanBase\<rparr>])"

text \<open>
  \<^verbatim>\<open>main\<close>: its exit status. The outcomes of making the directory, creating the file and
  encoding the fixtures into it are arguments.
\<close>

definition generate_main ::
  "go_error option \<Rightarrow> go_error option \<Rightarrow> (AxisFixture list \<Rightarrow> go_error option) \<Rightarrow> nat"
where
  "generate_main mkdirErr createErr Encode =
     (if mkdirErr \<noteq> None then 1 else if createErr \<noteq> None then 1
      else if Encode fixtures \<noteq> None then 1 else 0)"

section \<open>Magnitudes\<close>

text \<open>A component of known magnitude and sign.\<close>

definition sgn_mag :: "bool \<Rightarrow> int \<Rightarrow> int \<Rightarrow> flt \<Rightarrow> bool" where
  "sgn_mag neg l h x \<longleftrightarrow> (\<exists>b. pos l h b \<and> x = (if neg then flt_neg b else b))"

lemma sgn_mag_pos [simp]: "sgn_mag False l h x \<longleftrightarrow> pos l h x"
  by (simp add: sgn_mag_def)

lemma pos_square:
  assumes "sgn_mag neg l h x" and "- 74 \<le> l" and "h \<le> 63"
  shows "pos (2 * l) (2 * h) (square32 x)"
proof -
  from assms(1) obtain b where "pos l h b" "square32 x = square32 b"
    by (auto simp: sgn_mag_def square32_neg)
  with assms(2,3) pos_mul32 [of l h b l h b] show ?thesis by (simp only: mult_2)
qed

lemma foldl_squares:
  "foldl (\<lambda>mag x. flt_add round64 mag (flt_mul round32 x x)) s v
     = foldl (flt_add round64) s (map square32 v)"
  by (induction v arbitrary: s) simp_all

lemma pos_magnitude:
  assumes "\<forall>x\<in>set v. \<exists>neg. sgn_mag neg l h x" and "- 74 \<le> l" and "h \<le> 63" and "v \<noteq> []" and "length v \<le> 128"
  shows "pos l (h + 4) (magnitude v)"
proof -
  have "\<forall>a\<in>set (map square32 v). pos (2 * l) (2 * h) a"
    using assms(1) pos_square [OF _ assms(2,3)] by auto
  from pos_sum [OF this] assms(2-5) have "pos (2 * l) (2 * (h + 4)) (foldl (flt_add round64) (FFin 0) (map square32 v))"
    by simp
  then show ?thesis
    unfolding magnitude_def foldl_squares using assms(2,3) by (intro pos_sqrt) auto
qed

lemma sgn_mag_normalized:
  assumes "sgn_mag neg l h x" and "pos l' h' m" and "- 149 \<le> l - h'" and "h - l' \<le> 127"
  shows "sgn_mag neg (l - h') (h - l') (to_float32 (flt_div round64 x m))"
proof -
  from assms(1) obtain b where b: "pos l h b" "x = (if neg then flt_neg b else b)" by (auto simp: sgn_mag_def)
  then obtain r where r: "b = FFin r" by (auto elim: posE)
  from assms(2) obtain q where q: "m = FFin q" "0 < q" by (rule posE)
  have "pos (l - h') (h - l') (flt_div round64 b m)"
    using pos_div64 [OF b(1) assms(2)] assms(3,4) by simp
  then obtain d where d: "flt_div round64 b m = FFin d" "pow2 (l - h') \<le> d" "d \<le> pow2 (h - l')"
    by (rule posE)
  have "flt_div round64 (flt_neg b) m = flt_neg (flt_div round64 b m)"
    using q fround_minus [of 53 "- 1074" 971 "r / q"] by (simp add: r round64_def)
  moreover have "round32 (- d) = flt_neg (round32 d)"
    by (simp add: round32_def fround_minus)
  moreover have "pos (l - h') (h - l') (round32 d)"
    using d(2,3) assms(3,4) by (rule pos_round32)
  ultimately show ?thesis
    using b(2) d(1) by (auto simp: sgn_mag_def to_float32_def)
qed

lemma normalize_components:
  assumes "\<And>i. i < length v \<Longrightarrow> sgn_mag (neg i) l h (v ! i)" and "v \<noteq> []" and "length v \<le> 128"
    and "- 74 \<le> l" and "h \<le> 63" and "- 149 \<le> l - (h + 4)" and "h - l \<le> 127"
  shows "length (normalize v) = length v"
    and "i < length v \<Longrightarrow> sgn_mag (neg i) (l - (h + 4)) (h - l) (normalize v ! i)"
    and "normalize v = map (\<lambda>x. to_float32 (flt_div round64 x (magnitude v))) v"
proof -
  have m: "pos l (h + 4) (magnitude v)"
    using assms(1-5) by (intro pos_magnitude) (auto simp: in_set_conv_nth, blast)
  then have "\<not> flt_eq (magnitude v) (FFin 0)" by (auto elim: posE)
  then show n: "normalize v = map (\<lambda>x. to_float32 (flt_div round64 x (magnitude v))) v"
    by (simp add: normalize_def Let_def)
  show "length (normalize v) = length v" by (simp add: n)
  show "sgn_mag (neg i) (l - (h + 4)) (h - l) (normalize v ! i)" if "i < length v"
    using that sgn_mag_normalized [OF assms(1) [OF that] m assms(6,7)] by (simp add: n)
qed

section \<open>The vectors\<close>

lemma pos_small_int: "1 \<le> k \<Longrightarrow> k \<le> 5 \<Longrightarrow> pos 0 3 (round32 (of_int k))"
  by (rule pos_round32) (simp_all add: pow2_numeral)

lemma pos_fixture_component:
  "pos (- 6) (- 2) (fixture_component (3 / 100) i)" "pos (- 2) 2 (fixture_component (30 / 100) i)"
  "pos (- 4) 0 (fixture_component (1 / 10) i)"
proof -
  have k: "pos 0 3 (round32 (of_int (i mod 5 + 1)))" by (rule pos_small_int) simp_all
  have "pos (- 6) (- 5) (round32 (3 / 100))" "pos (- 2) (- 1) (round32 (30 / 100))"
      "pos (- 4) (- 3) (round32 (1 / 10))"
    by (rule pos_round32; simp add: pow2_numeral)+
  from this [THEN pos_mul32, OF k] show
    "pos (- 6) (- 2) (fixture_component (3 / 100) i)" "pos (- 2) 2 (fixture_component (30 / 100) i)"
    "pos (- 4) 0 (fixture_component (1 / 10) i)"
    by (simp_all add: fixture_component_def)
qed

lemma base_component: "nat i < 128 \<Longrightarrow> pos (- 12) 8 (GenerateBaseVector start stop ! nat i)"
  and length_base [simp]: "length (GenerateBaseVector start stop) = 128"
proof -
  let ?v = "map (\<lambda>i. if start \<le> i \<and> i \<le> stop then fixture_component (3 / 100) i
    else fixture_component (30 / 100) i) [0..127]"
  have c: "sgn_mag False (- 6) 2 (?v ! i)" if "i < length ?v" for i
    using that pos_fixture_component(1,2) [THEN pos_weaken, of "- 6" 2] by (simp add: nth_upto)
  note n = normalize_components [where v = ?v and neg = "\<lambda>_. False", OF c]
  have "length (normalize ?v) = length ?v" by (rule n(1)) simp_all
  then show "length (GenerateBaseVector start stop) = 128" by (simp add: GenerateBaseVector_def)
  have "sgn_mag False (- 6 - (2 + 4)) (2 - - 6) (normalize ?v ! nat i)" if "nat i < 128"
    by (rule n(2)) (use that in simp_all)
  then show "nat i < 128 \<Longrightarrow> pos (- 12) 8 (GenerateBaseVector start stop ! nat i)"
    by (simp add: GenerateBaseVector_def)
qed

lemma clean_component: "nat i < 128 \<Longrightarrow> pos (- 8) 4 (NormalizeBaseVector ! nat i)"
  and length_clean [simp]: "length NormalizeBaseVector = 128"
proof -
  let ?v = "map (fixture_component (1 / 10)) [0..127]"
  have c: "sgn_mag False (- 4) 0 (?v ! i)" if "i < length ?v" for i
    using that pos_fixture_component(3) by (simp add: nth_upto)
  note n = normalize_components [where v = ?v and neg = "\<lambda>_. False", OF c]
  have "length (normalize ?v) = length ?v" by (rule n(1)) simp_all
  then show "length NormalizeBaseVector = 128" by (simp add: NormalizeBaseVector_def)
  have "sgn_mag False (- 4 - (0 + 4)) (0 - - 4) (normalize ?v ! nat i)" if "nat i < 128"
    by (rule n(2)) (use that in simp_all)
  then show "nat i < 128 \<Longrightarrow> pos (- 8) 4 (NormalizeBaseVector ! nat i)"
    by (simp add: NormalizeBaseVector_def)
qed

text \<open>The mutated components change their sign, the others keep it.\<close>

lemma mutated_component:
  assumes "nat i < 128" and "0 \<le> i"
  shows "sgn_mag (start \<le> i \<and> i \<le> stop) (- 26) 22
      (MutateSubspace (GenerateBaseVector start stop) start stop (FFin (- (7 / 2))) ! nat i)"
  and mutated_length: "length (MutateSubspace (GenerateBaseVector start stop) start stop (FFin (- (7 / 2)))) = 128"
proof -
  let ?b = "GenerateBaseVector start stop"
  let ?v = "map (\<lambda>i. if start \<le> i \<and> i \<le> stop then flt_mul round32 (?b ! nat i) (FFin (- (7 / 2)))
    else ?b ! nat i) [0..127]"
  have c: "sgn_mag (start \<le> int j \<and> int j \<le> stop) (- 12) 10 (?v ! j)" if j: "j < length ?v" for j
  proof -
    have b: "pos (- 12) 8 (?b ! j)" using base_component [of "int j"] j by simp
    have "pos 1 2 (FFin (7 / 2))" by (rule posI) (simp_all add: pow2_numeral)
    from pos_mul32 [OF b this] have "pos (- 11) 10 (flt_mul round32 (?b ! j) (FFin (7 / 2)))" by simp
    then have m: "pos (- 12) 10 (flt_mul round32 (?b ! j) (FFin (7 / 2)))" by (rule pos_weaken) simp_all
    from b obtain r where r: "?b ! j = FFin r" by (rule posE)
    have "flt_mul round32 (?b ! j) (FFin (- (7 / 2))) = flt_neg (flt_mul round32 (?b ! j) (FFin (7 / 2)))"
      using flt_neg_mul(2) [OF r, of "FFin (7 / 2)" "7 / 2"] by simp
    with m pos_weaken [OF b, of "- 12" 10] j show ?thesis
      by (auto simp: sgn_mag_def nth_upto)
  qed
  note n = normalize_components [where v = ?v and neg = "\<lambda>j. start \<le> int j \<and> int j \<le> stop", OF c]
  have "length (normalize ?v) = length ?v" by (rule n(1)) simp_all
  then show "length (MutateSubspace ?b start stop (FFin (- (7 / 2)))) = 128" by (simp add: MutateSubspace_def)
  have "sgn_mag (start \<le> int (nat i) \<and> int (nat i) \<le> stop) (- 12 - (10 + 4)) (10 - - 12) (normalize ?v ! nat i)"
    by (rule n(2)) (use assms(1) in simp_all)
  then show "sgn_mag (start \<le> i \<and> i \<le> stop) (- 26) 22 (MutateSubspace ?b start stop (FFin (- (7 / 2))) ! nat i)"
    using assms(2) by (simp add: MutateSubspace_def)
qed

lemma length_mutated: "length (MutateSubspace (GenerateBaseVector start stop) start stop (FFin (- (7 / 2)))) = 128"
  by (rule mutated_length [of 0]) simp_all

lemma mutated_part_fails:
  assumes "in_range (start, stop, rest)" and "t < 1"
  shows "part_fails (GenerateBaseVector start stop)
    (MutateSubspace (GenerateBaseVector start stop) start stop (FFin (- (7 / 2)))) (FFin t) (start, stop, rest)"
proof (rule opposed_part_fails [OF assms, where w = "\<lambda>j. flt_neg (MutateSubspace
    (GenerateBaseVector start stop) start stop (FFin (- (7 / 2))) ! j)"])
  fix i assume i: "fst (start, stop, rest) \<le> i" "i \<le> fst (snd (start, stop, rest))"
  with assms(1) have r: "0 \<le> i" "nat i < 128" "start \<le> i \<and> i \<le> stop" by (auto simp: in_range_def)
  from mutated_component [OF r(2,1), of start stop] r(3) obtain b where b: "pos (- 26) 22 b"
      "MutateSubspace (GenerateBaseVector start stop) start stop (FFin (- (7 / 2))) ! nat i = flt_neg b"
    by (auto simp: sgn_mag_def)
  then show "pos (- 60) 60 (GenerateBaseVector start stop ! nat i)
      \<and> MutateSubspace (GenerateBaseVector start stop) start stop (FFin (- (7 / 2))) ! nat i
        = flt_neg (flt_neg (MutateSubspace (GenerateBaseVector start stop) start stop (FFin (- (7 / 2))) ! nat i))
      \<and> pos (- 60) 60 (flt_neg (MutateSubspace (GenerateBaseVector start stop) start stop (FFin (- (7 / 2))) ! nat i))"
    using base_component [OF r(2), THEN pos_weaken] b(1) [THEN pos_weaken] by simp
qed

lemma clean_preserved:
  assumes "1 / 2 ^ 51 \<le> t" and "t < 1"
  shows "ax_AxisPreserved (EvaluateDrift NormalizeBaseVector NormalizeBaseVector DefaultDimensions (FFin t))"
proof -
  have "square32 (NormalizeBaseVector ! nat i) \<noteq> FFin 0" if "nat i < 128" for i
    using pos_square [of False "- 8" 4, unfolded sgn_mag_pos, OF clean_component [OF that]] by (auto elim: posE)
  then have "\<forall>p\<in>set (partitions DefaultDimensions). \<exists>i. fst p \<le> i \<and> i \<le> fst (snd p)
      \<and> square32 (NormalizeBaseVector ! nat i) \<noteq> FFin 0"
    using default_in_range in_range_start by blast
  then show ?thesis
    using unchanged_vector_preserved [OF length_clean default_in_range assms] by blast
qed

text \<open>A drift fixture mutates one partition and expects its reason code.\<close>

definition fixture_of :: "int \<times> int \<times> string \<times> string \<Rightarrow> AxisFixture \<Rightarrow> bool" where
  "fixture_of part f \<longleftrightarrow>
     (case part of (start, stop, driftType, reason) \<Rightarrow>
        fx_AnchorVector f = GenerateBaseVector start stop
      \<and> fx_MutatedVector f = MutateSubspace (GenerateBaseVector start stop) start stop (FFin (- (7 / 2)))
      \<and> fx_ExpectedDriftType f = driftType \<and> fx_ExpectedReasonCode f = reason)"

lemma fixture_fields:
  "fixture_of (start, stop, driftType, reason) (fixture fid category anchor mutated driftType reason start stop)"
  "fx_ExpectedReasonCode (fixture fid category anchor mutated driftType reason start stop) = reason"
  by (simp_all add: fixture_of_def fixture_def Let_def)

lemma default_partitions:
  "set (partitions DefaultDimensions) =
     {(0, 23, DriftTypeTemporality, ReasonTemporality), (24, 47, DriftTypeEpistemic, ReasonEpistemic),
      (48, 71, DriftTypeScope, ReasonScope), (72, 95, DriftTypeTrust, ReasonTrust),
      (96, 127, DriftTypeMandate, ReasonMandate)}"
  unfolding partitions_def DefaultDimensions_def InvariantDimensions.select_convs list.set ..

lemma fixture_cases:
  assumes "f \<in> set fixtures"
  obtains (drift) part where "part \<in> set (partitions DefaultDimensions)" and "fixture_of part f"
    and "fx_ExpectedReasonCode f \<noteq> []"
  | (clean) "fx_ExpectedReasonCode f = []" and "fx_AnchorVector f = NormalizeBaseVector"
    and "fx_MutatedVector f = NormalizeBaseVector"
proof -
  have part: thesis if "f = fixture fid category anchor mutated driftType reason start stop"
      "(start, stop, driftType, reason) \<in> set (partitions DefaultDimensions)" "reason \<noteq> []"
    for fid category anchor mutated driftType reason start stop
    using that drift fixture_fields by metis
  from assms show thesis
    unfolding fixtures_def Let_def list.set
    by (elim insertE emptyE) ((rule part, assumption, simp only: default_partitions insert_iff simp_thms, simp)
      | (rule clean; simp))+
qed

section \<open>Properties\<close>

text \<open>
  C30: the fixtures mean what they say. For the default partitions and every threshold from 1/2^51 up to below
  one, the drift check reports each generated drift fixture as not preserved, with the reason code that
  the fixture expects, and the clean control as preserved, whatever the rounding errors of building,
  mutating and normalising the vectors.
\<close>

theorem fixtures_are_classified:
  assumes "f \<in> set fixtures" and "1 / 2 ^ 51 \<le> t" and "t < 1"
  shows "let res = EvaluateDrift (fx_AnchorVector f) (fx_MutatedVector f) DefaultDimensions (FFin t) in
    if fx_ExpectedReasonCode f = [] then ax_AxisPreserved res
    else \<not> ax_AxisPreserved res \<and> fx_ExpectedReasonCode f \<in> set (ax_ReasonCodes res)"
  using assms(1)
proof (cases rule: fixture_cases)
  case (drift part)
  obtain start stop driftType reason where part: "part = (start, stop, driftType, reason)"
    by (metis prod_cases4)
  with drift have f: "fx_AnchorVector f = GenerateBaseVector start stop"
      "fx_MutatedVector f = MutateSubspace (GenerateBaseVector start stop) start stop (FFin (- (7 / 2)))"
      "fx_ExpectedReasonCode f = reason"
    by (auto simp: fixture_of_def)
  have "in_range part" using drift(1) default_in_range by blast
  then have fails: "part_fails (fx_AnchorVector f) (fx_MutatedVector f) (FFin t) part"
    unfolding part f(1,2) using assms(3) by (rule mutated_part_fails)
  from EvaluateDrift_reasons [OF _ _ default_in_range drift(1) fails]
    EvaluateDrift_preserved [OF _ _ default_in_range, of "fx_AnchorVector f" "fx_MutatedVector f" "FFin t"]
    fails drift(1,3) f(3)
  show ?thesis by (auto simp: f(1,2) length_mutated Let_def part)
next
  case clean
  with clean_preserved [OF assms(2,3)] show ?thesis by (simp add: Let_def)
qed

theorem fixtures_are_classified_witness:
  "\<not> ax_AxisPreserved (EvaluateDrift (GenerateBaseVector 0 23)
     (MutateSubspace (GenerateBaseVector 0 23) 0 23 (FFin (- (7 / 2)))) DefaultDimensions (FFin (35 / 100)))"
  using fixtures_are_classified [of "hd fixtures" "35 / 100"]
  by (simp add: fixtures_def Let_def fixture_def)

end
