(* ===== verification/Session_Map.thy ===== *)
theory Session_Map
  imports Merkle
begin

text \<open>
  \<^verbatim>\<open>pkg/sessionmap\<close>: the signed manifest of a turn. Ed25519 is a parameter: a record of
  the three functions the sources call, with \<open>ed25519_correct\<close> as what its documentation promises
  (sizes, and that a signature made with a private key verifies under its public key). The lemmas
  describe generation on every branch and show to what extent the attested byte string determines
  the fields of the manifest: fixed-size fields always, strings when their lengths are known.
\<close>

section \<open>The signature scheme\<close>

record ed25519 =
  ed_Sign :: "byte list \<Rightarrow> byte list \<Rightarrow> byte list"
  ed_Verify :: "byte list \<Rightarrow> byte list \<Rightarrow> byte list \<Rightarrow> bool"
  ed_Public :: "byte list \<Rightarrow> byte list"

definition PrivateKeySize :: nat where "PrivateKeySize = 64"
definition PublicKeySize :: nat where "PublicKeySize = 32"
definition SignatureSize :: nat where "SignatureSize = 64"

definition ed25519_correct :: "ed25519 \<Rightarrow> bool" where
  "ed25519_correct ed \<longleftrightarrow>
     (\<forall>priv msg. length priv = PrivateKeySize \<longrightarrow>
        length (ed_Public ed priv) = PublicKeySize
      \<and> length (ed_Sign ed priv msg) = SignatureSize
      \<and> ed_Verify ed (ed_Public ed priv) msg (ed_Sign ed priv msg))"

lemma ed25519_correctD:
  assumes "ed25519_correct ed" and "length priv = PrivateKeySize"
  shows "length (ed_Public ed priv) = PublicKeySize"
    and "length (ed_Sign ed priv msg) = 64"
    and "ed_Verify ed (ed_Public ed priv) msg (ed_Sign ed priv msg)"
  using assms by (simp_all add: ed25519_correct_def SignatureSize_def)

section \<open>The manifest\<close>

record SessionMAP =
  sm_Version :: string
  sm_SessionMAPID :: id16
  sm_SessionID :: string
  sm_AgentID :: string
  sm_ActorID :: string
  sm_TenantHash :: hash32
  sm_TaskID :: string
  sm_RuntimeContextHash :: hash32
  sm_PolicySnapshotHash :: hash32
  sm_RuntimeSnapshotHash :: hash32
  sm_RuntimeSnapshotVersion :: u64
  sm_MerkleRoot :: hash32
  sm_Signature :: sig64
  sm_SigningKeyID :: string
  sm_CreatedAt :: go_time
  sm_ExpiresAt :: go_time
  sm_LeafRecords :: "LeafRecord list"

definition AttestationBytes :: "SessionMAP \<Rightarrow> byte list" where
  "AttestationBytes s =
     bytes_of_string (sm_Version s)
     @ list_of_bytes (sm_SessionMAPID s)
     @ bytes_of_string (sm_SessionID s)
     @ bytes_of_string (sm_AgentID s)
     @ bytes_of_string (sm_ActorID s)
     @ list_of_bytes (sm_TenantHash s)
     @ bytes_of_string (sm_TaskID s)
     @ list_of_bytes (sm_RuntimeContextHash s)
     @ list_of_bytes (sm_PolicySnapshotHash s)
     @ list_of_bytes (sm_RuntimeSnapshotHash s)
     @ PutUint64 (sm_RuntimeSnapshotVersion s)
     @ list_of_bytes (sm_MerkleRoot s)
     @ bytes_of_string (sm_SigningKeyID s)
     @ PutUint64 (UnixNano (sm_CreatedAt s))
     @ PutUint64 (UnixNano (sm_ExpiresAt s))"

definition GenerateSessionMAPWithRuntimeSnapshot ::
  "ed25519 \<Rightarrow> (LeafRecord list \<Rightarrow> LeafRecord list) \<Rightarrow> id16 \<Rightarrow> string \<Rightarrow> string \<Rightarrow> string \<Rightarrow> string
   \<Rightarrow> hash32 \<Rightarrow> hash32 \<Rightarrow> hash32 \<Rightarrow> hash32 \<Rightarrow> u64 \<Rightarrow> LeafRecord list \<Rightarrow> byte list \<Rightarrow> string \<Rightarrow> duration
   \<Rightarrow> go_time \<Rightarrow> go_error + SessionMAP"
where
  "GenerateSessionMAPWithRuntimeSnapshot ed sorter sessionMapID sessionID agentID actorID taskID
     tenantHash runtimeContextHash policySnapshotHash runtimeSnapshotHash runtimeSnapshotVersion
     leaves privKey keyID ttl now =
     (if length leaves = 0
        then Inl (ErrorString ''INVALID_SESSION_MAP: zero leaf records'')
      else if length privKey \<noteq> PrivateKeySize
        then Inl (ErrorString ''INVALID_SIGNING_KEY: Ed25519 private key required'')
      else if ttl \<le> 0
        then Inl (ErrorString ''INVALID_TTL: ttl must be positive'')
      else
        let root = BuildTurnTree sorter leaves;
            smap = \<lparr>sm_Version = ''0.1'', sm_SessionMAPID = sessionMapID, sm_SessionID = sessionID,
              sm_AgentID = agentID, sm_ActorID = actorID, sm_TenantHash = tenantHash,
              sm_TaskID = taskID, sm_RuntimeContextHash = runtimeContextHash,
              sm_PolicySnapshotHash = policySnapshotHash,
              sm_RuntimeSnapshotHash = runtimeSnapshotHash,
              sm_RuntimeSnapshotVersion = runtimeSnapshotVersion, sm_MerkleRoot = root,
              sm_Signature = zero_bytes, sm_SigningKeyID = keyID, sm_CreatedAt = now,
              sm_ExpiresAt = time_Add now ttl, sm_LeafRecords = leaves\<rparr>;
            sig = ed_Sign ed privKey (AttestationBytes smap)
        in Inr (smap\<lparr>sm_Signature := copy_bytes sig\<rparr>))"

definition GenerateSessionMAP ::
  "ed25519 \<Rightarrow> (LeafRecord list \<Rightarrow> LeafRecord list) \<Rightarrow> id16 \<Rightarrow> string \<Rightarrow> string \<Rightarrow> string \<Rightarrow> string
   \<Rightarrow> hash32 \<Rightarrow> hash32 \<Rightarrow> hash32 \<Rightarrow> LeafRecord list \<Rightarrow> byte list \<Rightarrow> string \<Rightarrow> duration
   \<Rightarrow> go_time \<Rightarrow> go_error + SessionMAP"
where
  "GenerateSessionMAP ed sorter sessionMapID sessionID agentID actorID taskID tenantHash
     runtimeContextHash policySnapshotHash leaves privKey keyID ttl now =
     GenerateSessionMAPWithRuntimeSnapshot ed sorter sessionMapID sessionID agentID actorID taskID
       tenantHash runtimeContextHash policySnapshotHash zero_bytes 0 leaves privKey keyID ttl now"

section \<open>What is attested\<close>

text \<open>The signature and the leaves are not part of the attested bytes; the root stands for them.\<close>

lemma AttestationBytes_update [simp]:
  "AttestationBytes (s\<lparr>sm_Signature := sig\<rparr>) = AttestationBytes s"
  "AttestationBytes (s\<lparr>sm_LeafRecords := ls\<rparr>) = AttestationBytes s"
  by (simp_all add: AttestationBytes_def)

text \<open>The fields the attested bytes determine, with the nanosecond times as the code encodes them.\<close>

definition same_attested_fields :: "SessionMAP \<Rightarrow> SessionMAP \<Rightarrow> bool" where
  "same_attested_fields s t \<longleftrightarrow>
     sm_Version s = sm_Version t \<and> sm_SessionMAPID s = sm_SessionMAPID t
   \<and> sm_SessionID s = sm_SessionID t \<and> sm_AgentID s = sm_AgentID t
   \<and> sm_ActorID s = sm_ActorID t \<and> sm_TenantHash s = sm_TenantHash t
   \<and> sm_TaskID s = sm_TaskID t \<and> sm_RuntimeContextHash s = sm_RuntimeContextHash t
   \<and> sm_PolicySnapshotHash s = sm_PolicySnapshotHash t
   \<and> sm_RuntimeSnapshotHash s = sm_RuntimeSnapshotHash t
   \<and> sm_RuntimeSnapshotVersion s = sm_RuntimeSnapshotVersion t
   \<and> sm_MerkleRoot s = sm_MerkleRoot t \<and> sm_SigningKeyID s = sm_SigningKeyID t
   \<and> UnixNano (sm_CreatedAt s) = UnixNano (sm_CreatedAt t)
   \<and> UnixNano (sm_ExpiresAt s) = UnixNano (sm_ExpiresAt t)"

text \<open>The lengths of the strings, in the order in which they are written without separators.\<close>

definition string_lengths :: "SessionMAP \<Rightarrow> nat list" where
  "string_lengths s =
     [length (sm_Version s), length (sm_SessionID s), length (sm_AgentID s), length (sm_ActorID s),
      length (sm_TaskID s), length (sm_SigningKeyID s)]"

lemma AttestationBytes_inject:
  assumes "string_lengths s = string_lengths t"
  shows "AttestationBytes s = AttestationBytes t \<longleftrightarrow> same_attested_fields s t"
  using assms
  by (simp add: AttestationBytes_def same_attested_fields_def string_lengths_def
      append_byte_string_eq)

text \<open>
  The last fields sit at a fixed distance from the end, so the times are determined without any
  assumption on the lengths.
\<close>

lemma AttestationBytes_times:
  assumes "AttestationBytes s = AttestationBytes t"
  shows "UnixNano (sm_CreatedAt s) = UnixNano (sm_CreatedAt t)"
    and "UnixNano (sm_ExpiresAt s) = UnixNano (sm_ExpiresAt t)"
proof -
  let ?tail = "\<lambda>s. PutUint64 (UnixNano (sm_CreatedAt s)) @ PutUint64 (UnixNano (sm_ExpiresAt s))"
  have split: "\<exists>p. AttestationBytes s = p @ ?tail s" for s
    unfolding AttestationBytes_def by (simp flip: append_assoc)
  from split [of s] split [of t] assms obtain p q where "p @ ?tail s = q @ ?tail t"
    by metis
  then have "?tail s = ?tail t"
    by (simp add: append_eq_append_conv)
  then show "UnixNano (sm_CreatedAt s) = UnixNano (sm_CreatedAt t)"
    and "UnixNano (sm_ExpiresAt s) = UnixNano (sm_ExpiresAt t)" by simp_all
qed

section \<open>Generation\<close>

lemma Generate_errors:
  "(\<exists>e. GenerateSessionMAPWithRuntimeSnapshot ed sorter i s a c k th rc ph rh rv leaves priv key ttl
          now = Inl e)
     \<longleftrightarrow> leaves = [] \<or> length priv \<noteq> PrivateKeySize \<or> ttl \<le> 0"
  by (simp add: GenerateSessionMAPWithRuntimeSnapshot_def Let_def)

lemma Generate_fields:
  assumes "GenerateSessionMAPWithRuntimeSnapshot ed sorter i s a c k th rc ph rh rv leaves priv key
      ttl now = Inr smap"
  shows "leaves \<noteq> []" and "length priv = PrivateKeySize" and "0 < ttl"
    and "sm_LeafRecords smap = leaves" and "sm_MerkleRoot smap = BuildTurnTree sorter leaves"
    and "sm_RuntimeSnapshotHash smap = rh" and "sm_RuntimeSnapshotVersion smap = rv"
    and "sm_PolicySnapshotHash smap = ph" and "sm_SessionMAPID smap = i"
    and "sm_Signature smap = copy_bytes (ed_Sign ed priv (AttestationBytes smap))"
    and "sm_CreatedAt smap < sm_ExpiresAt smap"
  using assms
  by (auto simp: GenerateSessionMAPWithRuntimeSnapshot_def Let_def time_Add_def AttestationBytes_def
      split: if_splits)

lemma Generate_total:
  assumes "leaves \<noteq> []" and "length priv = PrivateKeySize" and "0 < ttl"
  obtains smap where "GenerateSessionMAPWithRuntimeSnapshot ed sorter i s a c k th rc ph rh rv leaves
      priv key ttl now = Inr smap"
  using assms by (simp add: GenerateSessionMAPWithRuntimeSnapshot_def Let_def)

text \<open>The signature of a generated manifest is a valid one for the attested bytes.\<close>

lemma Generate_signature:
  assumes "ed25519_correct ed"
    and "GenerateSessionMAPWithRuntimeSnapshot ed sorter i s a c k th rc ph rh rv leaves priv key
      ttl now = Inr smap"
  shows "ed_Verify ed (ed_Public ed priv) (AttestationBytes smap) (list_of_bytes (sm_Signature smap))"
  using ed25519_correctD(2,3) [OF assms(1) Generate_fields(2) [OF assms(2)]]
  by (simp add: Generate_fields(10) [OF assms(2)] list_of_bytes_copy_exact)

section \<open>A concrete signature scheme\<close>

text \<open>
  A model of the contract that runs: the signature of a message is the first half of the private key
  (a shared secret) followed by the digest of the secret and the message. It shows that the
  hypotheses on \<open>ed25519\<close> can hold.
\<close>

definition mac_scheme :: ed25519 where
  "mac_scheme =
     \<lparr>ed_Sign = (\<lambda>priv msg. take 32 priv @ list_of_bytes (sha256_Sum256 (take 32 priv @ msg))),
      ed_Verify = (\<lambda>pub msg sig. sig = pub @ list_of_bytes (sha256_Sum256 (pub @ msg))),
      ed_Public = take 32\<rparr>"

lemma mac_scheme_correct: "ed25519_correct mac_scheme"
  by (simp add: ed25519_correct_def mac_scheme_def PrivateKeySize_def PublicKeySize_def
      SignatureSize_def)

end
