(* ===== verification/Session_Audit.thy ===== *)
theory Session_Audit
  imports Session_Map
begin

text \<open>
  \<^verbatim>\<open>pkg/audit\<close>: replay verification of a session manifest, with and without the
  policy and runtime snapshot registries, and the lineage record that links a manifest to its
  consequence. A registry is an interface in Go, so it is an optional function here and
  \<^verbatim>\<open>nil\<close> is \<open>None\<close>. The properties are the round trip from generation to
  verification, what a successful verification proves about the leaves and the attested fields, the
  limits of the attested encoding, and the exactness of lineage verification.
\<close>

section \<open>Verification of a manifest\<close>

record VerificationResult =
  SignatureValid :: bool
  MerkleRootValid :: bool
  ReplayMatch :: bool

definition empty_result :: VerificationResult where
  "empty_result = \<lparr>SignatureValid = False, MerkleRootValid = False, ReplayMatch = False\<rparr>"

type_synonym PolicySnapshotVerifier = "(hash32 \<Rightarrow> bool) option"
type_synonym RuntimeSnapshotVerifier = "(hash32 \<Rightarrow> u64 \<Rightarrow> bool) option"

definition VerifySessionMAP ::
  "ed25519 \<Rightarrow> (LeafRecord list \<Rightarrow> LeafRecord list) \<Rightarrow> byte list \<Rightarrow> SessionMAP
   \<Rightarrow> go_error + VerificationResult"
where
  "VerifySessionMAP ed sorter pubKey smap =
     (let res = empty_result in
      if length (sm_LeafRecords smap) = 0
        then Inl (ErrorString ''INVALID_AUDIT_FRAME: zero leaf records submitted'')
      else if length pubKey \<noteq> PublicKeySize
        then Inl (ErrorString ''INVALID_PUBLIC_KEY: Ed25519 public key required'')
      else
        let reconstructedRoot = BuildTurnTree sorter (sm_LeafRecords smap) in
        if reconstructedRoot \<noteq> sm_MerkleRoot smap then Inr res
        else
          let res = res\<lparr>MerkleRootValid := True\<rparr>;
              res = res\<lparr>SignatureValid := ed_Verify ed pubKey (AttestationBytes smap)
                         (list_of_bytes (sm_Signature smap))\<rparr>;
              res = res\<lparr>ReplayMatch := MerkleRootValid res \<and> SignatureValid res\<rparr>
          in Inr res)"

definition VerifySessionMAPWithPolicy ::
  "ed25519 \<Rightarrow> (LeafRecord list \<Rightarrow> LeafRecord list) \<Rightarrow> byte list \<Rightarrow> SessionMAP
   \<Rightarrow> PolicySnapshotVerifier \<Rightarrow> go_error + VerificationResult"
where
  "VerifySessionMAPWithPolicy ed sorter pubKey smap verifier =
     (case verifier of
        None \<Rightarrow> Inl (ErrorString ''INVALID_VERIFIER: snapshot verifier required'')
      | Some KnownImmutableSnapshot \<Rightarrow>
          if \<not> KnownImmutableSnapshot (sm_PolicySnapshotHash smap) then Inr empty_result
          else VerifySessionMAP ed sorter pubKey smap)"

definition VerifySessionMAPWithPolicyAndRuntime ::
  "ed25519 \<Rightarrow> (LeafRecord list \<Rightarrow> LeafRecord list) \<Rightarrow> byte list \<Rightarrow> SessionMAP
   \<Rightarrow> PolicySnapshotVerifier \<Rightarrow> RuntimeSnapshotVerifier \<Rightarrow> go_error + VerificationResult"
where
  "VerifySessionMAPWithPolicyAndRuntime ed sorter pubKey smap policyVerifier runtimeVerifier =
     (case policyVerifier of
        None \<Rightarrow> Inl (ErrorString ''INVALID_POLICY_VERIFIER: snapshot verifier required'')
      | Some KnownImmutableSnapshot \<Rightarrow>
     (case runtimeVerifier of
        None \<Rightarrow> Inl (ErrorString ''INVALID_RUNTIME_VERIFIER: runtime snapshot verifier required'')
      | Some KnownRuntimeSnapshot \<Rightarrow>
          if \<not> KnownImmutableSnapshot (sm_PolicySnapshotHash smap) then Inr empty_result
          else if \<not> KnownRuntimeSnapshot (sm_RuntimeSnapshotHash smap)
              (sm_RuntimeSnapshotVersion smap) then Inr empty_result
          else VerifySessionMAP ed sorter pubKey smap))"

section \<open>Lineage records\<close>

text \<open>\<^verbatim>\<open>int64\<close> values are kept as their 64 bits.\<close>

record MachineConsequenceRecord =
  mcr_MCRID :: id16
  mcr_SessionMAPID :: id16
  mcr_MerkleRoot :: hash32
  mcr_PolicySnapshotHash :: hash32
  mcr_RuntimeSnapshotHash :: hash32
  mcr_RuntimeSnapshotVersion :: u64
  mcr_EEPID :: string
  mcr_AEPID :: string
  mcr_LineageDigest :: hash32
  mcr_LinkedAtUnix :: u64

definition lineage_bytes ::
  "id16 \<Rightarrow> id16 \<Rightarrow> hash32 \<Rightarrow> hash32 \<Rightarrow> hash32 \<Rightarrow> u64 \<Rightarrow> string \<Rightarrow> string \<Rightarrow> u64 \<Rightarrow> byte list"
where
  "lineage_bytes mcrID sessionMapID merkleRoot policySnapshotHash runtimeSnapshotHash
     runtimeSnapshotVersion eepID aepID linkedAtUnix =
     list_of_bytes mcrID @ list_of_bytes sessionMapID @ list_of_bytes merkleRoot
     @ list_of_bytes policySnapshotHash @ list_of_bytes runtimeSnapshotHash
     @ PutUint64 runtimeSnapshotVersion
     @ bytes_of_string eepID @ [0] @ bytes_of_string aepID @ [0]
     @ PutUint64 linkedAtUnix"

definition ComputeLineageDigest ::
  "id16 \<Rightarrow> id16 \<Rightarrow> hash32 \<Rightarrow> hash32 \<Rightarrow> hash32 \<Rightarrow> u64 \<Rightarrow> string \<Rightarrow> string \<Rightarrow> u64 \<Rightarrow> hash32"
where
  "ComputeLineageDigest mcrID sessionMapID merkleRoot policySnapshotHash runtimeSnapshotHash
     runtimeSnapshotVersion eepID aepID linkedAtUnix =
     sha256_Sum256 (lineage_bytes mcrID sessionMapID merkleRoot policySnapshotHash
       runtimeSnapshotHash runtimeSnapshotVersion eepID aepID linkedAtUnix)"

definition CompileLineageRecord ::
  "id16 \<Rightarrow> SessionMAP \<Rightarrow> string \<Rightarrow> string \<Rightarrow> u64 \<Rightarrow> go_error + MachineConsequenceRecord"
where
  "CompileLineageRecord mcrID smap eepID aepID linkedAtUnix =
     (if eepID = '''' \<or> aepID = ''''
      then Inl (ErrorString
        ''LINEAGE_MALFORMED: EEP and AEP trackers are required to close the consequence loop'')
      else
        let lineageDigest = ComputeLineageDigest mcrID (sm_SessionMAPID smap) (sm_MerkleRoot smap)
              (sm_PolicySnapshotHash smap) (sm_RuntimeSnapshotHash smap)
              (sm_RuntimeSnapshotVersion smap) eepID aepID linkedAtUnix
        in Inr \<lparr>mcr_MCRID = mcrID, mcr_SessionMAPID = sm_SessionMAPID smap,
             mcr_MerkleRoot = sm_MerkleRoot smap,
             mcr_PolicySnapshotHash = sm_PolicySnapshotHash smap,
             mcr_RuntimeSnapshotHash = sm_RuntimeSnapshotHash smap,
             mcr_RuntimeSnapshotVersion = sm_RuntimeSnapshotVersion smap,
             mcr_EEPID = eepID, mcr_AEPID = aepID, mcr_LineageDigest = lineageDigest,
             mcr_LinkedAtUnix = linkedAtUnix\<rparr>)"

definition VerifyLineageRecord :: "MachineConsequenceRecord \<Rightarrow> SessionMAP \<Rightarrow> bool" where
  "VerifyLineageRecord mcr smap =
     (if mcr_SessionMAPID mcr \<noteq> sm_SessionMAPID smap
        \<or> mcr_MerkleRoot mcr \<noteq> sm_MerkleRoot smap
        \<or> mcr_PolicySnapshotHash mcr \<noteq> sm_PolicySnapshotHash smap
        \<or> mcr_RuntimeSnapshotHash mcr \<noteq> sm_RuntimeSnapshotHash smap
        \<or> mcr_RuntimeSnapshotVersion mcr \<noteq> sm_RuntimeSnapshotVersion smap
      then False
      else case CompileLineageRecord (mcr_MCRID mcr) smap (mcr_EEPID mcr) (mcr_AEPID mcr)
             (mcr_LinkedAtUnix mcr) of
             Inl _ \<Rightarrow> False
           | Inr recalculated \<Rightarrow> mcr_LineageDigest mcr = mcr_LineageDigest recalculated)"

section \<open>What a successful replay means\<close>

lemma VerifySessionMAP_replay:
  "(\<exists>res. VerifySessionMAP ed sorter pub smap = Inr res \<and> ReplayMatch res)
     \<longleftrightarrow> sm_LeafRecords smap \<noteq> [] \<and> length pub = PublicKeySize
       \<and> BuildTurnTree sorter (sm_LeafRecords smap) = sm_MerkleRoot smap
       \<and> ed_Verify ed pub (AttestationBytes smap) (list_of_bytes (sm_Signature smap))"
  by (auto simp: VerifySessionMAP_def Let_def empty_result_def)

text \<open>The flags are consistent on every branch: replay means root and signature.\<close>

lemma VerifySessionMAP_flags:
  "VerifySessionMAP ed sorter pub smap = Inr res \<Longrightarrow>
     (ReplayMatch res \<longleftrightarrow> MerkleRootValid res \<and> SignatureValid res)
   \<and> (SignatureValid res \<longrightarrow> MerkleRootValid res)"
  by (auto simp: VerifySessionMAP_def Let_def empty_result_def split: if_splits)

lemma WithPolicyAndRuntime_replay:
  assumes "VerifySessionMAPWithPolicyAndRuntime ed sorter pub smap (Some P) (Some R) = Inr res"
    and "ReplayMatch res"
  shows "P (sm_PolicySnapshotHash smap)"
    and "R (sm_RuntimeSnapshotHash smap) (sm_RuntimeSnapshotVersion smap)"
    and "VerifySessionMAP ed sorter pub smap = Inr res"
  using assms
  by (auto simp: VerifySessionMAPWithPolicyAndRuntime_def empty_result_def split: if_splits)

text \<open>The manifests that the code can have issued under a private key.\<close>

definition issued_under ::
  "ed25519 \<Rightarrow> (LeafRecord list \<Rightarrow> LeafRecord list) \<Rightarrow> byte list \<Rightarrow> SessionMAP \<Rightarrow> bool"
where
  "issued_under ed sorter priv t \<longleftrightarrow>
     (\<exists>i s a c k th rc ph rh rv leaves key ttl now.
        GenerateSessionMAPWithRuntimeSnapshot ed sorter i s a c k th rc ph rh rv leaves priv key ttl
          now = Inr t)"

lemma issued_underD:
  "issued_under ed sorter priv t \<Longrightarrow>
     sm_LeafRecords t \<noteq> [] \<and> sm_MerkleRoot t = BuildTurnTree sorter (sm_LeafRecords t)"
  unfolding issued_under_def by (metis Generate_fields(1,4,5))

text \<open>A generated manifest verifies under the public key.\<close>

lemma VerifySessionMAP_generated:
  assumes "ed25519_correct ed"
    and "GenerateSessionMAPWithRuntimeSnapshot ed sorter i s a c k th rc ph rh rv leaves priv key
      ttl now = Inr smap"
  shows "VerifySessionMAP ed sorter (ed_Public ed priv) smap
    = Inr \<lparr>SignatureValid = True, MerkleRootValid = True, ReplayMatch = True\<rparr>"
proof -
  note fields = Generate_fields [OF assms(2)]
  show ?thesis
    using Generate_signature [OF assms] ed25519_correctD(1) [OF assms(1) fields(2)]
    by (simp add: VerifySessionMAP_def Let_def empty_result_def fields(1,4,5))
qed

section \<open>Properties of manifests\<close>

text \<open>
  C9: round trip. Generation succeeds on at least one leaf, a private key of the right size and a
  positive lifetime, and the manifest it returns replays: root and signature verify under the public
  key, also against registries that know the policy snapshot and the runtime snapshot it was made
  with.
\<close>

theorem generated_manifest_replays:
  assumes "ed25519_correct ed" and "leaves \<noteq> []" and "length priv = PrivateKeySize" and "0 < ttl"
    and "P ph" and "R rh rv"
  shows "\<exists>smap. GenerateSessionMAPWithRuntimeSnapshot ed sorter i s a c k th rc ph rh rv leaves priv
        key ttl now = Inr smap
      \<and> VerifySessionMAP ed sorter (ed_Public ed priv) smap
          = Inr \<lparr>SignatureValid = True, MerkleRootValid = True, ReplayMatch = True\<rparr>
      \<and> VerifySessionMAPWithPolicyAndRuntime ed sorter (ed_Public ed priv) smap (Some P) (Some R)
          = Inr \<lparr>SignatureValid = True, MerkleRootValid = True, ReplayMatch = True\<rparr>"
proof -
  obtain smap where gen: "GenerateSessionMAPWithRuntimeSnapshot ed sorter i s a c k th rc ph rh rv
      leaves priv key ttl now = Inr smap"
    using assms(2-4) by (rule Generate_total)
  note fields = Generate_fields [OF gen]
  have "VerifySessionMAP ed sorter (ed_Public ed priv) smap
      = Inr \<lparr>SignatureValid = True, MerkleRootValid = True, ReplayMatch = True\<rparr>"
    by (rule VerifySessionMAP_generated [OF assms(1) gen])
  with gen show ?thesis
    using assms(5,6) fields(6-8)
    by (auto simp: VerifySessionMAPWithPolicyAndRuntime_def)
qed

text \<open>
  A forgery against the signing key: a signature that the public key accepts, on bytes that are not the
  attested bytes of any issued manifest.
\<close>

definition forged_signature :: "ed25519 \<Rightarrow> byte list \<Rightarrow> SessionMAP list \<Rightarrow> SessionMAP \<Rightarrow> bool" where
  "forged_signature ed pub issued smap \<longleftrightarrow>
     ed_Verify ed pub (AttestationBytes smap) (list_of_bytes (sm_Signature smap))
   \<and> AttestationBytes smap \<notin> set (map AttestationBytes issued)"

text \<open>
  C8: what a replay proves. Take any list of manifests that the code issued under a private key. A
  manifest that replays against the two registries names a known policy and a known runtime snapshot,
  and it carries a forged signature, or it is tied to one of the issued manifests: its times are those
  of the issued one, and, if the lengths of the strings agree, every attested field is the same, and
  its leaves are the issued leaves as a multiset, or two of the byte strings hashed for the two roots
  collide under SHA-256. Nothing is assumed about the signature scheme.
\<close>

theorem replayed_manifest_is_issued_or_forged:
  assumes "sorts_by_MemoryID sorter" and "\<forall>t\<in>set issued. issued_under ed sorter priv t"
    and "VerifySessionMAPWithPolicyAndRuntime ed sorter pub smap (Some P) (Some R) = Inr res"
    and "ReplayMatch res"
  shows "P (sm_PolicySnapshotHash smap)
    \<and> R (sm_RuntimeSnapshotHash smap) (sm_RuntimeSnapshotVersion smap)
    \<and> (forged_signature ed pub issued smap
       \<or> (\<exists>t\<in>set issued.
            UnixNano (sm_CreatedAt smap) = UnixNano (sm_CreatedAt t)
          \<and> UnixNano (sm_ExpiresAt smap) = UnixNano (sm_ExpiresAt t)
          \<and> (string_lengths smap = string_lengths t \<longrightarrow>
               same_attested_fields smap t
             \<and> (mset (sm_LeafRecords smap) = mset (sm_LeafRecords t)
                \<or> sha256_collision (hashed_inputs sorter (sm_LeafRecords smap)
                    \<union> hashed_inputs sorter (sm_LeafRecords t))))))"
proof -
  note V = WithPolicyAndRuntime_replay [OF assms(3,4)]
  from V(3) assms(4) have ok: "sm_LeafRecords smap \<noteq> []"
      "BuildTurnTree sorter (sm_LeafRecords smap) = sm_MerkleRoot smap"
      "ed_Verify ed pub (AttestationBytes smap) (list_of_bytes (sm_Signature smap))"
    using VerifySessionMAP_replay [of ed sorter pub smap] by auto
  have tied: "same_attested_fields smap t
      \<and> (mset (sm_LeafRecords smap) = mset (sm_LeafRecords t)
         \<or> sha256_collision (hashed_inputs sorter (sm_LeafRecords smap)
             \<union> hashed_inputs sorter (sm_LeafRecords t)))"
    if t: "t \<in> set issued" "AttestationBytes smap = AttestationBytes t" "string_lengths smap = string_lengths t"
    for t
  proof
    have issued: "sm_LeafRecords t \<noteq> []" "sm_MerkleRoot t = BuildTurnTree sorter (sm_LeafRecords t)"
      using assms(2) t(1) by (auto dest: issued_underD)
    show same: "same_attested_fields smap t"
      using t(2) AttestationBytes_inject [OF t(3)] by simp
    then have "BuildTurnTree sorter (sm_LeafRecords smap) = BuildTurnTree sorter (sm_LeafRecords t)"
      using ok(2) issued(2) by (simp add: same_attested_fields_def)
    then show "mset (sm_LeafRecords smap) = mset (sm_LeafRecords t)
         \<or> sha256_collision (hashed_inputs sorter (sm_LeafRecords smap)
             \<union> hashed_inputs sorter (sm_LeafRecords t))"
      by (rule BuildTurnTree_root_binds [OF assms(1) ok(1) issued(1)])
  qed
  show ?thesis
  proof (cases "AttestationBytes smap \<in> set (map AttestationBytes issued)")
    case True
    then obtain t where t: "t \<in> set issued" "AttestationBytes smap = AttestationBytes t" by auto
    with V(1,2) tied AttestationBytes_times [OF t(2)] show ?thesis by blast
  qed (use V(1,2) ok(3) in \<open>simp add: forged_signature_def\<close>)
qed

text \<open>
  C40: the limit of the encoding. The session, agent and actor identifiers are written one after the
  other with no separator and no length, so moving bytes from one to the next does not change the
  verdict of the verifier: a manifest for one triple verifies for another.
\<close>

theorem identity_fields_can_be_shifted:
  assumes "sm_SessionID smap @ sm_AgentID smap @ sm_ActorID smap = s @ a @ c"
  shows "VerifySessionMAP ed sorter pub (smap\<lparr>sm_SessionID := s, sm_AgentID := a, sm_ActorID := c\<rparr>)
    = VerifySessionMAP ed sorter pub smap"
proof -
  have "bytes_of_string (sm_SessionID smap) @ bytes_of_string (sm_AgentID smap)
        @ bytes_of_string (sm_ActorID smap)
      = bytes_of_string s @ bytes_of_string a @ bytes_of_string c"
    using arg_cong [OF assms, of bytes_of_string] by simp
  from arg_cong [OF this, of "\<lambda>z. z @ w" for w]
  have "AttestationBytes (smap\<lparr>sm_SessionID := s, sm_AgentID := a, sm_ActorID := c\<rparr>)
      = AttestationBytes smap"
    by (simp add: AttestationBytes_def)
  then show ?thesis by (simp add: VerifySessionMAP_def)
qed

section \<open>Properties of lineage records\<close>

text \<open>
  Lineage verification is exact. A record verifies against a manifest if and only if it is, field
  by field, the record that compilation makes from that manifest and the record's own identifiers:
  every compiled record verifies, and no other record does.
\<close>

theorem VerifyLineageRecord_exact:
  "VerifyLineageRecord mcr smap \<longleftrightarrow>
     CompileLineageRecord (mcr_MCRID mcr) smap (mcr_EEPID mcr) (mcr_AEPID mcr) (mcr_LinkedAtUnix mcr)
       = Inr mcr"
  by (cases mcr) (auto simp: VerifyLineageRecord_def CompileLineageRecord_def Let_def)

lemma lineage_bytes_inject:
  assumes "CHR 0x00 \<notin> set eep" and "CHR 0x00 \<notin> set eep'"
    and "lineage_bytes m i r p h v eep aep at = lineage_bytes m' i' r' p' h' v' eep' aep' at'"
  shows "m = m' \<and> i = i' \<and> r = r' \<and> p = p' \<and> h = h' \<and> v = v' \<and> eep = eep' \<and> aep = aep'
    \<and> at = at'"
proof -
  have nul: "0 \<notin> set (bytes_of_string s)" if "CHR 0x00 \<notin> set s" for s
  proof
    assume "0 \<in> set (bytes_of_string s)"
    then obtain ch where "ch \<in> set s" "(of_char ch :: byte) = of_char (CHR 0x00)"
      by (auto simp: bytes_of_string_def)
    then show False using that inj_of_char_byte by (metis injD)
  qed
  have tail: "bytes_of_string aep @ [0] @ PutUint64 at = bytes_of_string aep' @ [0] @ PutUint64 at'
      \<longleftrightarrow> aep = aep' \<and> at = at'"
    by (simp add: append_eq_append_conv flip: append_assoc)
  show ?thesis
    using assms(3) tail split_at_separator [OF nul [OF assms(1)] nul [OF assms(2)]]
    by (simp add: lineage_bytes_def)
qed

text \<open>
  C33: the lineage digest binds the whole link. Two records that verify (each against its own
  manifest), whose EEP identifiers contain no NUL byte, and that have the same lineage digest, are
  the same record, or the two hashed byte strings collide under SHA-256.
\<close>

theorem lineage_digest_binds_record:
  assumes "VerifyLineageRecord mcr smap" and "VerifyLineageRecord mcr' smap'"
    and "CHR 0x00 \<notin> set (mcr_EEPID mcr)" and "CHR 0x00 \<notin> set (mcr_EEPID mcr')"
    and "mcr_LineageDigest mcr = mcr_LineageDigest mcr'"
  shows "mcr = mcr' \<or> sha256_collision
    {lineage_bytes (mcr_MCRID mcr) (mcr_SessionMAPID mcr) (mcr_MerkleRoot mcr)
       (mcr_PolicySnapshotHash mcr) (mcr_RuntimeSnapshotHash mcr) (mcr_RuntimeSnapshotVersion mcr)
       (mcr_EEPID mcr) (mcr_AEPID mcr) (mcr_LinkedAtUnix mcr),
     lineage_bytes (mcr_MCRID mcr') (mcr_SessionMAPID mcr') (mcr_MerkleRoot mcr')
       (mcr_PolicySnapshotHash mcr') (mcr_RuntimeSnapshotHash mcr') (mcr_RuntimeSnapshotVersion mcr')
       (mcr_EEPID mcr') (mcr_AEPID mcr') (mcr_LinkedAtUnix mcr')}"
    (is "_ \<or> sha256_collision {?b, ?b'}")
proof (rule disjCI)
  assume none: "\<not> sha256_collision {?b, ?b'}"
  have digest: "mcr_LineageDigest m = sha256_Sum256 (lineage_bytes (mcr_MCRID m)
      (mcr_SessionMAPID m) (mcr_MerkleRoot m) (mcr_PolicySnapshotHash m)
      (mcr_RuntimeSnapshotHash m) (mcr_RuntimeSnapshotVersion m) (mcr_EEPID m) (mcr_AEPID m)
      (mcr_LinkedAtUnix m))" if "VerifyLineageRecord m s" for m s
    using that
    by (auto simp: VerifyLineageRecord_def CompileLineageRecord_def ComputeLineageDigest_def Let_def
        split: if_splits)
  have "?b = ?b'"
    using none by (rule sha256_inject_on) (use assms digest in auto)
  from lineage_bytes_inject [OF assms(3,4) this] assms(5) show "mcr = mcr'"
    by (simp add: MachineConsequenceRecord.equality)
qed

lemma CompileLineageRecord_fields:
  assumes "CompileLineageRecord mcrID smap eep aep at = Inr mcr"
  shows "mcr_EEPID mcr = eep"
    and "mcr_LineageDigest mcr = ComputeLineageDigest mcrID (sm_SessionMAPID smap)
      (sm_MerkleRoot smap) (sm_PolicySnapshotHash smap) (sm_RuntimeSnapshotHash smap)
      (sm_RuntimeSnapshotVersion smap) eep aep at"
    and "VerifyLineageRecord mcr smap"
  using assms by (auto simp: CompileLineageRecord_def VerifyLineageRecord_def Let_def split: if_splits)

text \<open>
  Why the NUL condition is there. The code does not reject NUL bytes in the trackers, and with
  them one digest stands for two different links: the records of two consequences that differ in both
  trackers carry the same lineage digest and verify against the same manifest.
\<close>

theorem NUL_trackers_share_a_digest:
  assumes "CompileLineageRecord mcrID smap (x @ CHR 0x00 # y) z at = Inr mcr"
    and "CompileLineageRecord mcrID smap x (y @ CHR 0x00 # z) at = Inr mcr'"
  shows "mcr_EEPID mcr \<noteq> mcr_EEPID mcr' \<and> mcr_LineageDigest mcr = mcr_LineageDigest mcr'
    \<and> VerifyLineageRecord mcr smap \<and> VerifyLineageRecord mcr' smap"
proof -
  have "ComputeLineageDigest m i r p h v (x @ CHR 0x00 # y) z at
      = ComputeLineageDigest m i r p h v x (y @ CHR 0x00 # z) at" for m i r p h v
    by (simp add: ComputeLineageDigest_def lineage_bytes_def bytes_of_string_def)
  then show ?thesis
    using CompileLineageRecord_fields [OF assms(1)] CompileLineageRecord_fields [OF assms(2)] by simp
qed

section \<open>Concrete instances\<close>

definition demo_key :: "byte list" where
  "demo_key = replicate 64 3"

lemma length_demo_key [simp]: "length demo_key = PrivateKeySize"
  by (simp add: demo_key_def PrivateKeySize_def)

definition demo_generate :: "ed25519 \<Rightarrow> LeafRecord list \<Rightarrow> go_error + SessionMAP" where
  "demo_generate ed leaves =
     GenerateSessionMAPWithRuntimeSnapshot ed (sort_key lr_MemoryID) (copy_bytes [1]) ''s'' ''agent''
       ''actor'' ''task'' zero_bytes zero_bytes (copy_bytes [4]) (copy_bytes [5]) 6 leaves demo_key
       ''key'' Hour 0"

theorem generated_manifest_replays_witness:
  "\<exists>smap. demo_generate mac_scheme [demo_leaf 1] = Inr smap
     \<and> VerifySessionMAP mac_scheme (sort_key lr_MemoryID) (take 32 demo_key) smap
         = Inr \<lparr>SignatureValid = True, MerkleRootValid = True, ReplayMatch = True\<rparr>
     \<and> VerifySessionMAPWithPolicyAndRuntime mac_scheme (sort_key lr_MemoryID) (take 32 demo_key) smap
          (Some (\<lambda>h. h = copy_bytes [4])) (Some (\<lambda>h v. h = copy_bytes [5] \<and> v = 6))
         = Inr \<lparr>SignatureValid = True, MerkleRootValid = True, ReplayMatch = True\<rparr>"
proof -
  have pub: "take 32 = ed_Public mac_scheme" by (simp add: mac_scheme_def)
  show ?thesis
    unfolding demo_generate_def pub
    by (rule generated_manifest_replays [OF mac_scheme_correct])
      (simp_all add: Hour_def Second_def)
qed

text \<open>The manifest of two leaves, with its leaves in the other order: it replays as well.\<close>

theorem replayed_manifest_is_issued_or_forged_witness:
  "\<exists>t smap. demo_generate mac_scheme [demo_leaf 2, demo_leaf 1] = Inr t
     \<and> smap = t\<lparr>sm_LeafRecords := [demo_leaf 1, demo_leaf 2]\<rparr>
     \<and> VerifySessionMAP mac_scheme (sort_key lr_MemoryID) (take 32 demo_key) smap
         = Inr \<lparr>SignatureValid = True, MerkleRootValid = True, ReplayMatch = True\<rparr>
     \<and> \<not> forged_signature mac_scheme (take 32 demo_key) [t] smap
     \<and> same_attested_fields smap t"
proof -
  let ?sorter = "sort_key lr_MemoryID" and ?leaves = "[demo_leaf 2, demo_leaf 1]"
  obtain t where gen: "demo_generate mac_scheme ?leaves = Inr t"
    unfolding demo_generate_def
    by (rule Generate_total [of ?leaves demo_key Hour]) (simp_all add: Hour_def Second_def)
  note gen' = gen [unfolded demo_generate_def]
  note fields = Generate_fields [OF gen']
  let ?s = "t\<lparr>sm_LeafRecords := [demo_leaf 1, demo_leaf 2]\<rparr>"
  have att: "AttestationBytes ?s = AttestationBytes t" by (simp add: AttestationBytes_def)
  have root: "BuildTurnTree ?sorter [demo_leaf 1, demo_leaf 2] = BuildTurnTree ?sorter ?leaves"
    by (rule BuildTurnTree_order_independent [OF sort_key_sorts sort_key_sorts])
      (simp_all add: demo_leaf_def)
  have "ed_Verify mac_scheme (take 32 demo_key) (AttestationBytes t) (list_of_bytes (sm_Signature t))"
    using Generate_signature [OF mac_scheme_correct gen'] by (simp add: mac_scheme_def)
  then have run: "VerifySessionMAP mac_scheme ?sorter (take 32 demo_key) ?s
      = Inr \<lparr>SignatureValid = True, MerkleRootValid = True, ReplayMatch = True\<rparr>"
    using fields(4,5) att root
    by (simp add: VerifySessionMAP_def Let_def empty_result_def PublicKeySize_def demo_key_def)
  then have both: "VerifySessionMAPWithPolicyAndRuntime mac_scheme ?sorter (take 32 demo_key) ?s
      (Some (\<lambda>_. True)) (Some (\<lambda>_ _. True))
      = Inr \<lparr>SignatureValid = True, MerkleRootValid = True, ReplayMatch = True\<rparr>"
    by (simp add: VerifySessionMAPWithPolicyAndRuntime_def)
  have honest: "\<not> forged_signature mac_scheme (take 32 demo_key) [t] ?s"
    by (simp add: forged_signature_def att)
  have "issued_under mac_scheme ?sorter demo_key t"
    using gen' unfolding issued_under_def by blast
  then have "\<forall>u\<in>set [t]. issued_under mac_scheme ?sorter demo_key u" by simp
  from replayed_manifest_is_issued_or_forged [OF sort_key_sorts this both] honest
  have "same_attested_fields ?s t" by (auto simp: string_lengths_def)
  with gen run honest show ?thesis by blast
qed

theorem identity_fields_can_be_shifted_witness:
  "\<exists>smap. demo_generate mac_scheme [demo_leaf 1] = Inr smap \<and> sm_AgentID smap = ''agent''
     \<and> VerifySessionMAP mac_scheme (sort_key lr_MemoryID) (take 32 demo_key)
         (smap\<lparr>sm_SessionID := ''sa'', sm_AgentID := ''gentactor'', sm_ActorID := ''''\<rparr>)
       = VerifySessionMAP mac_scheme (sort_key lr_MemoryID) (take 32 demo_key) smap"
proof -
  obtain smap where gen: "demo_generate mac_scheme [demo_leaf 1] = Inr smap"
    unfolding demo_generate_def
    by (rule Generate_total [of "[demo_leaf 1]" demo_key Hour]) (simp_all add: Hour_def Second_def)
  then have "sm_SessionID smap = ''s''" "sm_AgentID smap = ''agent''" "sm_ActorID smap = ''actor''"
    by (auto simp: demo_generate_def GenerateSessionMAPWithRuntimeSnapshot_def Let_def Hour_def
        Second_def)
  with gen show ?thesis
    using identity_fields_can_be_shifted [of smap "''sa''" "''gentactor''" "''''"] by auto
qed

definition demo_manifest :: SessionMAP where
  "demo_manifest =
     \<lparr>sm_Version = ''0.1'', sm_SessionMAPID = copy_bytes [1], sm_SessionID = ''s'', sm_AgentID = ''a'',
      sm_ActorID = ''c'', sm_TenantHash = zero_bytes, sm_TaskID = ''t'',
      sm_RuntimeContextHash = zero_bytes, sm_PolicySnapshotHash = zero_bytes,
      sm_RuntimeSnapshotHash = zero_bytes, sm_RuntimeSnapshotVersion = 1,
      sm_MerkleRoot = zero_bytes, sm_Signature = zero_bytes, sm_SigningKeyID = ''k'',
      sm_CreatedAt = 0, sm_ExpiresAt = 1, sm_LeafRecords = []\<rparr>"

definition demo_record :: "string \<Rightarrow> string \<Rightarrow> MachineConsequenceRecord" where
  "demo_record eep aep =
     \<lparr>mcr_MCRID = copy_bytes [2], mcr_SessionMAPID = copy_bytes [1], mcr_MerkleRoot = zero_bytes,
      mcr_PolicySnapshotHash = zero_bytes, mcr_RuntimeSnapshotHash = zero_bytes,
      mcr_RuntimeSnapshotVersion = 1, mcr_EEPID = eep, mcr_AEPID = aep,
      mcr_LineageDigest = ComputeLineageDigest (copy_bytes [2]) (copy_bytes [1]) zero_bytes zero_bytes
        zero_bytes 1 eep aep 9,
      mcr_LinkedAtUnix = 9\<rparr>"

lemma demo_record_compiled:
  "eep \<noteq> [] \<Longrightarrow> aep \<noteq> [] \<Longrightarrow>
     CompileLineageRecord (copy_bytes [2]) demo_manifest eep aep 9 = Inr (demo_record eep aep)"
  by (simp add: CompileLineageRecord_def demo_manifest_def demo_record_def)

lemma demo_record_verifies:
  "eep \<noteq> [] \<Longrightarrow> aep \<noteq> [] \<Longrightarrow> VerifyLineageRecord (demo_record eep aep) demo_manifest"
  by (simp add: VerifyLineageRecord_def CompileLineageRecord_def demo_manifest_def demo_record_def)

theorem lineage_digest_binds_record_witness:
  "\<not> (mcr_LineageDigest (demo_record ''e1'' ''a1'') = mcr_LineageDigest (demo_record ''e2'' ''a1'')
      \<and> \<not> sha256_collision
        {lineage_bytes (copy_bytes [2]) (copy_bytes [1]) zero_bytes zero_bytes zero_bytes 1 ''e1'' ''a1'' 9,
         lineage_bytes (copy_bytes [2]) (copy_bytes [1]) zero_bytes zero_bytes zero_bytes 1 ''e2'' ''a1'' 9})"
  using lineage_digest_binds_record
    [OF demo_record_verifies [of "''e1''" "''a1''"] demo_record_verifies [of "''e2''" "''a1''"]]
  by (auto simp: demo_record_def)

theorem NUL_trackers_share_a_digest_witness:
  "mcr_EEPID (demo_record (''e'' @ CHR 0x00 # ''x'') ''a'') \<noteq> mcr_EEPID (demo_record ''e'' (''x'' @ CHR 0x00 # ''a''))
   \<and> mcr_LineageDigest (demo_record (''e'' @ CHR 0x00 # ''x'') ''a'')
       = mcr_LineageDigest (demo_record ''e'' (''x'' @ CHR 0x00 # ''a''))"
  using NUL_trackers_share_a_digest [OF demo_record_compiled [of "''e'' @ CHR 0x00 # ''x''" "''a''"]
      demo_record_compiled [of "''e''" "''x'' @ CHR 0x00 # ''a''"]]
  by simp

end
