(* ===== verification/Gateway.thy ===== *)
theory Gateway
  imports Quarantine Session_Audit
begin

text \<open>
  \<^verbatim>\<open>pkg/gateway\<close>: the sanitizer that stands between memory and model, the two provider
  adapters and the local inference turn. Messages and leaves are lists; the profile cache is an
  interface, so it is an optional function. The runtime monitor is shared with writers that may swap
  its snapshot between two reads: a pointer to it is modelled by the sequence of states that
  successive reads find, and a read inside the loop over the bindings uses the state of its
  iteration. In the same way a context is the sequence of results of \<^verbatim>\<open>ctx.Err()\<close>.
\<close>

section \<open>Data\<close>

abbreviation TombstoneRefresh :: string where
  "TombstoneRefresh \<equiv> ''[VERAXIS: MEMORY_REFRESH_REQUIRED - CONTENT_STRIPPED]''"
abbreviation TombstoneEscalate :: string where
  "TombstoneEscalate \<equiv> ''[VERAXIS: MEMORY_ESCALATION_REQUIRED - CONTENT_STRIPPED]''"
abbreviation TombstoneRefuse :: string where
  "TombstoneRefuse \<equiv> ''[VERAXIS: MEMORY_ADMISSIBILITY_DENIED - CONTENT_STRIPPED]''"
abbreviation TombstoneIgnore :: string where
  "TombstoneIgnore \<equiv> ''[VERAXIS: MEMORY_IGNORED - CONTENT_STRIPPED]''"
abbreviation TombstoneQuarantine :: string where
  "TombstoneQuarantine \<equiv> ''[VERAXIS: MEMORY_QUARANTINED - CONTENT_STRIPPED]''"
abbreviation TombstoneDeleteRequested :: string where
  "TombstoneDeleteRequested \<equiv> ''[VERAXIS: MEMORY_DELETION_REQUESTED - CONTENT_STRIPPED]''"
abbreviation TombstoneHardRefuse :: string where
  "TombstoneHardRefuse \<equiv> ''[VERAXIS: HARD_REFUSE_BOUNDARY_VIOLATION - CONTENT_STRIPPED]''"

record LLMMessage =
  msg_Role :: string
  msg_Content :: string

record MemoryContextBinding =
  mb_MemoryID :: id16
  mb_MemoryHash :: hash32
  mb_MessageIdx :: int

record MemoryProfile =
  mp_MemoryID :: id16
  mp_TenantHash :: IDHash
  mp_DomainHash :: IDHash
  mp_Flags :: MemoryFlags
  mp_UsageConstraints :: string

type_synonym ProfileCache = "id16 \<Rightarrow> MemoryProfile option"
type_synonym monitor_ref = "nat \<Rightarrow> RuntimeMonitor"
type_synonym go_context = "nat \<Rightarrow> go_error option"

record ClientWrapper =
  cw_Profiles :: "ProfileCache option"
  cw_PolicyHash :: hash32
  cw_RuntimeMonitor :: "monitor_ref option"

section \<open>Sanitizing\<close>

definition annotateConstraints :: "string \<Rightarrow> string \<Rightarrow> string" where
  "annotateConstraints content constraints =
     (let constraints = (if constraints = [] then ''qualified memory; restricted downstream use''
                         else constraints)
      in ''[VERAXIS QUALIFIED MEMORY: '' @ constraints @ '']'' @ [CHR 0x0A] @ content)"

definition hashReason :: "string \<Rightarrow> hash32" where
  "hashReason reason = sha256_Sum256 (bytes_of_string reason)"

definition leaf :: "ClientWrapper \<Rightarrow> MemoryContextBinding \<Rightarrow> Decision \<Rightarrow> bool \<Rightarrow> string \<Rightarrow> LeafRecord" where
  "leaf w binding decision injected reason =
     \<lparr>lr_MemoryID = mb_MemoryID binding, lr_MemoryHash = mb_MemoryHash binding,
      lr_DecisionCode = decision_code decision, lr_Injected = injected,
      lr_PolicyHash = cw_PolicyHash w, lr_ReasonCodeHash = hashReason reason\<rparr>"

text \<open>The decision of one binding with a profile, at iteration \<open>k\<close> of the loop.\<close>

definition decide ::
  "ClientWrapper \<Rightarrow> IDHash \<Rightarrow> IDHash \<Rightarrow> EvaluationMask \<Rightarrow> nat \<Rightarrow> MemoryContextBinding \<Rightarrow> MemoryProfile
   \<Rightarrow> Decision \<times> string"
where
  "decide w runtimeTenant runtimeDomain emask k binding profile =
     (let static = EvaluateMemoryHotPath runtimeTenant (mp_TenantHash profile) runtimeDomain
            (mp_DomainHash profile) (mp_Flags profile) emask;
          (decision, reason) =
            (if \<not> ValidateTenant (mp_TenantHash profile) runtimeTenant
               then (DecisionHardRefuse, ReasonTenantMismatch)
             else if \<not> ValidateDomain (mp_DomainHash profile) runtimeDomain
               then (DecisionRefuse, ReasonDomainMismatch)
             else case cw_RuntimeMonitor w of
                 Some mon \<Rightarrow>
                   let runtimeDecision = Lookup (mon k) (mb_MemoryID binding) in
                   if rd_Decision runtimeDecision \<noteq> DecisionUse
                   then (rd_Decision runtimeDecision, rd_Reason runtimeDecision)
                   else static
               | None \<Rightarrow> static)
      in if decision = DecisionUse \<and> mp_UsageConstraints profile \<noteq> []
         then (DecisionQualify, ''QUALIFIED_USE_ONLY'') else (decision, reason))"

text \<open>
  The switch on the decision: the new content of the message, whether the memory is injected, and the
  decision and reason that go into the leaf.
\<close>

definition enforce :: "MemoryProfile \<Rightarrow> Decision \<Rightarrow> string \<Rightarrow> string \<Rightarrow> string \<times> bool \<times> Decision \<times> string" where
  "enforce profile decision reason content =
     (case decision of
        DecisionUse \<Rightarrow> (content, True, decision, reason)
      | DecisionQualify \<Rightarrow>
          (annotateConstraints content (mp_UsageConstraints profile), True, decision, reason)
      | DecisionRefresh \<Rightarrow> (TombstoneRefresh, False, decision, reason)
      | DecisionEscalate \<Rightarrow> (TombstoneEscalate, False, decision, reason)
      | DecisionRefuse \<Rightarrow> (TombstoneRefuse, False, decision, reason)
      | DecisionIgnore \<Rightarrow> (TombstoneIgnore, False, decision, reason)
      | DecisionQuarantine \<Rightarrow> (TombstoneQuarantine, False, decision, reason)
      | DecisionDeleteRequested \<Rightarrow> (TombstoneDeleteRequested, False, decision, reason)
      | DecisionHardRefuse \<Rightarrow> (TombstoneHardRefuse, False, decision, reason)
      | DecisionUnknown _ \<Rightarrow>
          (TombstoneHardRefuse, False, DecisionHardRefuse, ''UNKNOWN_DECISION_FAIL_CLOSED''))"

definition set_content :: "LLMMessage list \<Rightarrow> nat \<Rightarrow> string \<Rightarrow> LLMMessage list" where
  "set_content msgs i c = msgs[i := (msgs ! i)\<lparr>msg_Content := c\<rparr>]"

text \<open>One iteration of the loop over the bindings.\<close>

definition sanitize_binding ::
  "ClientWrapper \<Rightarrow> ProfileCache \<Rightarrow> IDHash \<Rightarrow> IDHash \<Rightarrow> EvaluationMask \<Rightarrow> nat \<Rightarrow> MemoryContextBinding
   \<Rightarrow> LLMMessage list \<Rightarrow> LLMMessage list \<times> LeafRecord"
where
  "sanitize_binding w GetProfile runtimeTenant runtimeDomain emask k binding sanitized =
     (if mb_MessageIdx binding < 0 \<or> mb_MessageIdx binding \<ge> int (length sanitized)
      then (sanitized, leaf w binding DecisionHardRefuse False ReasonMemoryProfileMissing)
      else
        let idx = nat (mb_MessageIdx binding) in
        case GetProfile (mb_MemoryID binding) of
          None \<Rightarrow> (set_content sanitized idx TombstoneHardRefuse,
                   leaf w binding DecisionHardRefuse False ReasonMemoryProfileMissing)
        | Some profile \<Rightarrow>
            let (decision, reason) = decide w runtimeTenant runtimeDomain emask k binding profile;
                (content, injected, decision, reason) =
                  enforce profile decision reason (msg_Content (sanitized ! idx))
            in (set_content sanitized idx content, leaf w binding decision injected reason))"

fun sanitize_loop ::
  "ClientWrapper \<Rightarrow> ProfileCache \<Rightarrow> IDHash \<Rightarrow> IDHash \<Rightarrow> EvaluationMask \<Rightarrow> nat \<Rightarrow> MemoryContextBinding list
   \<Rightarrow> LLMMessage list \<Rightarrow> LeafRecord list \<Rightarrow> LLMMessage list \<times> LeafRecord list"
where
  "sanitize_loop w GetProfile rt rd emask k [] sanitized leaves = (sanitized, leaves)"
| "sanitize_loop w GetProfile rt rd emask k (b # bs) sanitized leaves =
     (let (sanitized', l) = sanitize_binding w GetProfile rt rd emask k b sanitized
      in sanitize_loop w GetProfile rt rd emask (Suc k) bs sanitized' (leaves @ [l]))"

definition SanitizeContextWindow ::
  "ClientWrapper option \<Rightarrow> go_context \<Rightarrow> IDHash \<Rightarrow> IDHash \<Rightarrow> EvaluationMask \<Rightarrow> LLMMessage list
   \<Rightarrow> MemoryContextBinding list \<Rightarrow> go_error + (LLMMessage list \<times> LeafRecord list)"
where
  "SanitizeContextWindow wo ctx runtimeTenant runtimeDomain emask messages bindings =
     (case ctx 0 of
        Some err \<Rightarrow> Inl err
      | None \<Rightarrow>
     (case wo of
        None \<Rightarrow> Inl (ErrorString ''INVALID_GATEWAY: profile cache required'')
      | Some w \<Rightarrow>
     (case cw_Profiles w of
        None \<Rightarrow> Inl (ErrorString ''INVALID_GATEWAY: profile cache required'')
      | Some GetProfile \<Rightarrow>
          Inr (sanitize_loop w GetProfile runtimeTenant runtimeDomain emask 0 bindings messages []))))"

section \<open>Provider adapters\<close>

record OpenAIMessage =
  oa_Role :: string
  oa_Content :: string

record OpenAIRequestPayload =
  oa_Model :: string
  oa_Messages :: "OpenAIMessage list"

record OpenAIAdapter =
  oa_ModelName :: string

definition OpenAI_Convert :: "OpenAIAdapter \<Rightarrow> LLMMessage list \<Rightarrow> OpenAIRequestPayload" where
  "OpenAI_Convert a messages =
     \<lparr>oa_Model = oa_ModelName a,
      oa_Messages = map (\<lambda>m. \<lparr>oa_Role = msg_Role m, oa_Content = msg_Content m\<rparr>) messages\<rparr>"

record AnthropicMessage =
  an_Role :: string
  an_Content :: string

record AnthropicRequestPayload =
  an_Model :: string
  an_System :: string
  an_Messages :: "AnthropicMessage list"

record AnthropicAdapter =
  an_ModelName :: string

fun anthropic_loop ::
  "LLMMessage list \<Rightarrow> string \<Rightarrow> AnthropicMessage list \<Rightarrow> go_error + (string \<times> AnthropicMessage list)"
where
  "anthropic_loop [] sys acc = Inr (sys, acc)"
| "anthropic_loop (m # ms) sys acc =
     (if msg_Role m = ''system'' then
        anthropic_loop ms (if sys \<noteq> [] then sys @ [CHR 0x0A] @ msg_Content m else msg_Content m) acc
      else if msg_Role m \<noteq> ''user'' \<and> msg_Role m \<noteq> ''assistant''
        then Inl (ErrorString ''ANTHROPIC_PROVIDER_ERR: role must be user or assistant'')
      else anthropic_loop ms sys (acc @ [\<lparr>an_Role = msg_Role m, an_Content = msg_Content m\<rparr>]))"

definition Anthropic_Convert ::
  "AnthropicAdapter \<Rightarrow> LLMMessage list \<Rightarrow> go_error + AnthropicRequestPayload"
where
  "Anthropic_Convert a messages =
     (case anthropic_loop messages [] [] of
        Inl err \<Rightarrow> Inl err
      | Inr (sys, ms) \<Rightarrow> Inr \<lparr>an_Model = an_ModelName a, an_System = sys, an_Messages = ms\<rparr>)"

section \<open>The inference turn\<close>

record TokenMetrics =
  PromptTokens :: int
  CompletionTokens :: int
  TotalTokens :: int

record ProviderResponse =
  pr_Text :: string
  pr_Tokens :: TokenMetrics

type_synonym LLMProviderAdapter = "go_context \<Rightarrow> LLMMessage list \<Rightarrow> go_error + ProviderResponse"

text \<open>The provider's check of the context is its next observation after the sanitizer's.\<close>

definition MockInferenceProvider_Invoke :: "ProviderResponse \<Rightarrow> LLMProviderAdapter" where
  "MockInferenceProvider_Invoke response ctx messages =
     (case ctx 1 of
        Some err \<Rightarrow> Inl err
      | None \<Rightarrow>
          if pr_Text response = [] then Inl (ErrorString ''MOCK_PROVIDER_ERR: response text required'')
          else Inr response)"

record AdmissibleInferenceBlock =
  ib_InferenceID :: string
  ib_ModelName :: string
  ib_ResponseText :: string
  ib_UsageTokens :: TokenMetrics
  ib_SessionMAP :: SessionMAP
  ib_CompletedAt :: go_time

record MockRuntimeContext =
  rc_Ctx :: "go_context option"
  rc_Tenant :: IDHash
  rc_Domain :: IDHash
  rc_Mask :: EvaluationMask
  rc_MapID :: id16
  rc_SessionID :: string
  rc_AgentID :: string
  rc_ActorID :: string
  rc_TaskID :: string
  rc_ContextHash :: hash32
  rc_PrivateKey :: "byte list"
  rc_KeyID :: string
  rc_PolicySnapshotHash :: hash32
  rc_Now :: go_time
  rc_TTL :: duration

record LifecycleRunner =
  lc_Wrapper :: "ClientWrapper option"
  lc_Adapter :: "OpenAIAdapter option"
  lc_Provider :: "LLMProviderAdapter option"

definition context_Background :: go_context where
  "context_Background = (\<lambda>_. None)"

text \<open>
  What a turn does: the messages of the provider calls it made, in order, the payload it returns and
  its result.
\<close>

record turn_outcome =
  to_Calls :: "LLMMessage list list"
  to_Payload :: OpenAIRequestPayload
  to_Result :: "go_error + AdmissibleInferenceBlock"

definition empty_payload :: OpenAIRequestPayload where
  "empty_payload = \<lparr>oa_Model = [], oa_Messages = []\<rparr>"

definition runtime_info :: "ClientWrapper \<Rightarrow> nat \<Rightarrow> hash32 \<times> u64" where
  "runtime_info w k =
     (case cw_RuntimeMonitor w of None \<Rightarrow> (zero_bytes, 0) | Some mon \<Rightarrow> ActiveSnapshotInfo (mon k))"

definition runner_parts ::
  "LifecycleRunner option \<Rightarrow> (ClientWrapper \<times> OpenAIAdapter \<times> LLMProviderAdapter) option"
where
  "runner_parts ro =
     (case ro of None \<Rightarrow> None
      | Some r \<Rightarrow>
          (case (lc_Wrapper r, lc_Adapter r, lc_Provider r) of
             (Some w, Some adapter, Some provider) \<Rightarrow> Some (w, adapter, provider)
           | _ \<Rightarrow> None))"

text \<open>\<open>clock\<close> gives the successive results of \<^verbatim>\<open>time.Now()\<close>.\<close>

definition ExecuteAdmissibleTurn ::
  "ed25519 \<Rightarrow> (LeafRecord list \<Rightarrow> LeafRecord list) \<Rightarrow> (nat \<Rightarrow> go_time) \<Rightarrow> LifecycleRunner option
   \<Rightarrow> LLMMessage list \<Rightarrow> MemoryContextBinding list \<Rightarrow> MockRuntimeContext \<Rightarrow> turn_outcome"
where
  "ExecuteAdmissibleTurn ed sorter clock ro messages bindings params0 =
     (case runner_parts ro of
        None \<Rightarrow> \<lparr>to_Calls = [], to_Payload = empty_payload, to_Result = Inl (ErrorString
           ''INVALID_LIFECYCLE_RUNNER: wrapper, adapter, and provider required'')\<rparr>
      | Some (w, adapter, provider) \<Rightarrow>
          let ctx = (case rc_Ctx params0 of None \<Rightarrow> context_Background | Some c \<Rightarrow> c);
              now = (if IsZero (rc_Now params0) then clock 0 else rc_Now params0);
              ttl = (if rc_TTL params0 \<le> 0 then Hour else rc_TTL params0)
          in
          if length (rc_PrivateKey params0) \<noteq> PrivateKeySize then
            \<lparr>to_Calls = [], to_Payload = empty_payload, to_Result =
               Inl (ErrorString ''INVALID_RUNTIME_CONTEXT: Ed25519 private key required'')\<rparr>
          else
            (case SanitizeContextWindow (Some w) ctx (rc_Tenant params0) (rc_Domain params0)
                (rc_Mask params0) messages bindings of
               Inl err \<Rightarrow> \<lparr>to_Calls = [], to_Payload = empty_payload, to_Result = Inl err\<rparr>
             | Inr (sanitized, leaves) \<Rightarrow>
                 let providerPayload = OpenAI_Convert adapter sanitized in
                 (case provider ctx sanitized of
                    Inl err \<Rightarrow>
                      \<lparr>to_Calls = [sanitized], to_Payload = providerPayload, to_Result = Inl err\<rparr>
                  | Inr providerResponse \<Rightarrow>
                      let policyHash = (if rc_PolicySnapshotHash params0 \<noteq> zero_bytes
                            then rc_PolicySnapshotHash params0 else cw_PolicyHash w);
                          (rsHash, rsVersion) = runtime_info w (length bindings)
                      in
                      (case GenerateSessionMAPWithRuntimeSnapshot ed sorter (rc_MapID params0)
                          (rc_SessionID params0) (rc_AgentID params0) (rc_ActorID params0)
                          (rc_TaskID params0) (rc_Tenant params0) (rc_ContextHash params0) policyHash
                          rsHash rsVersion leaves (rc_PrivateKey params0) (rc_KeyID params0) ttl now of
                         Inl err \<Rightarrow>
                           \<lparr>to_Calls = [sanitized], to_Payload = providerPayload, to_Result = Inl err\<rparr>
                       | Inr smap \<Rightarrow>
                           \<lparr>to_Calls = [sanitized], to_Payload = providerPayload, to_Result = Inr
                              \<lparr>ib_InferenceID = ''inf_local_0001'',
                               ib_ModelName = oa_ModelName adapter,
                               ib_ResponseText = pr_Text providerResponse,
                               ib_UsageTokens = pr_Tokens providerResponse, ib_SessionMAP = smap,
                               ib_CompletedAt = (if IsZero now then clock 1 else now)\<rparr>\<rparr>))))"

section \<open>Editing one message\<close>

lemma length_set_content [simp]: "length (set_content msgs i c) = length msgs"
  by (simp add: set_content_def)

lemma roles_set_content [simp]: "map msg_Role (set_content msgs i c) = map msg_Role msgs"
  by (cases "i < length msgs") (simp_all add: set_content_def map_update list_update_same_conv list_update_beyond)

lemma set_content_twice [simp]: "set_content (set_content msgs i c) i d = set_content msgs i d"
  by (cases "i < length msgs") (simp_all add: set_content_def list_update_beyond)

lemma set_content_same [simp]:
  "i < length msgs \<Longrightarrow> set_content msgs i (msg_Content (msgs ! i)) = msgs"
  by (simp add: set_content_def)

lemma nth_set_content [simp]:
  "i < length msgs \<Longrightarrow> msg_Content (set_content msgs i c ! i) = c"
  "i \<noteq> j \<Longrightarrow> set_content msgs i c ! j = msgs ! j"
  by (simp_all add: set_content_def)

lemma set_content_commute:
  "i \<noteq> j \<Longrightarrow> set_content (set_content msgs i c) j d = set_content (set_content msgs j d) i c"
  by (simp add: set_content_def list_update_swap)

section \<open>One binding\<close>

lemma enforce_injected: "fst (snd (enforce p d r c)) \<longleftrightarrow> d = DecisionUse \<or> d = DecisionQualify"
  by (cases d) (simp_all add: enforce_def)

lemma enforce_leaf_part: "snd (enforce p d r c) = snd (enforce p d r c')"
  by (cases d) (simp_all add: enforce_def)

lemma enforce_refused: "\<not> fst (snd (enforce p d r c)) \<Longrightarrow> fst (enforce p d r c) = fst (enforce p d r c')"
  by (cases d) (simp_all add: enforce_def)

lemma enforce_admitted:
  "fst (enforce p DecisionUse r c) = c"
  "mp_UsageConstraints p \<noteq> [] \<Longrightarrow> fst (enforce p DecisionQualify r c)
     = ''[VERAXIS QUALIFIED MEMORY: '' @ mp_UsageConstraints p @ '']'' @ [CHR 0x0A] @ c"
  by (simp_all add: enforce_def annotateConstraints_def)

lemma enforce_leaf_code:
  "fst (snd (snd (enforce p d r c)))
     = (case d of DecisionUnknown _ \<Rightarrow> DecisionHardRefuse | _ \<Rightarrow> d)"
  by (cases d) (simp_all add: enforce_def)

text \<open>The verdict of the monitor at iteration \<open>k\<close>; without a monitor everything passes.\<close>

definition monitor_passes :: "ClientWrapper \<Rightarrow> nat \<Rightarrow> id16 \<Rightarrow> bool" where
  "monitor_passes w k mid \<longleftrightarrow>
     (case cw_RuntimeMonitor w of
        None \<Rightarrow> True | Some mon \<Rightarrow> rd_Decision (Lookup (mon k) mid) = DecisionUse)"

definition admissible_profile ::
  "ClientWrapper \<Rightarrow> IDHash \<Rightarrow> IDHash \<Rightarrow> EvaluationMask \<Rightarrow> nat \<Rightarrow> id16 \<Rightarrow> MemoryProfile \<Rightarrow> bool"
where
  "admissible_profile w rt rd emask k mid p \<longleftrightarrow>
     mp_TenantHash p = rt \<and> mp_DomainHash p = rd \<and> monitor_passes w k mid
   \<and> \<not> bit (mp_Flags p) 1 \<and> \<not> bit (mp_Flags p) 2 \<and> \<not> bit (mp_Flags p) 3
   \<and> mp_Flags p AND ProhibitedSafety emask = 0 \<and> mp_Flags p AND ProhibitedUseBlocks emask = 0
   \<and> mp_Flags p AND AllowedUseClasses emask \<noteq> 0"

lemma hot_path_never_qualifies: "fst (EvaluateMemoryHotPath rt mt rd md m emask) \<noteq> DecisionQualify"
  using hot_path_decisions [of rt mt rd md m emask] by auto

text \<open>The decision before the usage constraints are looked at; it is never a qualification.\<close>

lemma decide_shape:
  assumes "mp_TenantHash p = rt" and "mp_DomainHash p = rd"
  obtains d r where "decide w rt rd emask k b p
      = (if d = DecisionUse \<and> mp_UsageConstraints p \<noteq> [] then (DecisionQualify, ''QUALIFIED_USE_ONLY'') else (d, r))"
    and "d \<noteq> DecisionQualify"
    and "d = DecisionUse \<longleftrightarrow> monitor_passes w k (mb_MemoryID b)
      \<and> fst (EvaluateMemoryHotPath rt rt rd rd (mp_Flags p) emask) = DecisionUse"
proof -
  let ?static = "EvaluateMemoryHotPath rt rt rd rd (mp_Flags p) emask"
  let ?v = "case cw_RuntimeMonitor w of
      Some mon \<Rightarrow> let d = Lookup (mon k) (mb_MemoryID b) in
        if rd_Decision d \<noteq> DecisionUse then (rd_Decision d, rd_Reason d) else ?static
    | None \<Rightarrow> ?static"
  have "decide w rt rd emask k b p = (if fst ?v = DecisionUse \<and> mp_UsageConstraints p \<noteq> []
      then (DecisionQualify, ''QUALIFIED_USE_ONLY'') else (fst ?v, snd ?v))"
    using assms by (simp add: decide_def Let_def case_prod_beta)
  moreover have "fst ?v \<noteq> DecisionQualify"
    using snapgate.gated_qualify [OF hot_path_never_qualifies]
    by (auto simp: Lookup_def Let_def hot_path_never_qualifies split: option.split)
  moreover have "fst ?v = DecisionUse
      \<longleftrightarrow> monitor_passes w k (mb_MemoryID b) \<and> fst ?static = DecisionUse"
    by (auto simp: monitor_passes_def Let_def split: option.split)
  ultimately show thesis by (rule that)
qed

lemma decide_other_tenant_or_domain:
  "mp_TenantHash p \<noteq> rt \<or> mp_DomainHash p \<noteq> rd \<Longrightarrow>
     fst (decide w rt rd emask k b p) \<in> {DecisionHardRefuse, DecisionRefuse}"
  by (cases "mp_TenantHash p = rt") (simp_all add: decide_def Let_def)

lemma decide_admits_iff:
  "fst (decide w rt rd emask k b p) \<in> {DecisionUse, DecisionQualify}
     \<longleftrightarrow> admissible_profile w rt rd emask k (mb_MemoryID b) p"
proof (cases "mp_TenantHash p = rt \<and> mp_DomainHash p = rd")
  case False
  then show ?thesis
    using decide_other_tenant_or_domain [of p rt rd w emask k b] by (auto simp: admissible_profile_def)
next
  case True
  then obtain d r where "decide w rt rd emask k b p
      = (if d = DecisionUse \<and> mp_UsageConstraints p \<noteq> [] then (DecisionQualify, ''QUALIFIED_USE_ONLY'') else (d, r))"
      "d \<noteq> DecisionQualify"
      "d = DecisionUse \<longleftrightarrow> monitor_passes w k (mb_MemoryID b)
        \<and> fst (EvaluateMemoryHotPath rt rt rd rd (mp_Flags p) emask) = DecisionUse"
    using decide_shape [of p rt rd w emask k b] by blast
  then show ?thesis
    using True by (auto simp: admissible_profile_def hot_path_use_iff)
qed

lemma decide_admitted_code:
  assumes "fst (decide w rt rd emask k b p) \<in> {DecisionUse, DecisionQualify}"
  shows "fst (decide w rt rd emask k b p)
    = (if mp_UsageConstraints p = [] then DecisionUse else DecisionQualify)"
proof (cases "mp_TenantHash p = rt \<and> mp_DomainHash p = rd")
  case False
  then show ?thesis
    using assms decide_other_tenant_or_domain [of p rt rd w emask k b] by auto
next
  case True
  then obtain d r where "decide w rt rd emask k b p
      = (if d = DecisionUse \<and> mp_UsageConstraints p \<noteq> [] then (DecisionQualify, ''QUALIFIED_USE_ONLY'') else (d, r))"
      "d \<noteq> DecisionQualify"
    using decide_shape [of p rt rd w emask k b] by blast
  with assms show ?thesis by (auto split: if_splits)
qed

lemma sanitize_binding_frame [simp]:
  "length (fst (sanitize_binding w G rt rd emask k b msgs)) = length msgs"
  "map msg_Role (fst (sanitize_binding w G rt rd emask k b msgs)) = map msg_Role msgs"
  by (auto simp: sanitize_binding_def Let_def case_prod_beta split: option.split)

lemma sanitize_binding_leaf:
  "length msgs' = length msgs \<Longrightarrow>
     snd (sanitize_binding w G rt rd emask k b msgs') = snd (sanitize_binding w G rt rd emask k b msgs)"
  by (auto simp: sanitize_binding_def Let_def case_prod_beta
      enforce_leaf_part [of _ _ _ "msg_Content (msgs' ! nat (mb_MessageIdx b))"
        "msg_Content (msgs ! nat (mb_MessageIdx b))"]
      split: option.split)

lemma sanitize_binding_other:
  "mb_MessageIdx b \<noteq> int i \<Longrightarrow> fst (sanitize_binding w G rt rd emask k b msgs) ! i = msgs ! i"
  by (auto simp: sanitize_binding_def Let_def case_prod_beta split: option.split)

lemma sanitize_binding_injected:
  "lr_Injected (snd (sanitize_binding w G rt rd emask k b msgs)) \<longleftrightarrow>
     0 \<le> mb_MessageIdx b \<and> mb_MessageIdx b < int (length msgs)
   \<and> (\<exists>p. G (mb_MemoryID b) = Some p \<and> admissible_profile w rt rd emask k (mb_MemoryID b) p)"
  using decide_admits_iff [of w rt rd emask k b]
  by (auto simp: sanitize_binding_def Let_def case_prod_beta leaf_def enforce_injected
      split: option.split)

lemma sanitize_binding_ids [simp]:
  "lr_MemoryID (snd (sanitize_binding w G rt rd emask k b msgs)) = mb_MemoryID b"
  "lr_MemoryHash (snd (sanitize_binding w G rt rd emask k b msgs)) = mb_MemoryHash b"
  "lr_PolicyHash (snd (sanitize_binding w G rt rd emask k b msgs)) = cw_PolicyHash w"
  by (simp_all add: sanitize_binding_def Let_def case_prod_beta leaf_def split: option.split)

text \<open>
  The constraints that the profile of a memory puts on its use, and the text that a message gets in
  front of it: one line for each of its bindings whose memory has constraints, the last one first.
\<close>

definition usage_constraints :: "ProfileCache \<Rightarrow> id16 \<Rightarrow> string" where
  "usage_constraints GetProfile mid =
     (case GetProfile mid of None \<Rightarrow> [] | Some p \<Rightarrow> mp_UsageConstraints p)"

definition qualify_once :: "ProfileCache \<Rightarrow> MemoryContextBinding \<Rightarrow> string \<Rightarrow> string" where
  "qualify_once GetProfile b content =
     (if usage_constraints GetProfile (mb_MemoryID b) = [] then content
      else ''[VERAXIS QUALIFIED MEMORY: '' @ usage_constraints GetProfile (mb_MemoryID b) @ '']''
        @ [CHR 0x0A] @ content)"

lemma sanitize_binding_admitted:
  assumes "lr_Injected (snd (sanitize_binding w G rt rd emask k b msgs))"
  shows "mb_MessageIdx b = int i \<Longrightarrow> i < length msgs \<Longrightarrow>
      msg_Content (fst (sanitize_binding w G rt rd emask k b msgs) ! i)
        = qualify_once G b (msg_Content (msgs ! i))"
    and "lr_DecisionCode (snd (sanitize_binding w G rt rd emask k b msgs))
      = decision_code (if usage_constraints G (mb_MemoryID b) = [] then DecisionUse else DecisionQualify)"
proof -
  from assms have idx: "0 \<le> mb_MessageIdx b" "mb_MessageIdx b < int (length msgs)"
    by (simp_all add: sanitize_binding_injected)
  from assms obtain p where p: "G (mb_MemoryID b) = Some p"
      "admissible_profile w rt rd emask k (mb_MemoryID b) p"
    unfolding sanitize_binding_injected by blast
  have code: "fst (decide w rt rd emask k b p)
      = (if mp_UsageConstraints p = [] then DecisionUse else DecisionQualify)"
    using decide_admits_iff [of w rt rd emask k b p] p(2) by (intro decide_admitted_code) blast
  note shape = sanitize_binding_def Let_def case_prod_beta usage_constraints_def qualify_once_def leaf_def
  show "lr_DecisionCode (snd (sanitize_binding w G rt rd emask k b msgs))
      = decision_code (if usage_constraints G (mb_MemoryID b) = [] then DecisionUse else DecisionQualify)"
    using idx p(1) code by (simp add: shape enforce_leaf_code)
  show "msg_Content (fst (sanitize_binding w G rt rd emask k b msgs) ! i)
      = qualify_once G b (msg_Content (msgs ! i))" if "mb_MessageIdx b = int i" "i < length msgs"
    using that p(1) code by (simp add: shape enforce_admitted)
qed

text \<open>
  Changing the content of a message beforehand changes at most the content of that message
  afterwards, and nothing at all when the binding refuses it.
\<close>

lemma sanitize_binding_set_content:
  assumes "i < length msgs"
  shows "\<exists>c'. fst (sanitize_binding w G rt rd emask k b (set_content msgs i c))
      = set_content (fst (sanitize_binding w G rt rd emask k b msgs)) i c'"
proof (cases "mb_MessageIdx b = int i")
  case True
  with assms show ?thesis
    by (auto simp: sanitize_binding_def Let_def case_prod_beta split: option.split)
next
  case False
  then have "0 \<le> mb_MessageIdx b \<Longrightarrow> nat (mb_MessageIdx b) \<noteq> i" by auto
  then show ?thesis
    by (auto simp: sanitize_binding_def Let_def case_prod_beta set_content_commute
        split: option.split)
qed

lemma sanitize_binding_refused:
  assumes "mb_MessageIdx b = int i" and "i < length msgs"
    and "\<not> lr_Injected (snd (sanitize_binding w G rt rd emask k b msgs))"
  shows "fst (sanitize_binding w G rt rd emask k b (set_content msgs i c))
    = fst (sanitize_binding w G rt rd emask k b msgs)"
  using assms enforce_refused [of _ _ _ c "msg_Content (msgs ! i)"]
  by (auto simp: sanitize_binding_def Let_def case_prod_beta leaf_def
      enforce_leaf_part [of _ _ _ c "msg_Content (msgs ! i)"] split: option.splits)

section \<open>The loop\<close>

lemma sanitize_loop_acc:
  "sanitize_loop w G rt rd emask k bs msgs (acc @ acc')
     = (fst (sanitize_loop w G rt rd emask k bs msgs acc'),
        acc @ snd (sanitize_loop w G rt rd emask k bs msgs acc'))"
  by (induction bs arbitrary: k msgs acc') (simp_all add: case_prod_beta)

lemma sanitize_loop_step:
  "sanitize_loop w G rt rd emask k (b # bs) msgs [] =
     (let (msgs', l) = sanitize_binding w G rt rd emask k b msgs;
          (out, ls) = sanitize_loop w G rt rd emask (Suc k) bs msgs' []
      in (out, l # ls))"
  using sanitize_loop_acc [of w G rt rd emask "Suc k" bs
      "fst (sanitize_binding w G rt rd emask k b msgs)"
      "[snd (sanitize_binding w G rt rd emask k b msgs)]" "[]"]
  by (simp add: case_prod_beta)

lemma sanitize_loop_frame [simp]:
  "length (fst (sanitize_loop w G rt rd emask k bs msgs [])) = length msgs"
  "map msg_Role (fst (sanitize_loop w G rt rd emask k bs msgs [])) = map msg_Role msgs"
  "length (snd (sanitize_loop w G rt rd emask k bs msgs [])) = length bs"
  by (induction bs arbitrary: k msgs)
    (simp_all add: sanitize_loop_step case_prod_beta del: sanitize_loop.simps(2))

lemma sanitize_loop_leaf:
  "j < length bs \<Longrightarrow>
     snd (sanitize_loop w G rt rd emask k bs msgs []) ! j
       = snd (sanitize_binding w G rt rd emask (k + j) (bs ! j) msgs)"
proof (induction bs arbitrary: k msgs j)
  case Nil
  then show ?case by simp
next
  case (Cons b bs)
  have "snd (sanitize_binding w G rt rd emask k' b' (fst (sanitize_binding w G rt rd emask k b msgs)))
      = snd (sanitize_binding w G rt rd emask k' b' msgs)" for k' b'
    by (rule sanitize_binding_leaf) simp
  with Cons show ?case
    by (cases j) (simp_all add: sanitize_loop_step case_prod_beta del: sanitize_loop.simps(2))
qed

lemma sanitize_loop_unbound:
  "\<forall>b\<in>set bs. mb_MessageIdx b \<noteq> int i \<Longrightarrow>
     fst (sanitize_loop w G rt rd emask k bs msgs []) ! i = msgs ! i"
  by (induction bs arbitrary: k msgs)
    (simp_all add: sanitize_loop_step case_prod_beta sanitize_binding_other
      del: sanitize_loop.simps(2))

lemma sanitize_loop_admitted:
  assumes "i < length msgs"
    and "\<forall>j<length bs. mb_MessageIdx (bs ! j) = int i \<longrightarrow>
      lr_Injected (snd (sanitize_loop w G rt rd emask k bs msgs []) ! j)"
  shows "msg_Content (fst (sanitize_loop w G rt rd emask k bs msgs []) ! i)
    = fold (qualify_once G) (filter (\<lambda>b. mb_MessageIdx b = int i) bs) (msg_Content (msgs ! i))"
  using assms
proof (induction bs arbitrary: k msgs)
  case Nil
  then show ?case by simp
next
  case (Cons b bs)
  let ?step = "sanitize_binding w G rt rd emask k b msgs"
  have "msg_Content (fst ?step ! i)
      = (if mb_MessageIdx b = int i then qualify_once G b (msg_Content (msgs ! i)) else msg_Content (msgs ! i))"
    using Cons.prems(1) Cons.prems(2) [rule_format, of 0]
    by (cases "mb_MessageIdx b = int i")
      (auto simp: sanitize_loop_step case_prod_beta sanitize_binding_admitted(1) sanitize_binding_other
        simp del: sanitize_loop.simps(2))
  moreover have "msg_Content (fst (sanitize_loop w G rt rd emask (Suc k) bs (fst ?step) []) ! i)
      = fold (qualify_once G) (filter (\<lambda>b. mb_MessageIdx b = int i) bs) (msg_Content (fst ?step ! i))"
  proof (intro Cons.IH allI impI)
    fix j
    assume "j < length bs" and "mb_MessageIdx (bs ! j) = int i"
    then show "lr_Injected (snd (sanitize_loop w G rt rd emask (Suc k) bs (fst ?step) []) ! j)"
      using Cons.prems(2) [rule_format, of "Suc j"]
      by (simp add: sanitize_loop_step case_prod_beta del: sanitize_loop.simps(2))
  qed (use Cons.prems(1) in simp)
  ultimately show ?case
    by (simp add: sanitize_loop_step case_prod_beta del: sanitize_loop.simps(2))
qed

lemma sanitize_loop_set_content:
  assumes "i < length msgs" and "j < length bs" and "mb_MessageIdx (bs ! j) = int i"
    and "\<not> lr_Injected (snd (sanitize_loop w G rt rd emask k bs msgs []) ! j)"
  shows "sanitize_loop w G rt rd emask k bs (set_content msgs i c) []
    = sanitize_loop w G rt rd emask k bs msgs []"
  using assms
proof (induction bs arbitrary: k msgs j c)
  case Nil
  then show ?case by simp
next
  case (Cons b bs)
  note step = sanitize_loop_step case_prod_beta
  let ?s = "\<lambda>ms. sanitize_binding w G rt rd emask k b ms"
  have leaf: "snd (?s (set_content msgs i c)) = snd (?s msgs)"
    by (rule sanitize_binding_leaf) simp
  have "sanitize_loop w G rt rd emask (Suc k) bs (fst (?s (set_content msgs i c))) []
      = sanitize_loop w G rt rd emask (Suc k) bs (fst (?s msgs)) []"
  proof (cases j)
    case 0
    with Cons.prems have "fst (?s (set_content msgs i c)) = fst (?s msgs)"
      by (intro sanitize_binding_refused) (simp_all add: step del: sanitize_loop.simps(2))
    then show ?thesis by simp
  next
    case (Suc j')
    obtain c' where "fst (?s (set_content msgs i c)) = set_content (fst (?s msgs)) i c'"
      using sanitize_binding_set_content [OF Cons.prems(1)] by metis
    moreover from Cons.prems Suc
    have "sanitize_loop w G rt rd emask (Suc k) bs (set_content (fst (?s msgs)) i c') []
        = sanitize_loop w G rt rd emask (Suc k) bs (fst (?s msgs)) []"
      by (intro Cons.IH [of _ j']) (simp_all add: step del: sanitize_loop.simps(2))
    ultimately show ?thesis by simp
  qed
  with leaf show ?case by (simp add: step del: sanitize_loop.simps(2))
qed

lemma SanitizeContextWindow_InrE:
  assumes "SanitizeContextWindow wo ctx rt rd emask messages bindings = Inr (sanitized, leaves)"
  obtains w G where "wo = Some w" and "cw_Profiles w = Some G" and "ctx 0 = None"
    and "sanitize_loop w G rt rd emask 0 bindings messages [] = (sanitized, leaves)"
  using assms by (auto simp: SanitizeContextWindow_def split: option.splits)

text \<open>A memory that the monitor refuses throughout the call keeps its message out of the window.\<close>

lemma SanitizeContextWindow_blocked:
  assumes "cw_RuntimeMonitor w = Some mon" and "rd_Decision (Lookup (mon j) (mb_MemoryID (bindings ! j))) \<noteq> DecisionUse"
    and "j < length bindings" and "mb_MessageIdx (bindings ! j) = int i" and "i < length messages"
  shows "SanitizeContextWindow (Some w) ctx rt rd emask (set_content messages i other) bindings
    = SanitizeContextWindow (Some w) ctx rt rd emask messages bindings"
proof -
  have "\<not> lr_Injected (snd (sanitize_loop w G rt rd emask 0 bindings messages []) ! j)" for G
    using sanitize_loop_leaf [OF assms(3), of w G rt rd emask 0 messages] assms(1,2)
    by (simp add: sanitize_binding_injected admissible_profile_def monitor_passes_def)
  then show ?thesis
    using sanitize_loop_set_content [OF assms(5,3,4), of w _ rt rd emask 0]
    by (simp add: SanitizeContextWindow_def split: option.split)
qed

section \<open>Properties of the sanitizer\<close>

text \<open>
  C1: admission is exact, binding by binding. Every binding gets one leaf, in order, that names its
  memory and the wrapper's policy; the leaf says that the memory was injected if and only if the
  binding points into the window, the memory has a profile of the runtime tenant and domain, the
  monitor passes it at the moment of its iteration, it is neither expired, nor marked for deletion,
  nor revoked, none of its flags is prohibited, and some use class of it is allowed.
\<close>

theorem injected_iff_admissible:
  assumes "SanitizeContextWindow (Some w) ctx rt rd emask messages bindings = Inr (sanitized, leaves)"
    and "cw_Profiles w = Some GetProfile" and "k < length bindings"
  shows "length leaves = length bindings
    \<and> lr_MemoryID (leaves ! k) = mb_MemoryID (bindings ! k)
    \<and> lr_MemoryHash (leaves ! k) = mb_MemoryHash (bindings ! k)
    \<and> lr_PolicyHash (leaves ! k) = cw_PolicyHash w
    \<and> (lr_Injected (leaves ! k) \<longleftrightarrow>
         0 \<le> mb_MessageIdx (bindings ! k) \<and> mb_MessageIdx (bindings ! k) < int (length messages)
       \<and> (\<exists>p. GetProfile (mb_MemoryID (bindings ! k)) = Some p
            \<and> admissible_profile w rt rd emask k (mb_MemoryID (bindings ! k)) p))"
proof -
  have loop: "sanitize_loop w GetProfile rt rd emask 0 bindings messages [] = (sanitized, leaves)"
    using assms(1,2) by (auto elim: SanitizeContextWindow_InrE)
  have "length leaves = length bindings"
    using sanitize_loop_frame(3) [of w GetProfile rt rd emask 0 bindings messages] loop by simp
  moreover have "leaves ! k
      = snd (sanitize_binding w GetProfile rt rd emask k (bindings ! k) messages)"
    using sanitize_loop_leaf [OF assms(3), of w GetProfile rt rd emask 0 messages] loop by simp
  ultimately show ?thesis by (simp add: sanitize_binding_injected)
qed

text \<open>
  C5: noninterference. Once one of the bindings of a message is refused, the raw content of that
  message does not reach the output: replacing it by any other text before the call gives the same
  sanitized window and the same leaves.
\<close>

theorem refused_content_does_not_flow:
  assumes "SanitizeContextWindow wo ctx rt rd emask messages bindings = Inr (sanitized, leaves)"
    and "k < length bindings" and "mb_MessageIdx (bindings ! k) = int i" and "i < length messages"
    and "\<not> lr_Injected (leaves ! k)"
  shows "SanitizeContextWindow wo ctx rt rd emask (set_content messages i other) bindings
    = Inr (sanitized, leaves)"
proof -
  obtain w G where ok: "wo = Some w" "cw_Profiles w = Some G" "ctx 0 = None"
      and loop: "sanitize_loop w G rt rd emask 0 bindings messages [] = (sanitized, leaves)"
    using assms(1) by (rule SanitizeContextWindow_InrE)
  then have "sanitize_loop w G rt rd emask 0 bindings (set_content messages i other) []
      = (sanitized, leaves)"
    using sanitize_loop_set_content [OF assms(4,2,3), of w G rt rd emask 0] assms(5) by simp
  with ok show ?thesis by (simp add: SanitizeContextWindow_def)
qed

text \<open>
  C34: what is admitted is kept, and its qualifications are put in front of it, exactly. The window
  keeps its length and its roles; a message without bindings is returned as it was; the leaf of an
  injected memory says that it may be used if its profile has no usage constraints and that it is
  qualified otherwise; and the content of a message all of whose bindings are injected is the
  original one, before which each binding, in order, has put one line with the constraints of its
  memory if there are any. In particular nothing is changed where no constraints apply.
\<close>

theorem admitted_content_is_kept:
  assumes "SanitizeContextWindow (Some w) ctx rt rd emask messages bindings = Inr (sanitized, leaves)"
    and "cw_Profiles w = Some GetProfile" and "i < length messages"
  shows "map msg_Role sanitized = map msg_Role messages
    \<and> ((\<forall>b\<in>set bindings. mb_MessageIdx b \<noteq> int i) \<longrightarrow> sanitized ! i = messages ! i)
    \<and> (\<forall>k<length bindings. lr_Injected (leaves ! k) \<longrightarrow>
         lr_DecisionCode (leaves ! k)
           = decision_code (if usage_constraints GetProfile (mb_MemoryID (bindings ! k)) = []
               then DecisionUse else DecisionQualify))
    \<and> ((\<forall>k<length bindings. mb_MessageIdx (bindings ! k) = int i \<longrightarrow> lr_Injected (leaves ! k)) \<longrightarrow>
         msg_Content (sanitized ! i)
           = fold (qualify_once GetProfile) (filter (\<lambda>b. mb_MessageIdx b = int i) bindings)
               (msg_Content (messages ! i)))"
proof -
  have loop: "sanitize_loop w GetProfile rt rd emask 0 bindings messages [] = (sanitized, leaves)"
    using assms(1,2) by (auto elim: SanitizeContextWindow_InrE)
  have leaf: "leaves ! k = snd (sanitize_binding w GetProfile rt rd emask k (bindings ! k) messages)"
    if "k < length bindings" for k
    using sanitize_loop_leaf [OF that, of w GetProfile rt rd emask 0 messages] loop by simp
  note facts = sanitize_loop_frame(2) [of w GetProfile rt rd emask 0 bindings messages]
    sanitize_loop_unbound [of bindings i w GetProfile rt rd emask 0 messages]
    sanitize_loop_admitted [OF assms(3), of bindings w GetProfile rt rd emask 0]
  show ?thesis using facts unfolding loop by (simp add: leaf sanitize_binding_admitted(2))
qed

section \<open>Properties of the adapters\<close>

text \<open>The system prompt: leading empty system messages leave no trace, later ones are joined by newlines.\<close>

fun join_system :: "string \<Rightarrow> string list \<Rightarrow> string" where
  "join_system sys [] = sys"
| "join_system sys (c # cs) = join_system (if sys \<noteq> [] then sys @ [CHR 0x0A] @ c else c) cs"

lemma anthropic_loop_ok:
  "\<forall>m\<in>set ms. msg_Role m \<in> {''system'', ''user'', ''assistant''} \<Longrightarrow>
     anthropic_loop ms sys acc = Inr
       (join_system sys (map msg_Content (filter (\<lambda>m. msg_Role m = ''system'') ms)),
        acc @ map (\<lambda>m. \<lparr>an_Role = msg_Role m, an_Content = msg_Content m\<rparr>)
          (filter (\<lambda>m. msg_Role m \<noteq> ''system'') ms))"
  by (induction ms arbitrary: sys acc) auto

lemma anthropic_loop_error:
  "\<exists>m\<in>set ms. msg_Role m \<notin> {''system'', ''user'', ''assistant''} \<Longrightarrow>
     anthropic_loop ms sys acc
       = Inl (ErrorString ''ANTHROPIC_PROVIDER_ERR: role must be user or assistant'')"
  by (induction ms arbitrary: sys acc) auto

text \<open>
  The Anthropic payload, on every input. An unsupported role anywhere gives the error and no
  payload; otherwise the payload has the non-system messages, in order, and the joined system prompt.
  Dropping the system messages is the only difference from the OpenAI payload.
\<close>

theorem Anthropic_Convert_total:
  "Anthropic_Convert a messages =
     (if \<forall>m\<in>set messages. msg_Role m \<in> {''system'', ''user'', ''assistant''}
      then Inr \<lparr>an_Model = an_ModelName a,
        an_System = join_system [] (map msg_Content (filter (\<lambda>m. msg_Role m = ''system'') messages)),
        an_Messages = map (\<lambda>m. \<lparr>an_Role = oa_Role m, an_Content = oa_Content m\<rparr>)
          (filter (\<lambda>m. oa_Role m \<noteq> ''system'') (oa_Messages (OpenAI_Convert oa messages)))\<rparr>
      else Inl (ErrorString ''ANTHROPIC_PROVIDER_ERR: role must be user or assistant''))"
  using anthropic_loop_ok [of messages "[]" "[]"] anthropic_loop_error [of messages "[]" "[]"]
  by (auto simp: Anthropic_Convert_def OpenAI_Convert_def filter_map comp_def)

section \<open>Properties of the inference turn\<close>

lemma ExecuteAdmissibleTurn_InrE:
  assumes "to_Result (ExecuteAdmissibleTurn ed sorter clock ro messages bindings params) = Inr block"
    and "runner_parts ro = Some (w, adapter, provider)"
  obtains ctx sanitized leaves response ph ttl now where
    "SanitizeContextWindow (Some w) ctx (rc_Tenant params) (rc_Domain params) (rc_Mask params)
       messages bindings = Inr (sanitized, leaves)"
    "provider ctx sanitized = Inr response" "ib_ResponseText block = pr_Text response"
    "to_Calls (ExecuteAdmissibleTurn ed sorter clock ro messages bindings params) = [sanitized]"
    "to_Payload (ExecuteAdmissibleTurn ed sorter clock ro messages bindings params)
       = OpenAI_Convert adapter sanitized"
    "GenerateSessionMAPWithRuntimeSnapshot ed sorter (rc_MapID params) (rc_SessionID params)
       (rc_AgentID params) (rc_ActorID params) (rc_TaskID params) (rc_Tenant params)
       (rc_ContextHash params) ph (fst (runtime_info w (length bindings)))
       (snd (runtime_info w (length bindings))) leaves (rc_PrivateKey params) (rc_KeyID params) ttl
       now = Inr (ib_SessionMAP block)"
proof -
  let ?ctx = "case rc_Ctx params of None \<Rightarrow> context_Background | Some c \<Rightarrow> c"
  let ?san = "SanitizeContextWindow (Some w) ?ctx (rc_Tenant params) (rc_Domain params)
    (rc_Mask params) messages bindings"
  let ?ph = "if rc_PolicySnapshotHash params \<noteq> zero_bytes then rc_PolicySnapshotHash params
    else cw_PolicyHash w"
  let ?ttl = "if rc_TTL params \<le> 0 then Hour else rc_TTL params"
  let ?now = "if IsZero (rc_Now params) then clock 0 else rc_Now params"
  note run = assms(1) [unfolded ExecuteAdmissibleTurn_def Let_def assms(2)]
  from run obtain sanitized leaves where san: "?san = Inr (sanitized, leaves)"
    by (cases ?san) (auto split: if_splits)
  from run san obtain response where prov: "provider ?ctx sanitized = Inr response"
    by (cases "provider ?ctx sanitized") (auto split: if_splits)
  note run' = run [simplified san prov case_prod_beta, simplified]
  show thesis
    by (rule that [OF san prov, where ph = ?ph and ttl = ?ttl and now = ?now])
      (use run' in \<open>auto simp: ExecuteAdmissibleTurn_def Let_def assms(2) san prov case_prod_beta
        split: if_splits sum.splits\<close>)
qed

text \<open>
  A turn that succeeds is accounted for. The provider was called exactly once, with the sanitized
  window and nothing else; the returned payload is that window; and the manifest carries the leaves
  of exactly this sanitization and replays under the public key of the signing key.
\<close>

theorem successful_turn_is_accounted:
  assumes "ed25519_correct ed" and "runner_parts ro = Some (w, adapter, provider)"
    and "to_Result (ExecuteAdmissibleTurn ed sorter clock ro messages bindings params) = Inr block"
  shows "\<exists>ctx sanitized leaves response.
      SanitizeContextWindow (Some w) ctx (rc_Tenant params) (rc_Domain params) (rc_Mask params)
        messages bindings = Inr (sanitized, leaves)
    \<and> provider ctx sanitized = Inr response \<and> ib_ResponseText block = pr_Text response
    \<and> to_Calls (ExecuteAdmissibleTurn ed sorter clock ro messages bindings params) = [sanitized]
    \<and> to_Payload (ExecuteAdmissibleTurn ed sorter clock ro messages bindings params)
        = OpenAI_Convert adapter sanitized
    \<and> sm_LeafRecords (ib_SessionMAP block) = leaves
    \<and> VerifySessionMAP ed sorter (ed_Public ed (rc_PrivateKey params)) (ib_SessionMAP block)
        = Inr \<lparr>SignatureValid = True, MerkleRootValid = True, ReplayMatch = True\<rparr>"
  using assms(3,2)
proof (rule ExecuteAdmissibleTurn_InrE, goal_cases)
  case (1 ctx sanitized leaves response ph ttl now)
  note fields = Generate_fields [OF 1(6)]
  have "VerifySessionMAP ed sorter (ed_Public ed (rc_PrivateKey params)) (ib_SessionMAP block)
        = Inr \<lparr>SignatureValid = True, MerkleRootValid = True, ReplayMatch = True\<rparr>"
    by (rule VerifySessionMAP_generated [OF assms(1) 1(6)])
  with 1 fields(4) show ?case by blast
qed

text \<open>
  When the active snapshot does not change during the turn, the manifest names it, and it passes
  every memory that the manifest records as injected. An auditor who replays the lookups against the
  named snapshot finds the recorded admissions.
\<close>

theorem stable_snapshot_is_attested:
  assumes "runner_parts ro = Some (w, adapter, provider)" and "cw_RuntimeMonitor w = Some mon"
    and "\<forall>k\<le>length bindings. mon_snapshot (mon k) = Some snap"
    and "to_Result (ExecuteAdmissibleTurn ed sorter clock ro messages bindings params) = Inr block"
  shows "sm_RuntimeSnapshotHash (ib_SessionMAP block) = sn_SnapshotHash snap
    \<and> sm_RuntimeSnapshotVersion (ib_SessionMAP block) = sn_Version snap
    \<and> (\<forall>l\<in>set (sm_LeafRecords (ib_SessionMAP block)). lr_Injected l \<longrightarrow>
         rd_Decision (LookupWithSnapshot (Some snap) (lr_MemoryID l)) = DecisionUse)"
  using assms(4,1)
proof (rule ExecuteAdmissibleTurn_InrE, goal_cases)
  case (1 ctx sanitized leaves response ph ttl now)
  note fields = Generate_fields [OF 1(6)]
  from 1(1) obtain G where G: "cw_Profiles w = Some G"
      and loop: "sanitize_loop w G (rc_Tenant params) (rc_Domain params) (rc_Mask params) 0 bindings
        messages [] = (sanitized, leaves)"
    by (auto elim: SanitizeContextWindow_InrE)
  have "runtime_info w (length bindings) = (sn_SnapshotHash snap, sn_Version snap)"
    using assms(2,3) by (simp add: runtime_info_def ActiveSnapshotInfo_def)
  moreover have "rd_Decision (LookupWithSnapshot (Some snap) (lr_MemoryID l)) = DecisionUse"
    if "l \<in> set leaves" "lr_Injected l" for l
  proof -
    have len: "length leaves = length bindings"
      using sanitize_loop_frame(3) [of w G "rc_Tenant params" "rc_Domain params" "rc_Mask params" 0
          bindings messages] loop by simp
    from that(1) obtain k where k: "k < length bindings" "l = leaves ! k"
      by (metis in_set_conv_nth len)
    then have "l = snd (sanitize_binding w G (rc_Tenant params) (rc_Domain params) (rc_Mask params) k
        (bindings ! k) messages)"
      using sanitize_loop_leaf [of k bindings w G "rc_Tenant params" "rc_Domain params"
          "rc_Mask params" 0 messages] loop by simp
    with that(2) have "monitor_passes w k (lr_MemoryID l)"
      by (auto simp: sanitize_binding_injected admissible_profile_def)
    with assms(2,3) k(1) show ?thesis by (simp add: monitor_passes_def Lookup_def)
  qed
  ultimately show ?case using fields(4,6,7) by simp
qed

text \<open>
  The call precedes the manifest. Without bindings there are no leaves, and the manifest is
  refused, but only after the provider has been called with the whole window: the turn ends with an
  error after the inference has happened.
\<close>

theorem call_without_manifest:
  assumes "runner_parts ro = Some (w, adapter, provider)" and "cw_Profiles w = Some G"
    and "length (rc_PrivateKey params) = PrivateKeySize" and "rc_Ctx params = None"
    and "provider context_Background messages = Inr response"
  shows "to_Calls (ExecuteAdmissibleTurn ed sorter clock ro messages [] params) = [messages]
    \<and> to_Result (ExecuteAdmissibleTurn ed sorter clock ro messages [] params)
        = Inl (ErrorString ''INVALID_SESSION_MAP: zero leaf records'')"
  using assms
  by (simp add: ExecuteAdmissibleTurn_def Let_def case_prod_beta SanitizeContextWindow_def
      context_Background_def GenerateSessionMAPWithRuntimeSnapshot_def)

section \<open>Concrete instances\<close>

definition demo_profile :: MemoryProfile where
  "demo_profile = \<lparr>mp_MemoryID = copy_bytes [9], mp_TenantHash = copy_bytes [1],
     mp_DomainHash = copy_bytes [2], mp_Flags = 0x101, mp_UsageConstraints = []\<rparr>"

definition demo_mask :: EvaluationMask where
  "demo_mask = \<lparr>RequiredLifecycle = 1, ProhibitedSafety = 0x30, AllowedUseClasses = 0x100,
     ProhibitedUseBlocks = 0x70000, SensitivityLimit = 0\<rparr>"

definition demo_wrapper :: "monitor_ref option \<Rightarrow> ClientWrapper" where
  "demo_wrapper mon =
     \<lparr>cw_Profiles = Some (\<lambda>mid. if mid = copy_bytes [9] then Some demo_profile else None),
      cw_PolicyHash = copy_bytes [4], cw_RuntimeMonitor = mon\<rparr>"

definition demo_messages :: "LLMMessage list" where
  "demo_messages = [\<lparr>msg_Role = ''system'', msg_Content = ''rules''\<rparr>,
     \<lparr>msg_Role = ''user'', msg_Content = ''memory''\<rparr>]"

definition demo_binding :: "byte \<Rightarrow> MemoryContextBinding" where
  "demo_binding b = \<lparr>mb_MemoryID = copy_bytes [b], mb_MemoryHash = copy_bytes [7], mb_MessageIdx = 1\<rparr>"

definition demo_response :: ProviderResponse where
  "demo_response = \<lparr>pr_Text = ''answer'',
     pr_Tokens = \<lparr>PromptTokens = 1, CompletionTokens = 1, TotalTokens = 2\<rparr>\<rparr>"

definition demo_runner :: "monitor_ref option \<Rightarrow> LifecycleRunner option" where
  "demo_runner mon = Some \<lparr>lc_Wrapper = Some (demo_wrapper mon), lc_Adapter = Some \<lparr>oa_ModelName = ''m''\<rparr>,
     lc_Provider = Some (MockInferenceProvider_Invoke demo_response)\<rparr>"

definition demo_params :: MockRuntimeContext where
  "demo_params = \<lparr>rc_Ctx = None, rc_Tenant = copy_bytes [1], rc_Domain = copy_bytes [2],
     rc_Mask = demo_mask, rc_MapID = copy_bytes [3], rc_SessionID = ''s'', rc_AgentID = ''a'',
     rc_ActorID = ''c'', rc_TaskID = ''t'', rc_ContextHash = zero_bytes, rc_PrivateKey = demo_key,
     rc_KeyID = ''k'', rc_PolicySnapshotHash = zero_bytes, rc_Now = 7, rc_TTL = 0\<rparr>"

lemmas demo_defs = demo_profile_def demo_mask_def demo_wrapper_def demo_messages_def demo_binding_def

abbreviation demo_turn ::
  "monitor_ref option \<Rightarrow> MemoryContextBinding list \<Rightarrow> turn_outcome" where
  "demo_turn mon bs \<equiv> ExecuteAdmissibleTurn mac_scheme (sort_key lr_MemoryID) (\<lambda>_. 0)
     (demo_runner mon) demo_messages bs demo_params"

abbreviation demo_sanitize ::
  "LLMMessage list \<Rightarrow> byte \<Rightarrow> go_error + (LLMMessage list \<times> LeafRecord list)" where
  "demo_sanitize msgs b \<equiv> SanitizeContextWindow (Some (demo_wrapper None)) context_Background
     (copy_bytes [1]) (copy_bytes [2]) demo_mask msgs [demo_binding b]"

lemma demo_runner_parts [simp]:
  "runner_parts (demo_runner mon)
     = Some (demo_wrapper mon, \<lparr>oa_ModelName = ''m''\<rparr>, MockInferenceProvider_Invoke demo_response)"
  by (simp add: runner_parts_def demo_runner_def)

lemma demo_lifecycle: "\<not> bit (0x101 :: u64) 1" "\<not> bit (0x101 :: u64) 2" "\<not> bit (0x101 :: u64) 3"
  by (simp_all add: bit_numeral_rec numeral_3_eq_3 numeral_2_eq_2)

lemma demo_flags:
  "(0x101 :: u64) AND 0x30 = 0" "(0x101 :: u64) AND 0x70000 = 0" "(0x101 :: u64) AND 0x100 \<noteq> 0"
  by simp_all

lemma demo_admissible:
  "admissible_profile (demo_wrapper mon) (copy_bytes [1]) (copy_bytes [2]) demo_mask k mid demo_profile
     \<longleftrightarrow> monitor_passes (demo_wrapper mon) k mid"
  using demo_flags demo_lifecycle
  by (simp add: admissible_profile_def demo_profile_def demo_mask_def)

lemma demo_sanitize_runs: "\<exists>sanitized leaves. demo_sanitize msgs b = Inr (sanitized, leaves)"
  by (simp add: SanitizeContextWindow_def context_Background_def demo_wrapper_def case_prod_beta)

lemma demo_leaf_refused:
  assumes "demo_sanitize msgs 8 = Inr (sanitized, leaves)"
  shows "\<not> lr_Injected (leaves ! 0)"
proof -
  obtain G where "cw_Profiles (demo_wrapper None) = Some G"
    and "sanitize_loop (demo_wrapper None) G (copy_bytes [1]) (copy_bytes [2]) demo_mask 0
      [demo_binding 8] msgs [] = (sanitized, leaves)"
    using assms by (auto elim: SanitizeContextWindow_InrE)
  then show ?thesis
    using sanitize_loop_leaf [of 0 "[demo_binding 8]" "demo_wrapper None" G "copy_bytes [1]"
        "copy_bytes [2]" demo_mask 0 msgs]
    by (auto simp: sanitize_binding_injected demo_wrapper_def demo_binding_def)
qed

lemma demo_turn_succeeds: "\<exists>block. to_Result (demo_turn mon [demo_binding b]) = Inr block"
  by (simp add: ExecuteAdmissibleTurn_def Let_def case_prod_beta SanitizeContextWindow_def
      context_Background_def GenerateSessionMAPWithRuntimeSnapshot_def demo_params_def
      MockInferenceProvider_Invoke_def demo_response_def Hour_def Second_def demo_wrapper_def)

theorem injected_iff_admissible_witness:
  "\<exists>sanitized leaves. demo_sanitize demo_messages 9 = Inr (sanitized, leaves)
     \<and> lr_Injected (leaves ! 0) \<and> lr_MemoryID (leaves ! 0) = copy_bytes [9]"
proof -
  obtain sanitized leaves where run: "demo_sanitize demo_messages 9 = Inr (sanitized, leaves)"
    using demo_sanitize_runs by blast
  from injected_iff_admissible [OF run, of _ 0] run show ?thesis
    using demo_admissible [of None 0 "copy_bytes [9]"]
    by (auto simp: demo_wrapper_def demo_binding_def demo_messages_def monitor_passes_def)
qed

theorem refused_content_does_not_flow_witness:
  "\<exists>sanitized leaves. demo_sanitize demo_messages 8 = Inr (sanitized, leaves)
     \<and> demo_sanitize (set_content demo_messages 1 ''other'') 8 = Inr (sanitized, leaves)"
proof -
  obtain sanitized leaves where run: "demo_sanitize demo_messages 8 = Inr (sanitized, leaves)"
    using demo_sanitize_runs by blast
  from refused_content_does_not_flow [OF run, of 0 1 "''other''"] demo_leaf_refused [OF run] run
  show ?thesis
    by (auto simp: demo_binding_def demo_messages_def)
qed

definition demo_careful_profile :: MemoryProfile where
  "demo_careful_profile = demo_profile\<lparr>mp_UsageConstraints := ''tone only''\<rparr>"

theorem admitted_content_is_kept_witness:
  "\<exists>sanitized leaves. SanitizeContextWindow
       (Some ((demo_wrapper None)\<lparr>cw_Profiles := Some (\<lambda>_. Some demo_careful_profile)\<rparr>)) context_Background
       (copy_bytes [1]) (copy_bytes [2]) demo_mask demo_messages [demo_binding 9] = Inr (sanitized, leaves)
     \<and> msg_Content (sanitized ! 1)
         = ''[VERAXIS QUALIFIED MEMORY: tone only]'' @ [CHR 0x0A] @ msg_Content (demo_messages ! 1)
     \<and> lr_DecisionCode (leaves ! 0) = decision_code DecisionQualify"
proof -
  let ?w = "(demo_wrapper None)\<lparr>cw_Profiles := Some (\<lambda>_. Some demo_careful_profile)\<rparr>"
  let ?b = "demo_binding 9"
  obtain sanitized leaves where run: "SanitizeContextWindow (Some ?w) context_Background (copy_bytes [1])
      (copy_bytes [2]) demo_mask demo_messages [?b] = Inr (sanitized, leaves)"
    by (simp add: SanitizeContextWindow_def context_Background_def case_prod_beta)
  have b: "mb_MessageIdx ?b = 1" "length demo_messages = 2"
    by (simp_all add: demo_binding_def demo_messages_def)
  have "lr_Injected (leaves ! 0)"
  proof (rule SanitizeContextWindow_InrE [OF run])
    fix w G
    assume "Some ?w = Some w" and "cw_Profiles w = Some G"
      and "sanitize_loop w G (copy_bytes [1]) (copy_bytes [2]) demo_mask 0 [?b] demo_messages []
        = (sanitized, leaves)"
    then show ?thesis
      using sanitize_loop_leaf [of 0 "[?b]" ?w G "copy_bytes [1]" "copy_bytes [2]" demo_mask 0 demo_messages]
        demo_flags demo_lifecycle
      by (auto simp: sanitize_binding_injected b admissible_profile_def demo_careful_profile_def
          demo_profile_def demo_mask_def monitor_passes_def demo_wrapper_def)
  qed
  from admitted_content_is_kept [OF run, of _ 1] this b run show ?thesis
    by (simp add: qualify_once_def usage_constraints_def demo_careful_profile_def)
qed

theorem successful_turn_is_accounted_witness:
  "\<exists>block. to_Result (demo_turn None [demo_binding 9]) = Inr block
     \<and> VerifySessionMAP mac_scheme (sort_key lr_MemoryID) (ed_Public mac_scheme demo_key)
         (ib_SessionMAP block)
       = Inr \<lparr>SignatureValid = True, MerkleRootValid = True, ReplayMatch = True\<rparr>"
proof -
  obtain block where run: "to_Result (demo_turn None [demo_binding 9]) = Inr block"
    using demo_turn_succeeds by blast
  from successful_turn_is_accounted [OF mac_scheme_correct demo_runner_parts run] run show ?thesis
    by (auto simp: demo_params_def)
qed

theorem stable_snapshot_is_attested_witness:
  "\<exists>block. to_Result (demo_turn (Some (\<lambda>_. NewRuntimeMonitor 0)) [demo_binding 9]) = Inr block
     \<and> sm_RuntimeSnapshotHash (ib_SessionMAP block) = sn_SnapshotHash (NewEmptySnapshot 0 0)"
proof -
  obtain block where
    run: "to_Result (demo_turn (Some (\<lambda>_. NewRuntimeMonitor 0)) [demo_binding 9]) = Inr block"
    using demo_turn_succeeds by blast
  from stable_snapshot_is_attested [OF demo_runner_parts _ _ run, of "\<lambda>_. NewRuntimeMonitor 0"
      "NewEmptySnapshot 0 0"] run show ?thesis
    by (auto simp: demo_wrapper_def NewRuntimeMonitor_def SwapActiveSnapshot_def)
qed

theorem call_without_manifest_witness:
  "to_Calls (demo_turn None []) = [demo_messages]
   \<and> to_Result (demo_turn None []) = Inl (ErrorString ''INVALID_SESSION_MAP: zero leaf records'')"
  by (rule call_without_manifest [OF demo_runner_parts])
    (simp_all add: demo_wrapper_def demo_params_def MockInferenceProvider_Invoke_def
      context_Background_def demo_response_def)

text \<open>A monitor whose snapshot is swapped between the lookup of the first binding and the end of the turn.\<close>

definition racing_monitor :: monitor_ref where
  "racing_monitor k =
     (if k = 0 then NewRuntimeMonitor 0
      else fst (CompileAndSwap (AppendEvent (NewRuntimeMonitor 0) (demo_event 1 9 EventRevokeMemory)) 1))"

definition racing_snapshot :: RuntimeSnapshot where
  "racing_snapshot = CompileSnapshot [demo_event 1 9 EventRevokeMemory] 1 1"

lemma racing_monitor_snapshot: "mon_snapshot (racing_monitor (Suc k)) = Some racing_snapshot"
  by (simp add: racing_monitor_def racing_snapshot_def CompileAndSwap_def Let_def AppendEvent_def
      NewRuntimeMonitor_def SwapActiveSnapshot_def Ledger_def NewEmptySnapshot_def blank_snapshot_def)

lemma racing_snapshot_refuses:
  "rd_Decision (LookupWithSnapshot (Some racing_snapshot) (copy_bytes [9])) = DecisionRefuse"
  by (simp add: racing_snapshot_def lookup_compiled mem_history_def own_events_def mem_step_def
      mem_verdict_def mem_init_def quarantine_event_def)

text \<open>
  Without that stability the manifest can contradict itself. The snapshot is read for the manifest
  after the evaluation and after the provider call; when a revocation is compiled in between, the
  turn succeeds, its leaf says that the memory was injected, and the snapshot the manifest names is
  one that refuses this very memory.
\<close>

theorem manifest_can_name_a_refusing_snapshot:
  "\<exists>block l. to_Result (demo_turn (Some racing_monitor) [demo_binding 9]) = Inr block
     \<and> sm_LeafRecords (ib_SessionMAP block) = [l]
     \<and> lr_Injected l \<and> lr_MemoryID l = copy_bytes [9]
     \<and> sm_RuntimeSnapshotHash (ib_SessionMAP block) = sn_SnapshotHash racing_snapshot
     \<and> rd_Decision (LookupWithSnapshot (Some racing_snapshot) (copy_bytes [9])) = DecisionRefuse"
proof -
  let ?w = "demo_wrapper (Some racing_monitor)"
  obtain block where run: "to_Result (demo_turn (Some racing_monitor) [demo_binding 9]) = Inr block"
    using demo_turn_succeeds by blast
  obtain ctx sanitized leaves response ph ttl now where
    san: "SanitizeContextWindow (Some ?w) ctx (rc_Tenant demo_params) (rc_Domain demo_params)
       (rc_Mask demo_params) demo_messages [demo_binding 9] = Inr (sanitized, leaves)"
    and gen: "GenerateSessionMAPWithRuntimeSnapshot mac_scheme (sort_key lr_MemoryID)
       (rc_MapID demo_params) (rc_SessionID demo_params) (rc_AgentID demo_params)
       (rc_ActorID demo_params) (rc_TaskID demo_params) (rc_Tenant demo_params)
       (rc_ContextHash demo_params) ph (fst (runtime_info ?w (length [demo_binding 9])))
       (snd (runtime_info ?w (length [demo_binding 9]))) leaves (rc_PrivateKey demo_params)
       (rc_KeyID demo_params) ttl now = Inr (ib_SessionMAP block)"
    by (rule ExecuteAdmissibleTurn_InrE [OF run demo_runner_parts]) (rule that, assumption+)
  from san obtain G where G: "cw_Profiles ?w = Some G"
    and loop: "sanitize_loop ?w G (copy_bytes [1]) (copy_bytes [2]) demo_mask 0 [demo_binding 9]
      demo_messages [] = (sanitized, leaves)"
    by (auto elim: SanitizeContextWindow_InrE simp: demo_params_def)
  have "rd_Decision (Lookup (racing_monitor 0) (copy_bytes [9])) = DecisionUse"
    by (simp add: racing_monitor_def NewRuntimeMonitor_def SwapActiveSnapshot_def Lookup_def
        LookupWithSnapshot_def NewEmptySnapshot_def blank_snapshot_def Let_def)
  then have "monitor_passes ?w 0 (copy_bytes [9])"
    by (simp add: monitor_passes_def demo_wrapper_def)
  then have "lr_Injected (leaves ! 0) \<and> lr_MemoryID (leaves ! 0) = copy_bytes [9]"
    using sanitize_loop_leaf [of 0 "[demo_binding 9]" ?w G "copy_bytes [1]" "copy_bytes [2]"
        demo_mask 0 demo_messages] loop G demo_admissible [of "Some racing_monitor" 0 "copy_bytes [9]"]
    by (auto simp: sanitize_binding_injected demo_binding_def demo_messages_def demo_wrapper_def)
  moreover have "leaves = [leaves ! 0]"
    using sanitize_loop_frame(3) [of ?w G "copy_bytes [1]" "copy_bytes [2]" demo_mask 0
        "[demo_binding 9]" demo_messages] loop
    by (cases leaves) auto
  moreover have "fst (runtime_info ?w (length [demo_binding 9])) = sn_SnapshotHash racing_snapshot"
    using racing_monitor_snapshot [of 0]
    by (simp add: runtime_info_def demo_wrapper_def ActiveSnapshotInfo_def)
  ultimately show ?thesis
    using run Generate_fields(4,6) [OF gen] racing_snapshot_refuses by auto
qed

end
