(* ===== verification/Harness.thy ===== *)
theory Harness
  imports Gateway
begin

text \<open>
  The two programs that drive the gateway on fixed data: \<^verbatim>\<open>cmd/mam-harness/main.go\<close> and
  \<^verbatim>\<open>examples/clientloop/main.go\<close>. Each is a function of the generated key pair and the clock;
  its result is the message with which it exits with status 1, or the end of the run. Printing is left
  out.
\<close>

section \<open>The control harness\<close>

fun MockProvider_Invoke :: "LLMMessage list \<Rightarrow> go_error option" where
  "MockProvider_Invoke [] = None"
| "MockProvider_Invoke (msg # messages) =
     (if strings_Contains (msg_Content msg) ''rogue cross-tenant memory''
      then Some (ErrorString ''SECURITY_BREACH: inadmissible raw memory reached provider payload'')
      else MockProvider_Invoke messages)"

definition hashBytes :: "string \<Rightarrow> hash32" where
  "hashBytes input = sha256_Sum256 (bytes_of_string input)"

type_synonym LocalCache = "(id16 \<times> MemoryProfile) list"

definition LocalCache_GetProfile :: "LocalCache \<Rightarrow> ProfileCache" where
  "LocalCache_GetProfile c = map_of c"

definition KnownImmutableSnapshot :: "hash32 \<Rightarrow> hash32 \<Rightarrow> bool" where
  "KnownImmutableSnapshot activeHash hash = (hash = activeHash)"

definition validTenant :: IDHash where "validTenant = hashBytes ''tenant_enterprise_alpha''"
definition rogueTenant :: IDHash where "rogueTenant = hashBytes ''tenant_attacker_omega''"
definition defaultDomain :: IDHash where "defaultDomain = hashBytes ''domain_customer_support''"
definition idGood :: id16 where "idGood = copy_bytes [1]"
definition idQual :: id16 where "idQual = copy_bytes [2]"
definition idRogue :: id16 where "idRogue = copy_bytes [3]"

definition harness_cache :: LocalCache where
  "harness_cache =
     [(idGood, \<lparr>mp_MemoryID = idGood, mp_TenantHash = validTenant, mp_DomainHash = defaultDomain,
        mp_Flags = FlagLifecycleActive OR ClassUseContextOnly, mp_UsageConstraints = []\<rparr>),
      (idQual, \<lparr>mp_MemoryID = idQual, mp_TenantHash = validTenant, mp_DomainHash = defaultDomain,
        mp_Flags = FlagLifecycleActive OR ClassUseToneAdjustment,
        mp_UsageConstraints = ''may be used for tone/context only; prohibited for automated denial''\<rparr>),
      (idRogue, \<lparr>mp_MemoryID = idRogue, mp_TenantHash = rogueTenant, mp_DomainHash = defaultDomain,
        mp_Flags = FlagLifecycleActive OR ClassUseContextOnly, mp_UsageConstraints = []\<rparr>)]"

definition activeMask :: EvaluationMask where
  "activeMask = \<lparr>RequiredLifecycle = FlagLifecycleActive, ProhibitedSafety = FlagSafetyQuarantined,
     AllowedUseClasses = ClassUseContextOnly OR ClassUseToneAdjustment,
     ProhibitedUseBlocks = BlockUseAutomatedDenial, SensitivityLimit = 0\<rparr>"

definition incomingMessages :: "LLMMessage list" where
  "incomingMessages =
     [\<lparr>msg_Role = ''system'', msg_Content = ''You are a customer service representative agent loop.''\<rparr>,
      \<lparr>msg_Role = ''user'',
       msg_Content = ''Prior interaction history payload: verified secure context fragment.''\<rparr>,
      \<lparr>msg_Role = ''user'',
       msg_Content = ''Prior interaction history payload: user emotional state context flag.''\<rparr>,
      \<lparr>msg_Role = ''user'',
       msg_Content = ''Prior interaction history payload: rogue cross-tenant memory prompt payload.''\<rparr>]"

definition harness_bindings :: "MemoryContextBinding list" where
  "harness_bindings =
     [\<lparr>mb_MemoryID = idGood, mb_MemoryHash = hashBytes ''good'', mb_MessageIdx = 1\<rparr>,
      \<lparr>mb_MemoryID = idQual, mb_MemoryHash = hashBytes ''qual'', mb_MessageIdx = 2\<rparr>,
      \<lparr>mb_MemoryID = idRogue, mb_MemoryHash = hashBytes ''rogue'', mb_MessageIdx = 3\<rparr>]"

definition policyHash :: hash32 where "policyHash = hashBytes ''policy_snapshot_v1_2026''"

text \<open>The assertions after sanitization: the message of the first one that fails.\<close>

definition harness_assertions :: "LLMMessage list \<Rightarrow> LeafRecord list \<Rightarrow> string option" where
  "harness_assertions sanitized leaves =
     (if length leaves \<noteq> 3 then Some ''expected three Merkle leaves''
      else if msg_Content (sanitized ! 1) \<noteq> msg_Content (incomingMessages ! 1)
        then Some ''authorized memory should remain unchanged''
      else if \<not> strings_Contains (msg_Content (sanitized ! 2)) ''[VERAXIS QUALIFIED MEMORY:''
        then Some ''qualified memory must contain constraint annotation''
      else if msg_Content (sanitized ! 3) \<noteq> TombstoneHardRefuse
        then Some ''rogue memory must be replaced by hard-refuse tombstone''
      else if \<not> lr_Injected (leaves ! 0) then Some ''good memory leaf must be injected''
      else if \<not> lr_Injected (leaves ! 1) then Some ''qualified memory leaf must be injected''
      else if lr_Injected (leaves ! 2) then Some ''rogue memory leaf must not be injected''
      else None)"

text \<open>\<open>key\<close> is the result of \<^verbatim>\<open>ed25519.GenerateKey\<close>: a public and a private key.\<close>

definition harness_main ::
  "ed25519 \<Rightarrow> (LeafRecord list \<Rightarrow> LeafRecord list) \<Rightarrow> go_error + byte list \<times> byte list \<Rightarrow> go_time
   \<Rightarrow> string + unit"
where
  "harness_main ed sorter key now =
     (case key of
        Inl err \<Rightarrow> Inl ''Identity generation failed''
      | Inr (pubKey, privKey) \<Rightarrow>
     (case SanitizeContextWindow
         (Some \<lparr>cw_Profiles = Some (LocalCache_GetProfile harness_cache), cw_PolicyHash = policyHash,
           cw_RuntimeMonitor = None\<rparr>)
         context_Background validTenant defaultDomain activeMask incomingMessages harness_bindings of
        Inl err \<Rightarrow> Inl ''Gateway Interception Fault''
      | Inr (sanitizedMessages, leaves) \<Rightarrow>
     (case harness_assertions sanitizedMessages leaves of
        Some msg \<Rightarrow> Inl msg
      | None \<Rightarrow>
          if MockProvider_Invoke sanitizedMessages \<noteq> None then Inl ''CRITICAL CONTROL FAILURE''
          else if MockProvider_Invoke incomingMessages = None
            then Inl ''CRITICAL CONTROL FAILURE: raw unsanitized payload unexpectedly passed MockProvider''
          else
     (case GenerateSessionMAP ed sorter (copy_bytes [100]) ''session_test_01'' ''agent_support_alpha''
         ''actor_user_99'' ''task_refund_check'' validTenant (hashBytes ''runtime_context_fingerprint'')
         policyHash leaves privKey ''key_id_harness_01'' Hour now of
        Inl err \<Rightarrow> Inl ''Session MAP generation failed''
      | Inr smap \<Rightarrow>
     (case VerifySessionMAPWithPolicy ed sorter pubKey smap (Some (KnownImmutableSnapshot policyHash)) of
        Inl err \<Rightarrow> Inl ''CRITICAL AUDIT FAILURE''
      | Inr res \<Rightarrow> if \<not> ReplayMatch res then Inl ''CRITICAL AUDIT FAILURE'' else Inr ())))))"

section \<open>The client loop\<close>

definition clientloop_messages :: "LLMMessage list" where
  "clientloop_messages =
     [\<lparr>msg_Role = ''system'', msg_Content = ''You are a customer service representative agent loop.''\<rparr>,
      \<lparr>msg_Role = ''user'', msg_Content = ''verified secure context fragment''\<rparr>,
      \<lparr>msg_Role = ''user'', msg_Content = ''user emotional state context flag''\<rparr>,
      \<lparr>msg_Role = ''user'', msg_Content = ''rogue cross-tenant memory prompt payload''\<rparr>]"

definition clientloop_runner :: LifecycleRunner where
  "clientloop_runner =
     \<lparr>lc_Wrapper = Some \<lparr>cw_Profiles = Some (LocalCache_GetProfile harness_cache),
        cw_PolicyHash = policyHash, cw_RuntimeMonitor = None\<rparr>,
      lc_Adapter = Some \<lparr>oa_ModelName = ''gpt-4o''\<rparr>,
      lc_Provider = Some (MockInferenceProvider_Invoke
        \<lparr>pr_Text = ''Processed application query cleanly based on authorized memory states.'',
         pr_Tokens = \<lparr>PromptTokens = 256, CompletionTokens = 32, TotalTokens = 288\<rparr>\<rparr>)\<rparr>"

definition clientloop_mask :: EvaluationMask where
  "clientloop_mask = \<lparr>RequiredLifecycle = 0, ProhibitedSafety = 0,
     AllowedUseClasses = ClassUseContextOnly OR ClassUseToneAdjustment, ProhibitedUseBlocks = 0,
     SensitivityLimit = 0\<rparr>"

definition clientloop_params :: "byte list \<Rightarrow> go_time \<Rightarrow> MockRuntimeContext" where
  "clientloop_params priv now =
     \<lparr>rc_Ctx = Some context_Background, rc_Tenant = validTenant, rc_Domain = defaultDomain,
      rc_Mask = clientloop_mask, rc_MapID = copy_bytes [100], rc_SessionID = ''session_example_01'',
      rc_AgentID = ''agent_support_alpha'', rc_ActorID = ''actor_user_99'',
      rc_TaskID = ''task_refund_check'', rc_ContextHash = hashBytes ''runtime_context_fingerprint'',
      rc_PrivateKey = priv, rc_KeyID = ''key_id_example_01'', rc_PolicySnapshotHash = policyHash,
      rc_Now = now, rc_TTL = Hour\<rparr>"

definition snapshotVerifier_Known :: "(hash32 \<times> bool) list \<Rightarrow> hash32 \<Rightarrow> bool" where
  "snapshotVerifier_Known s hash = (case map_of s hash of None \<Rightarrow> False | Some b \<Rightarrow> b)"

definition clientloop_main ::
  "ed25519 \<Rightarrow> (LeafRecord list \<Rightarrow> LeafRecord list) \<Rightarrow> go_error + byte list \<times> byte list \<Rightarrow> go_time
   \<Rightarrow> (nat \<Rightarrow> go_time) \<Rightarrow> string + unit"
where
  "clientloop_main ed sorter key now clock =
     (case key of
        Inl err \<Rightarrow> Inl ''panic''
      | Inr (pub, priv) \<Rightarrow>
          let turn = ExecuteAdmissibleTurn ed sorter clock (Some clientloop_runner) clientloop_messages
                harness_bindings (clientloop_params priv now)
          in
     (case to_Result turn of
        Inl err \<Rightarrow> Inl ''client loop failed''
      | Inr block \<Rightarrow>
          if \<exists>msg\<in>set (oa_Messages (to_Payload turn)).
              strings_Contains (oa_Content msg) ''rogue cross-tenant memory''
            then Inl ''rogue memory leaked into provider payload''
          else
     (case VerifySessionMAPWithPolicy ed sorter pub (ib_SessionMAP block)
         (Some (snapshotVerifier_Known [(policyHash, True)])) of
        Inl err \<Rightarrow> Inl ''audit replay failed''
      | Inr res \<Rightarrow> if \<not> ReplayMatch res then Inl ''audit replay failed'' else Inr ())))"

section \<open>The sanitized windows\<close>

lemma ids_differ: "idGood \<noteq> idQual" "idGood \<noteq> idRogue" "idQual \<noteq> idRogue"
  by (simp_all add: idGood_def idQual_def idRogue_def list_of_bytes_copy flip: list_of_bytes_inject_iff)

lemma harness_profiles:
  "LocalCache_GetProfile harness_cache idGood = Some \<lparr>mp_MemoryID = idGood, mp_TenantHash = validTenant,
     mp_DomainHash = defaultDomain, mp_Flags = FlagLifecycleActive OR ClassUseContextOnly,
     mp_UsageConstraints = []\<rparr>"
  "LocalCache_GetProfile harness_cache idQual = Some \<lparr>mp_MemoryID = idQual, mp_TenantHash = validTenant,
     mp_DomainHash = defaultDomain, mp_Flags = FlagLifecycleActive OR ClassUseToneAdjustment,
     mp_UsageConstraints = ''may be used for tone/context only; prohibited for automated denial''\<rparr>"
  "LocalCache_GetProfile harness_cache idRogue = Some \<lparr>mp_MemoryID = idRogue, mp_TenantHash = rogueTenant,
     mp_DomainHash = defaultDomain, mp_Flags = FlagLifecycleActive OR ClassUseContextOnly,
     mp_UsageConstraints = []\<rparr>"
  using ids_differ by (simp_all add: LocalCache_GetProfile_def harness_cache_def)

text \<open>The verdicts of the three memories under both masks.\<close>

lemma harness_flags:
  "\<not> bit (FlagLifecycleActive OR ClassUseContextOnly) n" "\<not> bit (FlagLifecycleActive OR ClassUseToneAdjustment) n"
  if "n \<in> {1, 2, 3}" for n
  using that by (auto simp: flag_defs bit_simps)

lemma harness_masks:
  "(FlagLifecycleActive OR ClassUseContextOnly) AND FlagSafetyQuarantined = 0"
  "(FlagLifecycleActive OR ClassUseContextOnly) AND BlockUseAutomatedDenial = 0"
  "(FlagLifecycleActive OR ClassUseContextOnly) AND (ClassUseContextOnly OR ClassUseToneAdjustment) \<noteq> 0"
  "(FlagLifecycleActive OR ClassUseToneAdjustment) AND FlagSafetyQuarantined = 0"
  "(FlagLifecycleActive OR ClassUseToneAdjustment) AND BlockUseAutomatedDenial = 0"
  "(FlagLifecycleActive OR ClassUseToneAdjustment) AND (ClassUseContextOnly OR ClassUseToneAdjustment) \<noteq> 0"
  by code_simp+

lemmas harness_bits = harness_flags [of 1, simplified] harness_flags [of 2, simplified]
  harness_flags [of 3, simplified] harness_masks

lemma harness_verdicts:
  assumes "emask \<in> {activeMask, clientloop_mask}"
    and "f \<in> {FlagLifecycleActive OR ClassUseContextOnly, FlagLifecycleActive OR ClassUseToneAdjustment}"
  shows "EvaluateMemoryHotPath rt rt rd rd f emask = (DecisionUse, ReasonUse)"
  using assms harness_bits
  by (auto simp: EvaluateMemoryHotPath_alt activeMask_def clientloop_mask_def)

lemma harness_window:
  assumes "validTenant \<noteq> rogueTenant" and "emask \<in> {activeMask, clientloop_mask}"
    and "msgs = [m0, m1, m2, m3]"
  shows "\<exists>leaves. SanitizeContextWindow
      (Some \<lparr>cw_Profiles = Some (LocalCache_GetProfile harness_cache), cw_PolicyHash = policyHash,
        cw_RuntimeMonitor = None\<rparr>) context_Background validTenant defaultDomain emask msgs harness_bindings
      = Inr ([m0, m1,
          m2\<lparr>msg_Content := annotateConstraints (msg_Content m2)
            ''may be used for tone/context only; prohibited for automated denial''\<rparr>,
          m3\<lparr>msg_Content := TombstoneHardRefuse\<rparr>], leaves)
    \<and> leaves \<noteq> [] \<and> length leaves = 3 \<and> lr_Injected (leaves ! 0) \<and> lr_Injected (leaves ! 1) \<and> \<not> lr_Injected (leaves ! 2)"
proof -
  note v = harness_verdicts [OF assms(2)]
  show ?thesis
    using assms(1)
    by (simp add: assms(3) SanitizeContextWindow_def context_Background_def harness_bindings_def sanitize_binding_def
        Let_def harness_profiles decide_def v enforce_def leaf_def set_content_def)
qed

text \<open>No text of the window contains the rogue phrase, and the raw text does.\<close>

lemma no_rogue_phrase:
  "\<not> strings_Contains ''You are a customer service representative agent loop.'' ''rogue cross-tenant memory''"
  "\<not> strings_Contains ''Prior interaction history payload: verified secure context fragment.'' ''rogue cross-tenant memory''"
  "\<not> strings_Contains (annotateConstraints ''Prior interaction history payload: user emotional state context flag.''
     ''may be used for tone/context only; prohibited for automated denial'') ''rogue cross-tenant memory''"
  "\<not> strings_Contains TombstoneHardRefuse ''rogue cross-tenant memory''"
  "\<not> strings_Contains ''verified secure context fragment'' ''rogue cross-tenant memory''"
  "\<not> strings_Contains (annotateConstraints ''user emotional state context flag''
     ''may be used for tone/context only; prohibited for automated denial'') ''rogue cross-tenant memory''"
  "strings_Contains ''Prior interaction history payload: rogue cross-tenant memory prompt payload.'' ''rogue cross-tenant memory''"
  "strings_Contains (annotateConstraints ''Prior interaction history payload: user emotional state context flag.''
     ''may be used for tone/context only; prohibited for automated denial'') ''[VERAXIS QUALIFIED MEMORY:''"
  by code_simp+

section \<open>Properties\<close>

lemma same_tenant_collision:
  "validTenant = rogueTenant \<Longrightarrow>
     sha256_collision {bytes_of_string ''tenant_enterprise_alpha'', bytes_of_string ''tenant_attacker_omega''}"
  by (simp add: validTenant_def rogueTenant_def hashBytes_def sha256_collision_def bytes_of_string_def)

lemma raw_window_is_caught: "MockProvider_Invoke incomingMessages \<noteq> None"
  using no_rogue_phrase by (simp add: incomingMessages_def)

text \<open>
  C28: both programs run to their end. With any conforming signature scheme, any key pair, any sort and any
  clock, no assertion of the control harness and no check of the client loop fails: the authorized
  memory passes, the qualified one is annotated, the rogue one is replaced before the provider sees it,
  the raw window would have been caught, and the signed manifest replays; unless the two tenant names
  collide under SHA-256.
\<close>

theorem control_programs_succeed:
  assumes "ed25519_correct ed" and "length priv = PrivateKeySize"
  shows "harness_main ed sorter (Inr (ed_Public ed priv, priv)) now = Inr ()
      \<and> clientloop_main ed sorter (Inr (ed_Public ed priv, priv)) now clock = Inr ()
    \<or> sha256_collision {bytes_of_string ''tenant_enterprise_alpha'', bytes_of_string ''tenant_attacker_omega''}"
proof (cases "validTenant = rogueTenant")
  case False
  from harness_window [OF False _ incomingMessages_def, of activeMask] obtain sanitized leaves where
    win: "SanitizeContextWindow
      (Some \<lparr>cw_Profiles = Some (LocalCache_GetProfile harness_cache), cw_PolicyHash = policyHash,
        cw_RuntimeMonitor = None\<rparr>) context_Background validTenant defaultDomain activeMask incomingMessages
      harness_bindings = Inr (sanitized, leaves)"
    and leaves: "leaves \<noteq> []"
    and good: "harness_assertions sanitized leaves = None" "MockProvider_Invoke sanitized = None"
    using no_rogue_phrase by (auto simp: harness_assertions_def incomingMessages_def)
  obtain smap where smap: "GenerateSessionMAP ed sorter (copy_bytes [100]) ''session_test_01''
      ''agent_support_alpha'' ''actor_user_99'' ''task_refund_check'' validTenant
      (hashBytes ''runtime_context_fingerprint'') policyHash leaves priv ''key_id_harness_01'' Hour now
      = Inr smap"
    using leaves assms(2)
    by (simp add: GenerateSessionMAP_def GenerateSessionMAPWithRuntimeSnapshot_def Let_def Hour_def Second_def)
  have "harness_main ed sorter (Inr (ed_Public ed priv, priv)) now = Inr ()"
    using win good smap VerifySessionMAP_generated [OF assms(1) smap [unfolded GenerateSessionMAP_def]]
      Generate_fields(8) [OF smap [unfolded GenerateSessionMAP_def]] no_rogue_phrase
    by (simp add: harness_main_def raw_window_is_caught VerifySessionMAPWithPolicy_def
        KnownImmutableSnapshot_def)
  moreover have "clientloop_main ed sorter (Inr (ed_Public ed priv, priv)) now clock = Inr ()"
  proof -
    from harness_window [OF False _ clientloop_messages_def, of clientloop_mask]
    obtain sanitized leaves' where win':
        "SanitizeContextWindow (lc_Wrapper clientloop_runner) context_Background validTenant defaultDomain
           clientloop_mask clientloop_messages harness_bindings
         = Inr (sanitized, leaves')"
      and leaves': "leaves' \<noteq> []"
      and clean: "\<forall>m\<in>set sanitized. \<not> strings_Contains (msg_Content m) ''rogue cross-tenant memory''"
      using no_rogue_phrase by (auto simp: clientloop_runner_def clientloop_messages_def)
    let ?turn = "ExecuteAdmissibleTurn ed sorter clock (Some clientloop_runner) clientloop_messages
      harness_bindings (clientloop_params priv now)"
    note defs = clientloop_runner_def clientloop_params_def
    let ?now = "if IsZero now then clock 0 else now"
    obtain smap' where gen: "GenerateSessionMAPWithRuntimeSnapshot ed sorter (copy_bytes [100])
        ''session_example_01'' ''agent_support_alpha'' ''actor_user_99'' ''task_refund_check'' validTenant
        (hashBytes ''runtime_context_fingerprint'') policyHash zero_bytes 0 leaves' priv ''key_id_example_01''
        Hour ?now = Inr smap'"
      using leaves' assms(2)
      by (simp add: GenerateSessionMAPWithRuntimeSnapshot_def Let_def Hour_def Second_def)
    have "(\<exists>block. to_Result ?turn = Inr block \<and> ib_SessionMAP block = smap')
        \<and> to_Payload ?turn = OpenAI_Convert \<lparr>oa_ModelName = ''gpt-4o''\<rparr> sanitized"
      using win' gen assms(2)
      by (cases "IsZero now"; cases "policyHash = zero_bytes";
          simp add: ExecuteAdmissibleTurn_def runner_parts_def runtime_info_def
          MockInferenceProvider_Invoke_def context_Background_def Let_def Hour_def Second_def defs)
    then show ?thesis
      using clean VerifySessionMAP_generated [OF assms(1) gen] Generate_fields(8) [OF gen]
      by (auto simp: clientloop_main_def Let_def OpenAI_Convert_def VerifySessionMAPWithPolicy_def
          snapshotVerifier_Known_def)
  qed
  ultimately show ?thesis by simp
qed (simp add: same_tenant_collision)

theorem control_programs_succeed_witness:
  "harness_main mac_scheme (sort_key lr_MemoryID) (Inr (ed_Public mac_scheme demo_key, demo_key)) 7 = Inr ()
   \<or> sha256_collision {bytes_of_string ''tenant_enterprise_alpha'', bytes_of_string ''tenant_attacker_omega''}"
  using control_programs_succeed [OF mac_scheme_correct, of demo_key "sort_key lr_MemoryID" 7 "\<lambda>_. 0"] by auto

end
