(* ===== verification/Rpc_Errors.thy ===== *)
theory Rpc_Errors
  imports Mam_Prelude
begin

text \<open>
  \<^verbatim>\<open>pkg/rpc/errors.go\<close>: the coded error of the RPC edge, the text of an error and the
  code that a transport reads from one. \<^verbatim>\<open>nil\<close> is \<open>None\<close>.
\<close>

primrec Code_String :: "Code \<Rightarrow> string" where
  "Code_String CodeOK = ''OK''"
| "Code_String CodeInvalidArgument = ''InvalidArgument''"
| "Code_String CodeInternal = ''Internal''"

primrec error_Error :: "go_error \<Rightarrow> string" where
  "error_Error (ErrorString s) = s"
| "error_Error (RpcError c message) = Code_String c @ '': '' @ message"

definition InvalidArgument :: "string \<Rightarrow> go_error" where
  "InvalidArgument message = RpcError CodeInvalidArgument message"

definition Internal :: "string \<Rightarrow> go_error" where
  "Internal message = RpcError CodeInternal message"

definition ErrorCode :: "go_error option \<Rightarrow> Code" where
  "ErrorCode err =
     (case err of
        None \<Rightarrow> CodeOK
      | Some (RpcError c message) \<Rightarrow> c
      | Some (ErrorString s) \<Rightarrow> CodeInternal)"

lemma ErrorCode_simps [simp]:
  "ErrorCode None = CodeOK" "ErrorCode (Some (InvalidArgument m)) = CodeInvalidArgument"
  "ErrorCode (Some (Internal m)) = CodeInternal" "ErrorCode (Some (ErrorString m)) = CodeInternal"
  by (simp_all add: ErrorCode_def InvalidArgument_def Internal_def)

end
