(* ===== verification/Rpc.thy ===== *)
theory Rpc
  imports Rpc_Errors Ledger_File
begin

text \<open>
  \<^verbatim>\<open>pkg/rpc/server.go\<close>: the admissibility server. Pointers that may be nil are options, byte
  slices are lists of any length, and the clock and the random source are arguments. Evaluation
  judges a batch of candidates against one snapshot; registration appends to the durable ledger
  first, then to the monitor, then compiles and swaps.
\<close>

section \<open>Requests and responses\<close>

record RuntimeContext =
  ctx_TenantHash :: "byte list"
  ctx_DomainHash :: "byte list"
  ctx_RequiredLifecycle :: u64
  ctx_ProhibitedSafety :: u64
  ctx_AllowedUseClasses :: u64
  ctx_ProhibitedUseBlocks :: u64

record MemoryCandidate =
  cand_MemoryId :: "byte list"
  cand_MemoryHash :: "byte list"
  cand_MemoryFlags :: u64

record EvaluateRequest =
  evq_SessionId :: string
  evq_AgentId :: string
  evq_Context :: "RuntimeContext option"
  evq_Candidates :: "MemoryCandidate option list"

record MemoryDecisionLeaf =
  mdl_MemoryId :: "byte list"
  mdl_DecisionCode :: u32
  mdl_ReasonCode :: string
  mdl_Injected :: bool

record EvaluateResponse =
  evr_SessionId :: string
  evr_MerkleRoot :: "byte list"
  evr_Decisions :: "MemoryDecisionLeaf list"
  evr_RuntimeSnapshotVersion :: u64

record RevocationRequest =
  rvq_MemoryId :: "byte list"
  rvq_EventType :: u32
  rvq_ReasonCode :: u32
  rvq_OperatorId :: string
  rvq_Source :: string

record RevocationResponse =
  rvr_EventId :: "byte list"
  rvr_UpdatedSnapshotVersion :: u64
  rvr_UpdatedSnapshotHash :: "byte list"

record AdmissibilityServer =
  srv_Monitor :: "RuntimeMonitor option"
  srv_Ledger :: "FileLedger option"

section \<open>Evaluation\<close>

text \<open>One iteration of the loop over the candidates.\<close>

definition evaluate_candidate ::
  "RuntimeSnapshot \<Rightarrow> IDHash \<Rightarrow> IDHash \<Rightarrow> EvaluationMask \<Rightarrow> MemoryCandidate option
   \<Rightarrow> go_error + (MemoryDecisionLeaf \<times> LeafRecord)"
where
  "evaluate_candidate activeSnapshot rTenant rDomain emask co =
     (case co of
        None \<Rightarrow> Inl (InvalidArgument ''MALFORMED_CANDIDATE: nil candidate'')
      | Some candidate \<Rightarrow>
          if length (cand_MemoryId candidate) \<noteq> 16 \<or> length (cand_MemoryHash candidate) \<noteq> 32 then
            Inl (InvalidArgument ''MALFORMED_CANDIDATE: memory_id must be 16 bytes and memory_hash must be 32 bytes'')
          else
            let mID = copy_bytes (cand_MemoryId candidate) :: id16;
                mHash = copy_bytes (cand_MemoryHash candidate) :: hash32;
                dynamicDecision = LookupWithSnapshot (Some activeSnapshot) mID;
                (finalDecision, reasonCode) =
                  (if rd_Decision dynamicDecision \<noteq> DecisionUse
                   then (rd_Decision dynamicDecision, rd_Reason dynamicDecision)
                   else EvaluateMemoryHotPath rTenant rTenant rDomain rDomain
                          (cand_MemoryFlags candidate) emask);
                injected = (finalDecision = DecisionUse \<or> finalDecision = DecisionQualify)
            in Inr (\<lparr>mdl_MemoryId = cand_MemoryId candidate,
                     mdl_DecisionCode = ucast (decision_code finalDecision),
                     mdl_ReasonCode = reasonCode, mdl_Injected = injected\<rparr>,
                    \<lparr>lr_MemoryID = mID, lr_MemoryHash = mHash,
                     lr_DecisionCode = decision_code finalDecision, lr_Injected = injected,
                     lr_PolicyHash = zero_bytes, lr_ReasonCodeHash = zero_bytes\<rparr>))"

fun evaluate_candidates ::
  "RuntimeSnapshot \<Rightarrow> IDHash \<Rightarrow> IDHash \<Rightarrow> EvaluationMask \<Rightarrow> MemoryCandidate option list
   \<Rightarrow> go_error + (MemoryDecisionLeaf \<times> LeafRecord) list"
where
  "evaluate_candidates snap rTenant rDomain emask [] = Inr []"
| "evaluate_candidates snap rTenant rDomain emask (c # cs) =
     (case evaluate_candidate snap rTenant rDomain emask c of
        Inl err \<Rightarrow> Inl err
      | Inr d \<Rightarrow>
          (case evaluate_candidates snap rTenant rDomain emask cs of
             Inl err \<Rightarrow> Inl err
           | Inr ds \<Rightarrow> Inr (d # ds)))"

definition EvaluateMemoryUse ::
  "(LeafRecord list \<Rightarrow> LeafRecord list) \<Rightarrow> go_time \<Rightarrow> AdmissibilityServer option \<Rightarrow> go_error option
   \<Rightarrow> EvaluateRequest option \<Rightarrow> go_error + EvaluateResponse"
where
  "EvaluateMemoryUse sorter clock so ctxErr ro =
     (case ctxErr of
        Some err \<Rightarrow> Inl err
      | None \<Rightarrow>
     (case Option.bind so srv_Monitor of
        None \<Rightarrow> Inl (Internal ''SERVER_NOT_READY: runtime monitor is required'')
      | Some monitor \<Rightarrow>
     (case Option.bind ro (\<lambda>req. map_option (\<lambda>c. (req, c)) (evq_Context req)) of
        None \<Rightarrow> Inl (InvalidArgument ''MISSING_ARGUMENT: context and candidates are required'')
      | Some (req, context) \<Rightarrow>
          if length (evq_Candidates req) = 0 then
            Inl (InvalidArgument ''MISSING_ARGUMENT: context and candidates are required'')
          else if length (ctx_TenantHash context) \<noteq> 32 \<or> length (ctx_DomainHash context) \<noteq> 32 then
            Inl (InvalidArgument ''MALFORMED_CONTEXT: tenant and domain hashes must be exactly 32 bytes'')
          else
            let rTenant = copy_bytes (ctx_TenantHash context) :: IDHash;
                rDomain = copy_bytes (ctx_DomainHash context) :: IDHash;
                emask = \<lparr>RequiredLifecycle = ctx_RequiredLifecycle context,
                  ProhibitedSafety = ctx_ProhibitedSafety context,
                  AllowedUseClasses = ctx_AllowedUseClasses context,
                  ProhibitedUseBlocks = ctx_ProhibitedUseBlocks context, SensitivityLimit = 0\<rparr>;
                activeSnapshot = GetActiveSnapshot monitor clock
            in
            (case evaluate_candidates activeSnapshot rTenant rDomain emask (evq_Candidates req) of
               Inl err \<Rightarrow> Inl err
             | Inr ds \<Rightarrow>
                 let root = BuildTurnTree sorter (map snd ds)
                 in Inr \<lparr>evr_SessionId = evq_SessionId req, evr_MerkleRoot = list_of_bytes root,
                      evr_Decisions = map fst ds,
                      evr_RuntimeSnapshotVersion = sn_Version activeSnapshot\<rparr>))))"

section \<open>Registration\<close>

text \<open>\<open>rand\<close> is the result of \<^verbatim>\<open>rand.Read\<close>; \<open>t0\<close> and \<open>t1\<close> are the two clock readings.\<close>

definition newEventID :: "go_error + byte list \<Rightarrow> go_error + id16" where
  "newEventID rand = map_sum id copy_bytes rand"

definition revocation_event :: "RevocationRequest \<Rightarrow> id16 \<Rightarrow> go_time \<Rightarrow> RevocationEvent" where
  "revocation_event req eventID t0 =
     \<lparr>ev_EventID = eventID, ev_MemoryID = copy_bytes (rvq_MemoryId req),
      ev_EventType = EventType_of_u8 (ucast (rvq_EventType req)),
      ev_Reason = QuarantineReason_of_u8 (ucast (rvq_ReasonCode req)),
      ev_OperatorID = rvq_OperatorId req, ev_Source = rvq_Source req, ev_CreatedAt = t0,
      ev_PolicyHash = zero_bytes, ev_PreviousState = [], ev_NewState = ''active'',
      ev_Signature = zero_bytes, ev_SigningKeyID = []\<rparr>"

definition RegisterRevocationEvent ::
  "json_codec \<Rightarrow> go_error + byte list \<Rightarrow> go_time \<Rightarrow> go_time \<Rightarrow> AdmissibilityServer option
   \<Rightarrow> go_error option \<Rightarrow> RevocationRequest option
   \<Rightarrow> AdmissibilityServer option \<times> (go_error + RevocationResponse)"
where
  "RegisterRevocationEvent js rand t0 t1 so ctxErr ro =
     (case ctxErr of
        Some err \<Rightarrow> (so, Inl err)
      | None \<Rightarrow>
     (case Option.bind so (\<lambda>s. map_option (\<lambda>m. (s, m)) (srv_Monitor s)) of
        None \<Rightarrow> (so, Inl (Internal ''SERVER_NOT_READY: runtime monitor is required''))
      | Some (s, monitor) \<Rightarrow>
     (case ro of
        None \<Rightarrow>
          (so, Inl (InvalidArgument ''MALFORMED_REVOCATION: memory_id must be exactly 16 bytes''))
      | Some req \<Rightarrow>
          if length (rvq_MemoryId req) \<noteq> 16 then
            (so, Inl (InvalidArgument ''MALFORMED_REVOCATION: memory_id must be exactly 16 bytes''))
          else
            (case newEventID rand of
               Inl err \<Rightarrow> (so, Inl err)
             | Inr eventID \<Rightarrow>
                 let event = revocation_event req eventID t0;
                     (ledger', appendErr) =
                       (case srv_Ledger s of
                          None \<Rightarrow> (None, None)
                        | Some l \<Rightarrow>
                            let (l', e) = ledger_AppendEvent js l event in (Some l', e))
                 in
                 (case appendErr of
                    Some err \<Rightarrow> (Some (s\<lparr>srv_Ledger := ledger'\<rparr>), Inl err)
                  | None \<Rightarrow>
                      let (monitor', snap) = CompileAndSwap (AppendEvent monitor event) t1
                      in (Some (s\<lparr>srv_Ledger := ledger', srv_Monitor := Some monitor'\<rparr>),
                          Inr \<lparr>rvr_EventId = list_of_bytes eventID,
                            rvr_UpdatedSnapshotVersion = sn_Version snap,
                            rvr_UpdatedSnapshotHash = list_of_bytes (sn_SnapshotHash snap)\<rparr>))))))"

section \<open>Evaluation of a batch\<close>

lemma evaluate_candidates_all:
  "evaluate_candidates snap rt rd emask cs = Inr ds \<Longrightarrow>
     list_all2 (\<lambda>c d. evaluate_candidate snap rt rd emask c = Inr d) cs ds"
  by (induction cs arbitrary: ds) (auto split: sum.splits)

text \<open>What is decided of one well-formed candidate.\<close>

definition candidate_admissible ::
  "RuntimeSnapshot \<Rightarrow> RuntimeContext \<Rightarrow> MemoryCandidate \<Rightarrow> bool"
where
  "candidate_admissible snap context c \<longleftrightarrow>
     \<not> snapshot_blocks (Some snap) (copy_bytes (cand_MemoryId c))
   \<and> \<not> bit (cand_MemoryFlags c) 1 \<and> \<not> bit (cand_MemoryFlags c) 2 \<and> \<not> bit (cand_MemoryFlags c) 3
   \<and> cand_MemoryFlags c AND ctx_ProhibitedSafety context = 0
   \<and> cand_MemoryFlags c AND ctx_ProhibitedUseBlocks context = 0
   \<and> cand_MemoryFlags c AND ctx_AllowedUseClasses context \<noteq> 0"

lemma gated_hot_path:
  "(let d = LookupWithSnapshot os mid; (decision, reason) =
      (if rd_Decision d \<noteq> DecisionUse then (rd_Decision d, rd_Reason d)
       else EvaluateMemoryHotPath rt rt rd rd flags emask)
    in decision = DecisionUse \<or> decision = DecisionQualify)
   \<longleftrightarrow> \<not> snapshot_blocks os mid \<and> \<not> bit flags 1 \<and> \<not> bit flags 2 \<and> \<not> bit flags 3
     \<and> flags AND ProhibitedSafety emask = 0 \<and> flags AND ProhibitedUseBlocks emask = 0
     \<and> flags AND AllowedUseClasses emask \<noteq> 0"
proof -
  let ?static = "EvaluateMemoryHotPath rt rt rd rd flags emask"
  have "fst ?static \<noteq> DecisionQualify"
    using hot_path_decisions [of rt rt rd rd flags emask] by auto
  note facts = snapgate.gated_qualify [OF this, of os mid]
    snapgate.gated_use_iff [of os mid ?static] hot_path_use_iff [of rt rt rd rd flags emask]
  show ?thesis
    unfolding Let_def case_prod_beta using facts by simp
qed

lemma evaluate_candidate_Inr:
  assumes "evaluate_candidate snap rt rd
      \<lparr>RequiredLifecycle = rl, ProhibitedSafety = ctx_ProhibitedSafety context,
       AllowedUseClasses = ctx_AllowedUseClasses context,
       ProhibitedUseBlocks = ctx_ProhibitedUseBlocks context, SensitivityLimit = sl\<rparr> co = Inr (d, l)"
  obtains c where "co = Some c" and "mdl_MemoryId d = cand_MemoryId c"
    and "lr_MemoryID l = copy_bytes (cand_MemoryId c)" and "lr_Injected l = mdl_Injected d"
    and "ucast (lr_DecisionCode l) = mdl_DecisionCode d"
    and "mdl_Injected d \<longleftrightarrow> candidate_admissible snap context c"
proof -
  from assms obtain c where c: "co = Some c" "length (cand_MemoryId c) = 16"
    by (auto simp: evaluate_candidate_def split: option.splits if_splits)
  note iff = gated_hot_path [of "Some snap" "copy_bytes (cand_MemoryId c)" rt rd "cand_MemoryFlags c"
      "\<lparr>RequiredLifecycle = rl, ProhibitedSafety = ctx_ProhibitedSafety context,
       AllowedUseClasses = ctx_AllowedUseClasses context,
       ProhibitedUseBlocks = ctx_ProhibitedUseBlocks context, SensitivityLimit = sl\<rparr>"]
  show thesis
    by (rule that [OF c(1)])
      (use assms c iff in \<open>auto simp: evaluate_candidate_def candidate_admissible_def Let_def
        case_prod_beta split: if_splits\<close>)
qed

lemma evaluate_candidate_leaf:
  assumes "evaluate_candidate snap rt rd
      \<lparr>RequiredLifecycle = rl, ProhibitedSafety = ctx_ProhibitedSafety context,
       AllowedUseClasses = ctx_AllowedUseClasses context,
       ProhibitedUseBlocks = ctx_ProhibitedUseBlocks context, SensitivityLimit = sl\<rparr> co = Inr dl"
  shows "lr_MemoryID (snd dl) = copy_bytes (mdl_MemoryId (fst dl))
    \<and> lr_Injected (snd dl) = mdl_Injected (fst dl)
    \<and> ucast (lr_DecisionCode (snd dl)) = mdl_DecisionCode (fst dl)"
    and "\<exists>c. co = Some c \<and> mdl_MemoryId (fst dl) = cand_MemoryId c
      \<and> (mdl_Injected (fst dl) \<longleftrightarrow> candidate_admissible snap context c)"
proof -
  obtain d l where dl: "dl = (d, l)" by (cases dl)
  show "lr_MemoryID (snd dl) = copy_bytes (mdl_MemoryId (fst dl))
    \<and> lr_Injected (snd dl) = mdl_Injected (fst dl)
    \<and> ucast (lr_DecisionCode (snd dl)) = mdl_DecisionCode (fst dl)"
    and "\<exists>c. co = Some c \<and> mdl_MemoryId (fst dl) = cand_MemoryId c
      \<and> (mdl_Injected (fst dl) \<longleftrightarrow> candidate_admissible snap context c)"
    using assms unfolding dl by (auto elim: evaluate_candidate_Inr)
qed

lemma hot_path_same_tenant:
  "EvaluateMemoryHotPath rt rt rd rd f m = EvaluateMemoryHotPath rt' rt' rd' rd' f m"
  by (simp add: EvaluateMemoryHotPath_alt)

lemma evaluate_candidate_tenant:
  "evaluate_candidate snap rt rd emask c = evaluate_candidate snap rt' rd' emask c"
  unfolding evaluate_candidate_def hot_path_same_tenant [of rt rd _ _ rt' rd'] ..

lemma evaluate_candidates_tenant:
  "evaluate_candidates snap rt rd emask cs = evaluate_candidates snap rt' rd' emask cs"
  by (induction cs)
    (simp_all add: evaluate_candidate_tenant [of snap rt rd emask _ rt' rd'] split: sum.split)

lemma RegisterRevocationEvent_InrE:
  assumes "RegisterRevocationEvent js rand t0 t1 (Some s) ctxErr (Some req) = (so', Inr resp)"
    and "srv_Monitor s = Some m"
  obtains eid ledger' where "newEventID rand = Inr eid" and "length (rvq_MemoryId req) = 16"
    and "so' = Some (s\<lparr>srv_Ledger := ledger', srv_Monitor :=
      Some (fst (CompileAndSwap (AppendEvent m (revocation_event req eid t0)) t1))\<rparr>)"
    and "rvr_EventId resp = list_of_bytes eid"
    and "rvr_UpdatedSnapshotVersion resp
      = sn_Version (snd (CompileAndSwap (AppendEvent m (revocation_event req eid t0)) t1))"
    and "rvr_UpdatedSnapshotHash resp = list_of_bytes
      (sn_SnapshotHash (snd (CompileAndSwap (AppendEvent m (revocation_event req eid t0)) t1)))"
    and "case srv_Ledger s of None \<Rightarrow> ledger' = None
      | Some l \<Rightarrow> \<exists>l'. ledger' = Some l'
          \<and> ledger_AppendEvent js l (revocation_event req eid t0) = (l', None)"
  using assms
  by (auto simp: RegisterRevocationEvent_def Let_def case_prod_beta prod_eq_iff
      split: option.splits sum.splits if_splits)

lemma CompileAndSwap_info:
  "ActiveSnapshotInfo (fst (CompileAndSwap m t))
     = (sn_SnapshotHash (snd (CompileAndSwap m t)), sn_Version (snd (CompileAndSwap m t)))"
  by (simp add: ActiveSnapshotInfo_def CompileAndSwap_def Let_def SwapActiveSnapshot_def)

section \<open>Properties\<close>

text \<open>
  C15: a batch is judged against one snapshot, exactly. A successful evaluation answers every
  candidate in order; it says injected exactly for those candidates that the active snapshot does
  not block, whose lifecycle flags are clear, that hit no prohibited flag and have an allowed use
  class. The version in the response is that of this one snapshot, and the root is the root of
  leaves that carry the same identifiers and verdicts as the answers.
\<close>

theorem evaluation_is_exact:
  assumes "EvaluateMemoryUse sorter clock (Some s) ctxErr (Some req) = Inr resp"
    and "srv_Monitor s = Some m" and "evq_Context req = Some context"
  shows "evr_RuntimeSnapshotVersion resp = sn_Version (GetActiveSnapshot m clock)
    \<and> list_all2 (\<lambda>co d. \<exists>c. co = Some c \<and> mdl_MemoryId d = cand_MemoryId c
         \<and> (mdl_Injected d \<longleftrightarrow> candidate_admissible (GetActiveSnapshot m clock) context c))
       (evq_Candidates req) (evr_Decisions resp)
    \<and> (\<exists>leaves. evr_MerkleRoot resp = list_of_bytes (BuildTurnTree sorter leaves)
         \<and> list_all2 (\<lambda>d l. lr_MemoryID l = copy_bytes (mdl_MemoryId d)
              \<and> lr_Injected l = mdl_Injected d \<and> ucast (lr_DecisionCode l) = mdl_DecisionCode d)
             (evr_Decisions resp) leaves)"
proof -
  let ?snap = "GetActiveSnapshot m clock"
  let ?emask = "\<lparr>RequiredLifecycle = ctx_RequiredLifecycle context,
    ProhibitedSafety = ctx_ProhibitedSafety context, AllowedUseClasses = ctx_AllowedUseClasses context,
    ProhibitedUseBlocks = ctx_ProhibitedUseBlocks context, SensitivityLimit = 0\<rparr>"
  let ?eval = "evaluate_candidate ?snap (copy_bytes (ctx_TenantHash context))
    (copy_bytes (ctx_DomainHash context)) ?emask"
  obtain ds where ds: "list_all2 (\<lambda>c d. ?eval c = Inr d) (evq_Candidates req) ds"
      and resp: "evr_Decisions resp = map fst ds" "evr_RuntimeSnapshotVersion resp = sn_Version ?snap"
        "evr_MerkleRoot resp = list_of_bytes (BuildTurnTree sorter (map snd ds))"
    using assms
    by (auto simp: EvaluateMemoryUse_def Let_def dest!: evaluate_candidates_all
        split: option.splits sum.splits if_splits)
  have "list_all2 (\<lambda>co d. \<exists>c. co = Some c \<and> mdl_MemoryId d = cand_MemoryId c
      \<and> (mdl_Injected d \<longleftrightarrow> candidate_admissible ?snap context c)) (evq_Candidates req) (map fst ds)"
    unfolding list_all2_map2 using ds
    by (rule list_all2_mono) (rule evaluate_candidate_leaf(2))
  moreover have "list_all2 (\<lambda>d l. lr_MemoryID l = copy_bytes (mdl_MemoryId d)
      \<and> lr_Injected l = mdl_Injected d \<and> ucast (lr_DecisionCode l) = mdl_DecisionCode d)
      (map fst ds) (map snd ds)"
  proof -
    have "lr_MemoryID (snd d) = copy_bytes (mdl_MemoryId (fst d))
        \<and> lr_Injected (snd d) = mdl_Injected (fst d)
        \<and> ucast (lr_DecisionCode (snd d)) = mdl_DecisionCode (fst d)" if "d \<in> set ds" for d
    proof -
      from that obtain i where "i < length ds" "ds ! i = d" unfolding in_set_conv_nth by blast
      with list_all2_nthD2 [OF ds] have "?eval (evq_Candidates req ! i) = Inr d" by blast
      then show ?thesis by (rule evaluate_candidate_leaf(1))
    qed
    then show ?thesis by (simp add: list_all2_map1 list_all2_map2 list_all2_same)
  qed
  ultimately show ?thesis unfolding resp by blast
qed

text \<open>
  The tenant and the domain of the request decide nothing. The server compares the request's
  tenant and domain with themselves, so a request for another tenant and another domain gets the same
  response for the same candidates.
\<close>

theorem tenant_is_not_checked:
  assumes "evq_Context req = Some context"
    and "length (ctx_TenantHash context) = 32" and "length (ctx_DomainHash context) = 32"
    and "length otherTenant = 32" and "length otherDomain = 32"
  shows "EvaluateMemoryUse sorter clock so ctxErr (Some (req\<lparr>evq_Context :=
      Some (context\<lparr>ctx_TenantHash := otherTenant, ctx_DomainHash := otherDomain\<rparr>)\<rparr>))
    = EvaluateMemoryUse sorter clock so ctxErr (Some req)"
  unfolding EvaluateMemoryUse_def Let_def
    evaluate_candidates_tenant [of _ "copy_bytes (ctx_TenantHash _)" "copy_bytes (ctx_DomainHash _)" _ _
      zero_bytes zero_bytes]
  using assms by (simp split: option.split sum.split)

text \<open>
  C14: an acknowledged block is durable and in force. When a registration of a quarantine, revocation
  or deletion event succeeds, the record of the event is at the end of the ledger file (if the server
  has one), the event is in the monitor's ledger, the response names the snapshot that is now active,
  and that snapshot does not let the memory pass.
\<close>

theorem acknowledged_block_is_in_force:
  assumes "RegisterRevocationEvent js rand t0 t1 (Some s) ctxErr (Some req) = (so', Inr resp)"
    and "srv_Monitor s = Some m"
    and "blocking_event (EventType_of_u8 (ucast (rvq_EventType req)))"
  shows "\<exists>s' m' e. so' = Some s' \<and> srv_Monitor s' = Some m'
    \<and> ev_MemoryID e = copy_bytes (rvq_MemoryId req) \<and> list_of_bytes (ev_EventID e) = rvr_EventId resp
    \<and> Ledger m' = Ledger m @ [e]
    \<and> (\<forall>l f. srv_Ledger s = Some l \<and> fl_file l = Some f \<longrightarrow>
         (\<exists>l' f'. srv_Ledger s' = Some l' \<and> fl_file l' = Some f'
            \<and> file_contents f' = file_contents f @ event_record js e))
    \<and> list_of_bytes (fst (ActiveSnapshotInfo m')) = rvr_UpdatedSnapshotHash resp
    \<and> snd (ActiveSnapshotInfo m') = rvr_UpdatedSnapshotVersion resp
    \<and> rd_Decision (Lookup m' (copy_bytes (rvq_MemoryId req))) \<noteq> DecisionUse"
  using assms(1,2)
proof (rule RegisterRevocationEvent_InrE, goal_cases)
  case (1 eid ledger')
  let ?e = "revocation_event req eid t0"
  let ?m = "fst (CompileAndSwap (AppendEvent m ?e) t1)"
  let ?s = "s\<lparr>srv_Ledger := ledger', srv_Monitor := Some ?m\<rparr>"
  have e: "ev_MemoryID ?e = copy_bytes (rvq_MemoryId req)" "ev_EventID ?e = eid"
      "blocking_event (ev_EventType ?e)"
    using assms(3) by (simp_all add: revocation_event_def)
  have "Ledger ?m = Ledger m @ [?e]"
    by (simp add: Ledger_def CompileAndSwap_def Let_def SwapActiveSnapshot_def AppendEvent_def)
  moreover have "mem_blocked (mem_history (ev_MemoryID ?e) (mon_ledger m @ [?e]))"
    unfolding mem_history_snoc using e(3) by (rule mem_step_blocking)
  then have "rd_Decision (Lookup ?m (copy_bytes (rvq_MemoryId req))) \<noteq> DecisionUse"
    by (simp add: Lookup_CompileAndSwap mem_verdict_use_iff AppendEvent_def flip: e(1))
  moreover have "\<exists>l' f'. srv_Ledger ?s = Some l' \<and> fl_file l' = Some f'
      \<and> file_contents f' = file_contents f @ event_record js ?e"
    if "srv_Ledger s = Some l" "fl_file l = Some f" for l f
    using 1(7) that ledger_AppendEvent_durable by fastforce
  ultimately show ?case
    using 1(3-6) e(1,2) by (intro exI [of _ ?s] exI [of _ ?m] exI [of _ ?e]) (simp add: CompileAndSwap_info)
qed

text \<open>
  A refused registration changes no verdict. Whatever error is returned (context, server, request,
  random source or ledger), the monitor is the same as before.
\<close>

theorem failed_registration_keeps_the_monitor:
  assumes "RegisterRevocationEvent js rand t0 t1 so ctxErr ro = (so', Inl err)"
  shows "map_option srv_Monitor so' = map_option srv_Monitor so"
  using assms
  by (auto simp: RegisterRevocationEvent_def Let_def case_prod_beta bind_eq_Some_conv
      split: option.splits sum.splits if_splits)

text \<open>
  Unknown event types are acknowledged without effect. An event type whose low byte names no
  event is accepted: the registration succeeds exactly as a known one would, the snapshot version
  grows by one, and the verdict that the compiled ledger gives to every memory stays what it was.
\<close>

theorem unknown_event_is_acknowledged:
  assumes "RegisterRevocationEvent js rand t0 t1 (Some s) ctxErr (Some req) = (so', Inr resp)"
    and "srv_Monitor s = Some m" and "mon_snapshot m = Some old"
    and "7 < (ucast (rvq_EventType req) :: u8)"
  shows "\<exists>s' m'. so' = Some s' \<and> srv_Monitor s' = Some m'
    \<and> rvr_UpdatedSnapshotVersion resp = sn_Version old + 1
    \<and> (\<forall>mid. Lookup m' mid = Lookup (fst (CompileAndSwap m t)) mid)"
  using assms(1,2)
proof (rule RegisterRevocationEvent_InrE, goal_cases)
  case (1 eid ledger')
  let ?e = "revocation_event req eid t0"
  have "ev_EventType ?e = EventUnknown (ucast (rvq_EventType req))"
    using assms(4) by (auto simp: revocation_event_def EventType_of_u8_def)
  then have "mem_step ?e st = st" for st
    by (simp add: mem_step_def quarantine_event_def)
  then have "mem_history mid (mon_ledger m @ [?e]) = mem_history mid (mon_ledger m)" for mid
    by (simp add: mem_history_def own_events_def)
  then have "Lookup (fst (CompileAndSwap (AppendEvent m ?e) t1)) mid
      = Lookup (fst (CompileAndSwap m t)) mid" for mid
    by (simp add: Lookup_CompileAndSwap AppendEvent_def)
  moreover have "sn_Version (snd (CompileAndSwap (AppendEvent m ?e) t1)) = sn_Version old + 1"
    using assms(3) by (simp add: CompileAndSwap_def Let_def AppendEvent_def)
  ultimately show ?case using 1(3,5) by simp
qed

section \<open>Concrete instances\<close>

definition demo_context :: RuntimeContext where
  "demo_context = \<lparr>ctx_TenantHash = replicate 32 1, ctx_DomainHash = replicate 32 2,
     ctx_RequiredLifecycle = 1, ctx_ProhibitedSafety = 0x30, ctx_AllowedUseClasses = 0x100,
     ctx_ProhibitedUseBlocks = 0x70000\<rparr>"

definition demo_request :: EvaluateRequest where
  "demo_request = \<lparr>evq_SessionId = ''s'', evq_AgentId = ''a'', evq_Context = Some demo_context,
     evq_Candidates = [Some \<lparr>cand_MemoryId = replicate 16 9, cand_MemoryHash = replicate 32 7,
       cand_MemoryFlags = 0\<rparr>]\<rparr>"

definition demo_server :: AdmissibilityServer where
  "demo_server = \<lparr>srv_Monitor = Some (NewRuntimeMonitor 0), srv_Ledger = None\<rparr>"

definition demo_revocation :: "u32 \<Rightarrow> RevocationRequest" where
  "demo_revocation ty = \<lparr>rvq_MemoryId = replicate 16 9, rvq_EventType = ty, rvq_ReasonCode = 0,
     rvq_OperatorId = ''op'', rvq_Source = ''src''\<rparr>"

lemma demo_evaluation_succeeds:
  "\<exists>resp. EvaluateMemoryUse (sort_key lr_MemoryID) 0 (Some demo_server) None (Some demo_request) = Inr resp"
  by (simp add: EvaluateMemoryUse_def demo_server_def demo_request_def demo_context_def
      evaluate_candidate_def Let_def case_prod_beta)

lemma demo_registration_succeeds:
  "\<exists>so' resp. RegisterRevocationEvent (table_codec []) (Inr [5]) 1 2 (Some demo_server) None
     (Some (demo_revocation ty)) = (so', Inr resp)"
  by (simp add: RegisterRevocationEvent_def demo_server_def demo_revocation_def newEventID_def Let_def
      case_prod_beta)

theorem evaluation_is_exact_witness:
  "\<exists>resp. EvaluateMemoryUse (sort_key lr_MemoryID) 0 (Some demo_server) None (Some demo_request) = Inr resp
     \<and> evr_RuntimeSnapshotVersion resp = 0
     \<and> map mdl_Injected (evr_Decisions resp) = [False]"
proof -
  obtain resp where run: "EvaluateMemoryUse (sort_key lr_MemoryID) 0 (Some demo_server) None
      (Some demo_request) = Inr resp"
    using demo_evaluation_succeeds by blast
  from evaluation_is_exact [OF run, of "NewRuntimeMonitor 0" demo_context] run show ?thesis
    by (auto simp: demo_server_def demo_request_def list_all2_Cons1 candidate_admissible_def
        GetActiveSnapshot_def NewRuntimeMonitor_def SwapActiveSnapshot_def NewEmptySnapshot_def
        blank_snapshot_def Let_def)
qed

theorem tenant_is_not_checked_witness:
  "EvaluateMemoryUse (sort_key lr_MemoryID) 0 (Some demo_server) None (Some (demo_request\<lparr>evq_Context :=
      Some (demo_context\<lparr>ctx_TenantHash := replicate 32 66, ctx_DomainHash := replicate 32 67\<rparr>)\<rparr>))
    = EvaluateMemoryUse (sort_key lr_MemoryID) 0 (Some demo_server) None (Some demo_request)"
  by (rule tenant_is_not_checked) (simp_all add: demo_request_def demo_context_def)

theorem acknowledged_block_is_in_force_witness:
  "\<exists>s' m'. fst (RegisterRevocationEvent (table_codec []) (Inr [5]) 1 2 (Some demo_server) None
        (Some (demo_revocation 1))) = Some s'
     \<and> srv_Monitor s' = Some m' \<and> rd_Decision (Lookup m' (copy_bytes (replicate 16 9))) \<noteq> DecisionUse"
proof -
  obtain so' resp where run: "RegisterRevocationEvent (table_codec []) (Inr [5]) 1 2 (Some demo_server)
      None (Some (demo_revocation 1)) = (so', Inr resp)"
    using demo_registration_succeeds by blast
  have "blocking_event (EventType_of_u8 (ucast (rvq_EventType (demo_revocation 1))))"
    by (simp add: demo_revocation_def EventType_of_u8_def blocking_event_def)
  from acknowledged_block_is_in_force [OF run _ this, of "NewRuntimeMonitor 0"] run show ?thesis
    by (auto simp: demo_server_def demo_revocation_def)
qed

theorem failed_registration_keeps_the_monitor_witness:
  "map_option srv_Monitor (fst (RegisterRevocationEvent (table_codec []) (Inl (ErrorString ''rand'')) 1 2
     (Some demo_server) None (Some (demo_revocation 1)))) = Some (Some (NewRuntimeMonitor 0))"
proof -
  have "RegisterRevocationEvent (table_codec []) (Inl (ErrorString ''rand'')) 1 2 (Some demo_server) None
      (Some (demo_revocation 1)) = (Some demo_server, Inl (ErrorString ''rand''))"
    by (simp add: RegisterRevocationEvent_def demo_server_def demo_revocation_def newEventID_def)
  from failed_registration_keeps_the_monitor [OF this] this show ?thesis
    by (simp add: demo_server_def)
qed

theorem unknown_event_is_acknowledged_witness:
  "\<exists>s' m'. fst (RegisterRevocationEvent (table_codec []) (Inr [5]) 1 2 (Some demo_server) None
        (Some (demo_revocation 200))) = Some s'
     \<and> srv_Monitor s' = Some m'
     \<and> Lookup m' (copy_bytes (replicate 16 9))
         = Lookup (fst (CompileAndSwap (NewRuntimeMonitor 0) 3)) (copy_bytes (replicate 16 9))"
proof -
  obtain so' resp where run: "RegisterRevocationEvent (table_codec []) (Inr [5]) 1 2 (Some demo_server)
      None (Some (demo_revocation 200)) = (so', Inr resp)"
    using demo_registration_succeeds by blast
  have "7 < (ucast (rvq_EventType (demo_revocation 200)) :: u8)"
    by (simp add: demo_revocation_def)
  from unknown_event_is_acknowledged [OF run _ _ this, of "NewRuntimeMonitor 0" "NewEmptySnapshot 0 0" 3]
    run show ?thesis
    by (auto simp: demo_server_def NewRuntimeMonitor_def SwapActiveSnapshot_def)
qed

end
