(* ===== verification/Orchestrator.thy ===== *)
theory Orchestrator
  imports Gateway Rpc_Errors Go_Chan
begin

text \<open>
  \<^verbatim>\<open>pkg/orchestrator\<close>: the handoff from a supervisor to a sub-agent. A handoff takes one of
  a bounded number of slots or is refused at once, sanitizes the scratchpad, calls the provider,
  seals the manifest and the lineage record, and gives the slot back on every return. Concurrent
  handoffs are a step relation over the slot channel. The three observations of
  \<^verbatim>\<open>ctx.Err()\<close> are the results 0 (admission), 1 (after admission) and 2 (sanitizer) of
  the context; the provider gets the context as the sanitizer does.
\<close>

abbreviation BackpressureError :: string where
  "BackpressureError \<equiv>
     ''ORCHESTRATOR_BACKPRESSURE: handoff queue saturated; sub-agent initialization refused''"

record AgentIdentity =
  ag_AgentID :: string
  ag_TenantHash :: IDHash
  ag_DomainHash :: IDHash

record HandoffCoordinator =
  hc_GatewayWrapper :: "ClientWrapper option"
  hc_Provider :: "LLMProviderAdapter option"
  hc_AuditKeyID :: string
  hc_SigningKey :: "byte list"
  hc_ModelName :: string
  hc_slots :: "unit go_chan"

record HandoffResult =
  hr_SanitizedPayload :: "LLMMessage list"
  hr_InferenceBlock :: AdmissibleInferenceBlock
  hr_ConsequenceToken :: MachineConsequenceRecord

text \<open>The arguments of \<^verbatim>\<open>ExecuteAgentHandoff\<close>.\<close>

record handoff_args =
  ha_ctx :: "go_context option"
  ha_mcrID :: id16
  ha_mapID :: id16
  ha_sessionID :: string
  ha_taskID :: string
  ha_actorID :: string
  ha_target :: AgentIdentity
  ha_mask :: EvaluationMask
  ha_rawScratchpad :: "LLMMessage list"
  ha_bindings :: "MemoryContextBinding list"
  ha_eepID :: string
  ha_aepID :: string

definition NewHandoffCoordinator ::
  "ClientWrapper option \<Rightarrow> LLMProviderAdapter option \<Rightarrow> string \<Rightarrow> byte list \<Rightarrow> int \<Rightarrow> HandoffCoordinator"
where
  "NewHandoffCoordinator wrapper provider keyID signingKey maxConcurrentHandoffs =
     (let n = (if maxConcurrentHandoffs \<le> 0 then 1 else maxConcurrentHandoffs)
      in \<lparr>hc_GatewayWrapper = wrapper, hc_Provider = provider, hc_AuditKeyID = keyID,
          hc_SigningKey = signingKey, hc_ModelName = ''gpt-4o-sub-agent-v1'',
          hc_slots = make_chan (nat n)\<rparr>)"

definition modelName :: "HandoffCoordinator \<Rightarrow> string" where
  "modelName c = (if hc_ModelName c \<noteq> [] then hc_ModelName c else ''gpt-4o-sub-agent-v1'')"

definition hex_digit :: "byte \<Rightarrow> char" where
  "hex_digit b = ''0123456789abcdef'' ! unat b"

definition shortID :: "id16 \<Rightarrow> string" where
  "shortID i = concat (map (\<lambda>b. [hex_digit (drop_bit 4 b), hex_digit (b AND 0x0f)])
     (take 4 (list_of_bytes i)))"

definition generateHandoffSessionMAP ::
  "ed25519 \<Rightarrow> (LeafRecord list \<Rightarrow> LeafRecord list) \<Rightarrow> id16 \<Rightarrow> string \<Rightarrow> string \<Rightarrow> string \<Rightarrow> string
   \<Rightarrow> IDHash \<Rightarrow> hash32 \<Rightarrow> hash32 \<Rightarrow> u64 \<Rightarrow> LeafRecord list \<Rightarrow> byte list \<Rightarrow> string \<Rightarrow> duration \<Rightarrow> go_time
   \<Rightarrow> go_error + SessionMAP"
where
  "generateHandoffSessionMAP ed sorter mapID sessionID agentID actorID taskID tenantHash policyHash
     runtimeSnapshotHash runtimeSnapshotVersion leaves signingKey keyID ttl now =
     GenerateSessionMAPWithRuntimeSnapshot ed sorter mapID sessionID agentID actorID taskID tenantHash
       zero_bytes policyHash runtimeSnapshotHash runtimeSnapshotVersion leaves signingKey keyID ttl now"

section \<open>One handoff\<close>

definition handoff_ctx :: "handoff_args \<Rightarrow> go_context" where
  "handoff_ctx a = (case ha_ctx a of None \<Rightarrow> context_Background | Some ctx \<Rightarrow> ctx)"

definition hook_error :: "string \<Rightarrow> go_error \<Rightarrow> go_error" where
  "hook_error msg err = ErrorString (msg @ error_Error err)"

text \<open>Everything up to and including the slot: an error, or the coordinator with the slot taken.\<close>

definition handoff_admit :: "HandoffCoordinator option \<Rightarrow> handoff_args \<Rightarrow> go_error + HandoffCoordinator" where
  "handoff_admit co a =
     (case handoff_ctx a 0 of
        Some err \<Rightarrow> Inl (hook_error
          ''ORCHESTRATOR_BACKPRESSURE: context done before slot admission -> '' err)
      | None \<Rightarrow>
     (case co of
        None \<Rightarrow> Inl (ErrorString
          ''ORCHESTRATOR_HOOK_ERR: coordinator requires gateway wrapper and provider'')
      | Some c \<Rightarrow>
          if hc_GatewayWrapper c = None \<or> hc_Provider c = None then
            Inl (ErrorString
              ''ORCHESTRATOR_HOOK_ERR: coordinator requires gateway wrapper and provider'')
          else if length (hc_SigningKey c) \<noteq> PrivateKeySize then
            Inl (ErrorString ''ORCHESTRATOR_HOOK_ERR: Ed25519 private signing key required'')
          else
            (case chan_offer () (hc_slots c) of
               None \<Rightarrow> Inl (ErrorString BackpressureError)
             | Some slots \<Rightarrow> Inr (c\<lparr>hc_slots := slots\<rparr>))))"

text \<open>
  The body while the slot is held: the provider calls it makes, in order, and its result. \<open>now\<close> is
  \<^verbatim>\<open>time.Now().UTC()\<close>.
\<close>

definition handoff_body ::
  "ed25519 \<Rightarrow> (LeafRecord list \<Rightarrow> LeafRecord list) \<Rightarrow> go_time \<Rightarrow> HandoffCoordinator \<Rightarrow> ClientWrapper
   \<Rightarrow> LLMProviderAdapter \<Rightarrow> handoff_args \<Rightarrow> LLMMessage list list \<times> (go_error + HandoffResult)"
where
  "handoff_body ed sorter now c w provider a =
     (let ctx = handoff_ctx a; ctx' = (\<lambda>k. ctx (k + 2)) in
      case ctx 1 of
        Some err \<Rightarrow> ([], Inl (hook_error
          ''ORCHESTRATOR_BACKPRESSURE: context deadline exceeded before handoff execution -> '' err))
      | None \<Rightarrow>
     (case SanitizeContextWindow (Some w) ctx' (ag_TenantHash (ha_target a))
         (ag_DomainHash (ha_target a)) (ha_mask a) (ha_rawScratchpad a) (ha_bindings a) of
        Inl err \<Rightarrow> ([], Inl (hook_error ''ORCHESTRATOR_HOOK_ERR: gateway scrubbing fault -> '' err))
      | Inr (sanitizedMessages, leaves) \<Rightarrow>
     (case provider ctx' sanitizedMessages of
        Inl err \<Rightarrow> ([sanitizedMessages], Inl (hook_error
          ''ORCHESTRATOR_HOOK_ERR: sub-agent invocation execution failure -> '' err))
      | Inr providerResponse \<Rightarrow>
     (case generateHandoffSessionMAP ed sorter (ha_mapID a) (ha_sessionID a)
         (ag_AgentID (ha_target a)) (ha_actorID a) (ha_taskID a) (ag_TenantHash (ha_target a))
         (cw_PolicyHash w) (fst (runtime_info w (length (ha_bindings a))))
         (snd (runtime_info w (length (ha_bindings a)))) leaves (hc_SigningKey c)
         (hc_AuditKeyID c) Hour now of
        Inl err \<Rightarrow> ([sanitizedMessages], Inl (hook_error
          ''ORCHESTRATOR_HOOK_ERR: evidence block compilation error -> '' err))
      | Inr smap \<Rightarrow>
          let inferenceBlock =
            \<lparr>ib_InferenceID = ''inf_sub_'' @ shortID (ha_mapID a), ib_ModelName = modelName c,
             ib_ResponseText = pr_Text providerResponse,
             ib_UsageTokens = pr_Tokens providerResponse, ib_SessionMAP = smap,
             ib_CompletedAt = now\<rparr>
          in
     (case CompileLineageRecord (ha_mcrID a) smap (ha_eepID a) (ha_aepID a)
         (word_of_int (Unix now)) of
        Inl err \<Rightarrow> ([sanitizedMessages], Inl (hook_error
          ''ORCHESTRATOR_HOOK_ERR: lineage seal failure -> '' err))
      | Inr mcr \<Rightarrow> ([sanitizedMessages], Inr
          \<lparr>hr_SanitizedPayload = sanitizedMessages, hr_InferenceBlock = inferenceBlock,
           hr_ConsequenceToken = mcr\<rparr>))))))"

text \<open>The deferred receive from the slot channel.\<close>

definition handoff_release :: "HandoffCoordinator \<Rightarrow> HandoffCoordinator" where
  "handoff_release c =
     (case chan_poll (hc_slots c) of None \<Rightarrow> c | Some (u, slots) \<Rightarrow> c\<lparr>hc_slots := slots\<rparr>)"

definition run_body ::
  "ed25519 \<Rightarrow> (LeafRecord list \<Rightarrow> LeafRecord list) \<Rightarrow> go_time \<Rightarrow> HandoffCoordinator \<Rightarrow> handoff_args
   \<Rightarrow> LLMMessage list list \<times> (go_error + HandoffResult)"
where
  "run_body ed sorter now c a =
     (case (hc_GatewayWrapper c, hc_Provider c) of
        (Some w, Some provider) \<Rightarrow> handoff_body ed sorter now c w provider a
      | _ \<Rightarrow> ([], Inl (ErrorString
          ''ORCHESTRATOR_HOOK_ERR: coordinator requires gateway wrapper and provider'')))"

definition ExecuteAgentHandoff ::
  "ed25519 \<Rightarrow> (LeafRecord list \<Rightarrow> LeafRecord list) \<Rightarrow> go_time \<Rightarrow> HandoffCoordinator option \<Rightarrow> handoff_args
   \<Rightarrow> HandoffCoordinator option \<times> LLMMessage list list \<times> (go_error + HandoffResult)"
where
  "ExecuteAgentHandoff ed sorter now co a =
     (case handoff_admit co a of
        Inl err \<Rightarrow> (co, [], Inl err)
      | Inr c \<Rightarrow> (Some (handoff_release c), run_body ed sorter now c a))"

section \<open>Concurrent handoffs\<close>

datatype handoff =
    HWaiting handoff_args
  | HRunning handoff_args
  | HFinished "LLMMessage list list" "go_error + HandoffResult"

record handoff_system =
  hs_coord :: HandoffCoordinator
  hs_handoffs :: "handoff list"

text \<open>
  Admission is one atomic step (the channel send); a refused handoff finishes at once without
  provider calls; a running handoff finishes with the result of its body and returns its slot.
\<close>

inductive handoff_step ::
  "ed25519 \<Rightarrow> (LeafRecord list \<Rightarrow> LeafRecord list) \<Rightarrow> handoff_system \<Rightarrow> handoff_system \<Rightarrow> bool"
  for ed sorter where
  admit: "i < length (hs_handoffs s) \<Longrightarrow> hs_handoffs s ! i = HWaiting a \<Longrightarrow>
     handoff_admit (Some (hs_coord s)) a = Inr c \<Longrightarrow>
     handoff_step ed sorter s \<lparr>hs_coord = c, hs_handoffs = (hs_handoffs s)[i := HRunning a]\<rparr>"
| refuse: "i < length (hs_handoffs s) \<Longrightarrow> hs_handoffs s ! i = HWaiting a \<Longrightarrow>
     handoff_admit (Some (hs_coord s)) a = Inl err \<Longrightarrow>
     handoff_step ed sorter s (s\<lparr>hs_handoffs := (hs_handoffs s)[i := HFinished [] (Inl err)]\<rparr>)"
| finish: "i < length (hs_handoffs s) \<Longrightarrow> hs_handoffs s ! i = HRunning a \<Longrightarrow>
     run_body ed sorter now (hs_coord s) a = (calls, result) \<Longrightarrow>
     handoff_step ed sorter s
       \<lparr>hs_coord = handoff_release (hs_coord s),
        hs_handoffs = (hs_handoffs s)[i := HFinished calls result]\<rparr>"

inductive_cases handoff_stepE: "handoff_step ed sorter s t"

text \<open>A fresh coordinator and the handoffs that will be started on it.\<close>

definition handoff_init ::
  "ClientWrapper option \<Rightarrow> LLMProviderAdapter option \<Rightarrow> string \<Rightarrow> byte list \<Rightarrow> int \<Rightarrow> handoff_args list
   \<Rightarrow> handoff_system \<Rightarrow> bool"
where
  "handoff_init wrapper provider keyID key n jobs s \<longleftrightarrow>
     s = \<lparr>hs_coord = NewHandoffCoordinator wrapper provider keyID key n,
          hs_handoffs = map HWaiting jobs\<rparr>"

fun is_running :: "handoff \<Rightarrow> bool" where
  "is_running (HRunning a) = True"
| "is_running _ = False"

definition running :: "handoff_system \<Rightarrow> nat" where
  "running s = length (filter is_running (hs_handoffs s))"

section \<open>Slots\<close>

definition slot_count :: "int \<Rightarrow> nat" where
  "slot_count n = nat (max 1 n)"

text \<open>
  A finished handoff was either refused without a provider call or ended as its body does; the body
  of a coordinator does not look at the slots.
\<close>

fun handoff_ok ::
  "ed25519 \<Rightarrow> (LeafRecord list \<Rightarrow> LeafRecord list) \<Rightarrow> HandoffCoordinator \<Rightarrow> handoff_args set \<Rightarrow> handoff \<Rightarrow> bool"
where
  "handoff_ok ed sorter c jobs (HWaiting a) \<longleftrightarrow> a \<in> jobs"
| "handoff_ok ed sorter c jobs (HRunning a) \<longleftrightarrow> a \<in> jobs"
| "handoff_ok ed sorter c jobs (HFinished calls result) \<longleftrightarrow>
     (calls = [] \<and> (\<exists>err. result = Inl err))
     \<or> (\<exists>a\<in>jobs. \<exists>now. run_body ed sorter now c a = (calls, result))"

definition handoff_inv ::
  "ed25519 \<Rightarrow> (LeafRecord list \<Rightarrow> LeafRecord list) \<Rightarrow> HandoffCoordinator \<Rightarrow> nat \<Rightarrow> handoff_args set
   \<Rightarrow> handoff_system \<Rightarrow> bool"
where
  "handoff_inv ed sorter c n jobs s \<longleftrightarrow>
     hs_coord s = c\<lparr>hc_slots := hc_slots (hs_coord s)\<rparr>
   \<and> ch_cap (hc_slots (hs_coord s)) = n \<and> \<not> ch_closed (hc_slots (hs_coord s))
   \<and> length (ch_buf (hc_slots (hs_coord s))) = running s
   \<and> chan.within (hc_slots (hs_coord s))
   \<and> (\<forall>h\<in>set (hs_handoffs s). handoff_ok ed sorter c jobs h)"

lemma coordinator_without_slots:
  "hc_GatewayWrapper (c\<lparr>hc_slots := sl\<rparr>) = hc_GatewayWrapper c"
  "hc_Provider (c\<lparr>hc_slots := sl\<rparr>) = hc_Provider c"
  "hc_SigningKey (c\<lparr>hc_slots := sl\<rparr>) = hc_SigningKey c"
  "hc_AuditKeyID (c\<lparr>hc_slots := sl\<rparr>) = hc_AuditKeyID c"
  "hc_ModelName (c\<lparr>hc_slots := sl\<rparr>) = hc_ModelName c"
  by simp_all

lemma handoff_body_slots [simp]:
  "handoff_body ed sorter now (c\<lparr>hc_slots := sl\<rparr>) w provider a = handoff_body ed sorter now c w provider a"
  unfolding handoff_body_def modelName_def coordinator_without_slots ..

lemma run_body_slots [simp]: "run_body ed sorter now (c\<lparr>hc_slots := sl\<rparr>) a = run_body ed sorter now c a"
  unfolding run_body_def handoff_body_slots coordinator_without_slots ..

lemma handoff_admit_Inr:
  assumes "handoff_admit (Some c) a = Inr c'"
  obtains slots where "chan_offer () (hc_slots c) = Some slots" and "c' = c\<lparr>hc_slots := slots\<rparr>"
  using assms by (auto simp: handoff_admit_def split: option.splits if_splits)

lemma running_update:
  assumes "i < length hs"
  shows "length (filter is_running (hs[i := h])) + (if is_running (hs ! i) then 1 else 0)
    = length (filter is_running hs) + (if is_running h then 1 else 0)"
  using assms
proof (induction hs arbitrary: i)
  case Nil
  then show ?case by simp
next
  case (Cons x hs)
  then show ?case by (cases i) auto
qed

lemma same_but_slots:
  "x = c\<lparr>hc_slots := hc_slots x\<rparr> \<Longrightarrow> x\<lparr>hc_slots := z\<rparr> = c\<lparr>hc_slots := z\<rparr>"
  by (cases x, cases c) simp

lemma handoff_step_inv:
  "handoff_step ed sorter s t \<Longrightarrow> handoff_inv ed sorter c n jobs s \<Longrightarrow> handoff_inv ed sorter c n jobs t"
proof (induction rule: handoff_step.induct)
  case (admit i s a c')
  from admit(3) obtain slots where sl: "chan_offer () (hc_slots (hs_coord s)) = Some slots"
      "c' = (hs_coord s)\<lparr>hc_slots := slots\<rparr>"
    by (rule handoff_admit_Inr)
  from admit(1,4) have "handoff_ok ed sorter c jobs (hs_handoffs s ! i)"
    by (simp add: handoff_inv_def)
  with admit sl chan.offer_Some [OF sl(1)] chan_offer_closed_frame [OF sl(1)]
    chan.within_offer [OF sl(1)] running_update [OF admit(1), of "HRunning a"]
  show ?case
    by (auto simp: handoff_inv_def running_def dest!: set_update_subset_insert [THEN subsetD]
        intro: same_but_slots)
next
  case (refuse i s a err)
  with running_update [OF refuse(1), of "HFinished [] (Inl err)"] show ?case
    by (auto simp: handoff_inv_def running_def dest!: set_update_subset_insert [THEN subsetD])
next
  case (finish i s a now calls result)
  from finish(4) have c: "hs_coord s = c\<lparr>hc_slots := hc_slots (hs_coord s)\<rparr>"
    by (simp add: handoff_inv_def)
  have body: "run_body ed sorter now c a = (calls, result)"
    using finish(3) run_body_slots [where sl = "hc_slots (hs_coord s)" and c = c] c by metis
  from finish(1,4) have job: "handoff_ok ed sorter c jobs (hs_handoffs s ! i)"
    by (simp add: handoff_inv_def)
  have "ch_buf (hc_slots (hs_coord s)) \<noteq> []"
    using finish(1,2,4) running_update [OF finish(1), of "HFinished calls result"]
    by (auto simp: handoff_inv_def running_def)
  then obtain slots where sl: "chan_poll (hc_slots (hs_coord s)) = Some ((), slots)"
    using chan.poll_None [where c = "hc_slots (hs_coord s)"] by (cases "chan_poll (hc_slots (hs_coord s))") auto
  then have "handoff_release (hs_coord s) = (hs_coord s)\<lparr>hc_slots := slots\<rparr>"
    by (simp add: handoff_release_def)
  with finish c body job chan.poll_Some [OF sl] chan_poll_closed_frame [OF sl]
    chan.within_poll [OF sl] running_update [OF finish(1), of "HFinished calls result"]
  show ?case
    by (auto simp: handoff_inv_def running_def dest!: set_update_subset_insert [THEN subsetD]
        intro: same_but_slots)
qed

lemma handoff_init_inv:
  "handoff_init wrapper provider keyID key n jobs s \<Longrightarrow>
     handoff_inv ed sorter (NewHandoffCoordinator wrapper provider keyID key n) (slot_count n) (set jobs) s"
  by (auto simp: handoff_init_def handoff_inv_def NewHandoffCoordinator_def make_chan_def running_def
      chan.within_def slot_count_def Let_def)

interpretation handoffs: invariant_system
    "handoff_init wrapper provider keyID key n jobs" "handoff_step ed sorter"
    "handoff_inv ed sorter (NewHandoffCoordinator wrapper provider keyID key n) (slot_count n) (set jobs)"
  by unfold_locales (rule handoff_init_inv, assumption, rule handoff_step_inv)

section \<open>Progress\<close>

fun handoff_weight :: "handoff \<Rightarrow> nat" where
  "handoff_weight (HWaiting a) = 2"
| "handoff_weight (HRunning a) = 1"
| "handoff_weight (HFinished calls result) = 0"

definition handoffs_left :: "handoff_system \<Rightarrow> nat" where
  "handoffs_left s = sum_list (map handoff_weight (hs_handoffs s))"

definition all_finished :: "handoff_system \<Rightarrow> bool" where
  "all_finished s \<longleftrightarrow>
     (\<forall>h\<in>set (hs_handoffs s). case h of HFinished calls result \<Rightarrow> True | _ \<Rightarrow> False)"

lemma all_finished_weight: "all_finished s \<longleftrightarrow> (\<forall>h\<in>set (hs_handoffs s). handoff_weight h = 0)"
  unfolding all_finished_def by (intro ball_cong refl) (simp split: handoff.split)

lemma all_finished_running: "all_finished s \<Longrightarrow> running s = 0"
proof -
  have "\<not> is_running h" if "case h of HFinished calls result \<Rightarrow> True | _ \<Rightarrow> False" for h
    using that by (cases h) simp_all
  then show "all_finished s \<Longrightarrow> running s = 0"
    by (auto simp: all_finished_def running_def filter_empty_conv)
qed

lemma handoff_step_decreases: "handoff_step ed sorter s t \<Longrightarrow> handoffs_left t < handoffs_left s"
proof (induction rule: handoff_step.induct)
  case (admit i s a c)
  with sum_list_map_update [OF admit(1), of handoff_weight "HRunning a"]
  show ?case by (simp add: handoffs_left_def)
next
  case (refuse i s a err)
  with sum_list_map_update [OF refuse(1), of handoff_weight "HFinished [] (Inl err)"]
  show ?case by (simp add: handoffs_left_def)
next
  case (finish i s a now calls result)
  with sum_list_map_update [OF finish(1), of handoff_weight "HFinished calls result"]
  show ?case by (simp add: handoffs_left_def)
qed

lemma handoff_progress:
  assumes "\<not> all_finished s"
  shows "\<exists>t. handoff_step ed sorter s t"
proof -
  obtain i where i: "i < length (hs_handoffs s)" "handoff_weight (hs_handoffs s ! i) \<noteq> 0"
    using assms by (auto simp: all_finished_weight in_set_conv_nth)
  show ?thesis
  proof (cases "hs_handoffs s ! i")
    case (HWaiting a)
    show ?thesis
      by (cases "handoff_admit (Some (hs_coord s)) a")
        (blast intro: handoff_step.refuse [OF i(1) HWaiting] handoff_step.admit [OF i(1) HWaiting])+
  next
    case (HRunning a)
    obtain calls result where "run_body ed sorter 0 (hs_coord s) a = (calls, result)" by fastforce
    from handoff_step.finish [OF i(1) HRunning this] show ?thesis ..
  qed (use i(2) in simp)
qed

interpretation handoffs_end: terminating_system
    "\<lambda>s. True" "handoff_step ed sorter" handoffs_left all_finished
  by unfold_locales (auto intro: handoff_step_decreases handoff_progress)

section \<open>The body\<close>

lemma handoff_body_InrE:
  assumes "handoff_body ed sorter now c w provider a = (calls, Inr r)"
  obtains ctx leaves response where
    "SanitizeContextWindow (Some w) ctx (ag_TenantHash (ha_target a)) (ag_DomainHash (ha_target a))
       (ha_mask a) (ha_rawScratchpad a) (ha_bindings a) = Inr (hr_SanitizedPayload r, leaves)"
    "calls = [hr_SanitizedPayload r]" "provider ctx (hr_SanitizedPayload r) = Inr response"
    "generateHandoffSessionMAP ed sorter (ha_mapID a) (ha_sessionID a)
       (ag_AgentID (ha_target a)) (ha_actorID a) (ha_taskID a) (ag_TenantHash (ha_target a))
       (cw_PolicyHash w) (fst (runtime_info w (length (ha_bindings a))))
       (snd (runtime_info w (length (ha_bindings a)))) leaves (hc_SigningKey c) (hc_AuditKeyID c) Hour
       now = Inr (ib_SessionMAP (hr_InferenceBlock r))"
    "CompileLineageRecord (ha_mcrID a) (ib_SessionMAP (hr_InferenceBlock r)) (ha_eepID a) (ha_aepID a)
       (word_of_int (Unix now)) = Inr (hr_ConsequenceToken r)"
proof -
  let ?ctx = "\<lambda>k. handoff_ctx a (k + 2)"
  let ?san = "SanitizeContextWindow (Some w) ?ctx (ag_TenantHash (ha_target a))
    (ag_DomainHash (ha_target a)) (ha_mask a) (ha_rawScratchpad a) (ha_bindings a)"
  note run = assms [unfolded handoff_body_def Let_def]
  from run obtain sanitized leaves where san: "?san = Inr (sanitized, leaves)"
    by (cases ?san) (auto split: option.splits)
  from run san obtain response where prov: "provider ?ctx sanitized = Inr response"
    by (cases "provider ?ctx sanitized") (auto split: option.splits)
  let ?gen = "generateHandoffSessionMAP ed sorter (ha_mapID a) (ha_sessionID a)
     (ag_AgentID (ha_target a)) (ha_actorID a) (ha_taskID a) (ag_TenantHash (ha_target a))
     (cw_PolicyHash w) (fst (runtime_info w (length (ha_bindings a))))
     (snd (runtime_info w (length (ha_bindings a)))) leaves (hc_SigningKey c) (hc_AuditKeyID c) Hour now"
  from run san prov obtain smap where gen: "?gen = Inr smap"
    by (cases ?gen) (auto split: option.splits)
  from run san prov gen have "ib_SessionMAP (hr_InferenceBlock r) = smap"
      "hr_SanitizedPayload r = sanitized" "calls = [sanitized]"
      "CompileLineageRecord (ha_mcrID a) smap (ha_eepID a) (ha_aepID a) (word_of_int (Unix now))
        = Inr (hr_ConsequenceToken r)"
    by (auto split: option.splits sum.splits)
  with san prov gen show thesis by (intro that) simp_all
qed

text \<open>Whatever happens, the provider sees the sanitized window or nothing.\<close>

lemma handoff_body_calls:
  "fst (handoff_body ed sorter now c w provider a) = []
   \<or> (\<exists>ctx sanitized leaves. SanitizeContextWindow (Some w) ctx (ag_TenantHash (ha_target a))
        (ag_DomainHash (ha_target a)) (ha_mask a) (ha_rawScratchpad a) (ha_bindings a)
        = Inr (sanitized, leaves)
      \<and> fst (handoff_body ed sorter now c w provider a) = [sanitized])"
  by (auto simp: handoff_body_def Let_def split: option.splits sum.splits)

text \<open>The raw scratchpad is read by the sanitizer only.\<close>

lemma handoff_same_window:
  assumes "hc_GatewayWrapper c = Some w"
    and "SanitizeContextWindow (Some w) (\<lambda>k. handoff_ctx a (k + 2)) (ag_TenantHash (ha_target a))
        (ag_DomainHash (ha_target a)) (ha_mask a) raw (ha_bindings a)
      = SanitizeContextWindow (Some w) (\<lambda>k. handoff_ctx a (k + 2)) (ag_TenantHash (ha_target a))
        (ag_DomainHash (ha_target a)) (ha_mask a) (ha_rawScratchpad a) (ha_bindings a)"
  shows "snd (ExecuteAgentHandoff ed sorter now (Some c) (a\<lparr>ha_rawScratchpad := raw\<rparr>))
    = snd (ExecuteAgentHandoff ed sorter now (Some c) a)"
proof -
  let ?a = "a\<lparr>ha_rawScratchpad := raw\<rparr>"
  have sel: "handoff_ctx ?a = handoff_ctx a" "ha_mcrID ?a = ha_mcrID a" "ha_mapID ?a = ha_mapID a"
      "ha_sessionID ?a = ha_sessionID a" "ha_taskID ?a = ha_taskID a" "ha_actorID ?a = ha_actorID a"
      "ha_target ?a = ha_target a" "ha_mask ?a = ha_mask a" "ha_bindings ?a = ha_bindings a"
      "ha_eepID ?a = ha_eepID a" "ha_aepID ?a = ha_aepID a" "ha_rawScratchpad ?a = raw"
    by (simp_all add: handoff_ctx_def)
  have "run_body ed sorter now c' ?a = run_body ed sorter now c' a"
    if "hc_GatewayWrapper c' = Some w" for c'
    unfolding run_body_def handoff_body_def Let_def sel that prod.case option.case assms(2) ..
  moreover have "handoff_admit (Some c) ?a = handoff_admit (Some c) a"
    by (simp add: handoff_admit_def handoff_ctx_def)
  ultimately show ?thesis
    using assms(1)
    by (auto simp: ExecuteAgentHandoff_def elim!: handoff_admit_Inr split: sum.split)
qed

section \<open>Properties\<close>

text \<open>
  C13: the coordinator never runs more handoffs than it has slots. In every state that concurrent
  handoffs can reach, the slots taken are exactly the running handoffs, at most the configured number
  (one, if the configured number is not positive); so every return gives its slot back, and when
  nothing runs all slots are free.
\<close>

theorem handoffs_within_capacity:
  assumes "reach (handoff_init wrapper provider keyID key n jobs) (handoff_step ed sorter) s"
  shows "length (ch_buf (hc_slots (hs_coord s))) = running s \<and> running s \<le> nat (max 1 n)"
  using handoffs.reach_I [OF assms] by (simp add: handoff_inv_def chan.within_def slot_count_def)

lemma handoff_admit_when_free:
  assumes "reach (handoff_init (Some w) (Some provider) keyID key n jobs) (handoff_step ed sorter) s"
    and "length key = PrivateKeySize" and "handoff_ctx a 0 = None"
  shows "handoff_admit (Some (hs_coord s)) a
      = (if running s = nat (max 1 n) then Inl (ErrorString BackpressureError)
         else Inr ((hs_coord s)\<lparr>hc_slots := (hc_slots (hs_coord s))
           \<lparr>ch_buf := ch_buf (hc_slots (hs_coord s)) @ [()]\<rparr>\<rparr>))"
proof -
  from handoffs.reach_I [OF assms(1)] have inv:
      "hs_coord s = (NewHandoffCoordinator (Some w) (Some provider) keyID key n)
         \<lparr>hc_slots := hc_slots (hs_coord s)\<rparr>"
      "ch_cap (hc_slots (hs_coord s)) = nat (max 1 n)" "\<not> ch_closed (hc_slots (hs_coord s))"
      "length (ch_buf (hc_slots (hs_coord s))) = running s" "running s \<le> nat (max 1 n)"
    by (simp_all add: handoff_inv_def chan.within_def slot_count_def)
  have "hc_GatewayWrapper (hs_coord s) = Some w" "hc_Provider (hs_coord s) = Some provider"
      "hc_SigningKey (hs_coord s) = key"
    by (subst inv(1), simp add: NewHandoffCoordinator_def Let_def)+
  with inv(2-5) assms(2,3) show ?thesis
    by (auto simp: handoff_admit_def chan_offer_def chan_try_send_def)
qed


text \<open>
  Backpressure is exact. In every reachable state a well-formed handoff (live context, wrapper,
  provider and key present) is refused with the backpressure error if and only if all slots are
  taken, and otherwise admitted; a refusal changes nothing.
\<close>

theorem refused_iff_saturated:
  assumes "reach (handoff_init (Some w) (Some provider) keyID key n jobs) (handoff_step ed sorter) s"
    and "length key = PrivateKeySize" and "handoff_ctx a 0 = None"
  shows "handoff_admit (Some (hs_coord s)) a
      = (if running s = nat (max 1 n) then Inl (ErrorString BackpressureError)
         else Inr ((hs_coord s)\<lparr>hc_slots := (hc_slots (hs_coord s))
           \<lparr>ch_buf := ch_buf (hc_slots (hs_coord s)) @ [()]\<rparr>\<rparr>))"
  using assms by (rule handoff_admit_when_free)

text \<open>
  C23: every handoff comes to an end and gives its slot back. From every reachable state a run takes at
  most two steps for each handoff; wherever it has got to, it can go on until all handoffs have finished
  (no deadlock on the slots); and when no handoff can go on, all of them have finished, no slot is
  taken, and the next well-formed handoff is admitted into the empty channel. (The provider is taken to
  return.)
\<close>

theorem handoffs_finish:
  assumes "reach (handoff_init (Some w) (Some provider) keyID key n jobs) (handoff_step ed sorter) s"
    and "(handoff_step ed sorter ^^ k) s u"
  shows "k \<le> 2 * length (hs_handoffs s)
    \<and> (\<exists>t. (handoff_step ed sorter)\<^sup>*\<^sup>* u t \<and> all_finished t)
    \<and> ((\<nexists>t. handoff_step ed sorter u t) \<longrightarrow>
         all_finished u \<and> ch_buf (hc_slots (hs_coord u)) = []
       \<and> (length key = PrivateKeySize \<longrightarrow> handoff_ctx a 0 = None \<longrightarrow>
            handoff_admit (Some (hs_coord u)) a
              = Inr ((hs_coord u)\<lparr>hc_slots := (hc_slots (hs_coord u))\<lparr>ch_buf := [()]\<rparr>\<rparr>)))"
proof (intro conjI impI)
  have "(handoff_step ed sorter)\<^sup>*\<^sup>* s u"
    using assms(2) by (rule relpowp_imp_rtranclp)
  then have u: "reach (handoff_init (Some w) (Some provider) keyID key n jobs) (handoff_step ed sorter) u"
    using assms(1) by (rule reach_run)
  have "handoff_weight h \<le> 2" for h by (cases h) auto
  from sum_list_map_bound [of handoff_weight, OF this, of "hs_handoffs s"] show "k \<le> 2 * length (hs_handoffs s)"
    using handoffs_end.run_bound [OF assms(2)] by (simp add: handoffs_left_def)
  show "\<exists>t. (handoff_step ed sorter)\<^sup>*\<^sup>* u t \<and> all_finished t"
    by (rule handoffs_end.reaches_finished) simp
  assume stuck: "\<nexists>t. handoff_step ed sorter u t"
  then show "all_finished u"
    using handoff_progress [of u ed sorter] by blast
  then have idle: "running u = 0" by (rule all_finished_running)
  with handoffs.reach_I [OF u] show free: "ch_buf (hc_slots (hs_coord u)) = []"
    by (simp add: handoff_inv_def)
  assume "length key = PrivateKeySize" and "handoff_ctx a 0 = None"
  with handoff_admit_when_free [OF u] idle free
  show "handoff_admit (Some (hs_coord u)) a
      = Inr ((hs_coord u)\<lparr>hc_slots := (hc_slots (hs_coord u))\<lparr>ch_buf := [()]\<rparr>\<rparr>)"
    by simp
qed

text \<open>
  C12: no sub-agent sees raw context. In every reachable state, every provider call that a finished
  handoff has made carried a window that the sanitizer returned for one of the submitted handoffs
  under the target's tenant and domain, and no handoff has made more than one call.
\<close>

theorem providers_see_sanitized_windows:
  assumes "reach (handoff_init (Some w) (Some provider) keyID key n jobs) (handoff_step ed sorter) s"
    and "HFinished calls result \<in> set (hs_handoffs s)"
  shows "calls = [] \<or> (\<exists>a\<in>set jobs. \<exists>ctx sanitized leaves. calls = [sanitized]
    \<and> SanitizeContextWindow (Some w) ctx (ag_TenantHash (ha_target a)) (ag_DomainHash (ha_target a))
        (ha_mask a) (ha_rawScratchpad a) (ha_bindings a) = Inr (sanitized, leaves))"
proof (cases "calls = []")
  case False
  let ?c = "NewHandoffCoordinator (Some w) (Some provider) keyID key n"
  from handoffs.reach_I [OF assms(1)] assms(2)
  have "handoff_ok ed sorter ?c (set jobs) (HFinished calls result)"
    unfolding handoff_inv_def by blast
  with False obtain a now where a: "a \<in> set jobs" "run_body ed sorter now ?c a = (calls, result)"
    by auto
  moreover have "run_body ed sorter now ?c a = handoff_body ed sorter now ?c w provider a"
    by (simp add: run_body_def NewHandoffCoordinator_def Let_def)
  ultimately show ?thesis
    using handoff_body_calls [of ed sorter now ?c w provider a] by auto
qed simp

text \<open>
  C11: a successful handoff is sealed end to end. Exactly one provider call was made, with the returned
  payload, which is the sanitized scratchpad; the manifest in the inference block carries its leaves
  and replays under the public key of the coordinator's signing key; the consequence token verifies
  against this manifest; and the coordinator is unchanged, its slot returned.
\<close>

theorem successful_handoff_is_sealed:
  assumes "ed25519_correct ed" and "hc_GatewayWrapper c = Some w" and "hc_slots c = make_chan k"
    and "ExecuteAgentHandoff ed sorter now (Some c) a = (co', calls, Inr r)"
  shows "co' = Some c \<and> calls = [hr_SanitizedPayload r]
    \<and> (\<exists>ctx leaves. SanitizeContextWindow (Some w) ctx (ag_TenantHash (ha_target a))
          (ag_DomainHash (ha_target a)) (ha_mask a) (ha_rawScratchpad a) (ha_bindings a)
          = Inr (hr_SanitizedPayload r, leaves)
        \<and> sm_LeafRecords (ib_SessionMAP (hr_InferenceBlock r)) = leaves)
    \<and> VerifySessionMAP ed sorter (ed_Public ed (hc_SigningKey c)) (ib_SessionMAP (hr_InferenceBlock r))
        = Inr \<lparr>SignatureValid = True, MerkleRootValid = True, ReplayMatch = True\<rparr>
    \<and> VerifyLineageRecord (hr_ConsequenceToken r) (ib_SessionMAP (hr_InferenceBlock r))"
proof -
  from assms(4) obtain c' where admit: "handoff_admit (Some c) a = Inr c'"
    and co': "co' = Some (handoff_release c')" and body: "run_body ed sorter now c' a = (calls, Inr r)"
    by (auto simp: ExecuteAgentHandoff_def split: sum.splits)
  from admit obtain slots where sl: "chan_offer () (hc_slots c) = Some slots"
      "c' = c\<lparr>hc_slots := slots\<rparr>" by (rule handoff_admit_Inr)
  then have "handoff_release c' = c"
    using assms(3)
    by (auto simp: handoff_release_def chan_poll_def chan_recv_def chan_offer_def chan_try_send_def
        make_chan_def split: if_splits)
  moreover from body assms(2) sl(2) obtain provider where
      "handoff_body ed sorter now c w provider a = (calls, Inr r)"
    by (auto simp: run_body_def split: option.splits)
  then show ?thesis
  proof (rule handoff_body_InrE, goal_cases)
    case (1 ctx leaves response)
    note gen = 1(4) [unfolded generateHandoffSessionMAP_def]
    note fields = Generate_fields [OF gen]
    have "VerifySessionMAP ed sorter (ed_Public ed (hc_SigningKey c))
        (ib_SessionMAP (hr_InferenceBlock r))
        = Inr \<lparr>SignatureValid = True, MerkleRootValid = True, ReplayMatch = True\<rparr>"
      by (rule VerifySessionMAP_generated [OF assms(1) gen])
    with 1 fields(4) calculation co' CompileLineageRecord_fields(3) [OF 1(5)] show ?case by blast
  qed
qed

text \<open>
  A handoff that cannot be sealed has already run. With an empty tracker identifier the lineage
  record is refused, but only after the sub-agent has been called with the window: an error is
  returned and the consequence has no record.
\<close>

theorem unsealed_consequence:
  assumes "hc_GatewayWrapper c = Some w" and "hc_Provider c = Some provider"
    and "cw_Profiles w = Some G" and "length (hc_SigningKey c) = PrivateKeySize"
    and "hc_slots c = make_chan (Suc k)" and "ha_ctx a = None"
    and "\<And>ctx ms. provider ctx ms = Inr response"
    and "ha_eepID a = []"
  shows "\<exists>co' calls err. ExecuteAgentHandoff ed sorter now (Some c) a = (co', [calls], Inl err)"
proof -
  have "handoff_ctx a = context_Background" using assms(6) by (simp add: handoff_ctx_def)
  then show ?thesis
    using assms
    by (auto simp: ExecuteAgentHandoff_def handoff_admit_def chan_offer_def chan_try_send_def
        make_chan_def context_Background_def run_body_def handoff_body_def Let_def
        SanitizeContextWindow_def CompileLineageRecord_def case_prod_beta split: sum.split)
qed

text \<open>
  End-to-end noninterference. When the sanitizer refuses a binding of a scratchpad message, the
  raw text of this message influences nothing that leaves the handoff: with any other text in its
  place the provider call, the manifest, the consequence token or the error are the same.
\<close>

theorem handoff_hides_refused_content:
  assumes "hc_GatewayWrapper c = Some w"
    and "SanitizeContextWindow (Some w) (\<lambda>k. handoff_ctx a (k + 2)) (ag_TenantHash (ha_target a))
      (ag_DomainHash (ha_target a)) (ha_mask a) (ha_rawScratchpad a) (ha_bindings a)
      = Inr (sanitized, leaves)"
    and "k < length (ha_bindings a)" and "mb_MessageIdx (ha_bindings a ! k) = int i"
    and "i < length (ha_rawScratchpad a)" and "\<not> lr_Injected (leaves ! k)"
  shows "snd (ExecuteAgentHandoff ed sorter now (Some c)
      (a\<lparr>ha_rawScratchpad := set_content (ha_rawScratchpad a) i other\<rparr>))
    = snd (ExecuteAgentHandoff ed sorter now (Some c) a)"
proof -
  obtain G where G: "cw_Profiles w = Some G" "handoff_ctx a (Suc (Suc 0)) = None"
    and loop: "sanitize_loop w G (ag_TenantHash (ha_target a)) (ag_DomainHash (ha_target a))
      (ha_mask a) 0 (ha_bindings a) (ha_rawScratchpad a) [] = (sanitized, leaves)"
    using assms(2) by (rule SanitizeContextWindow_InrE) auto
  show ?thesis
    using sanitize_loop_set_content [OF assms(5,3,4), of w G _ _ _ 0] loop G assms(6)
    by (intro handoff_same_window [OF assms(1)]) (simp add: SanitizeContextWindow_def)
qed

section \<open>Concrete instances\<close>

definition demo_args :: "byte \<Rightarrow> string \<Rightarrow> handoff_args" where
  "demo_args b eep = \<lparr>ha_ctx = None, ha_mcrID = copy_bytes [1], ha_mapID = copy_bytes [2],
     ha_sessionID = ''s'', ha_taskID = ''t'', ha_actorID = ''c'',
     ha_target = \<lparr>ag_AgentID = ''sub'', ag_TenantHash = copy_bytes [1], ag_DomainHash = copy_bytes [2]\<rparr>,
     ha_mask = demo_mask, ha_rawScratchpad = demo_messages, ha_bindings = [demo_binding b],
     ha_eepID = eep, ha_aepID = ''aep''\<rparr>"

definition demo_provider :: LLMProviderAdapter where
  "demo_provider = (\<lambda>ctx ms. Inr demo_response)"

definition demo_coordinator :: HandoffCoordinator where
  "demo_coordinator = NewHandoffCoordinator (Some (demo_wrapper None)) (Some demo_provider) ''k'' demo_key 1"

lemma demo_coordinator_fields [simp]:
  "hc_GatewayWrapper demo_coordinator = Some (demo_wrapper None)"
  "hc_Provider demo_coordinator = Some demo_provider" "hc_SigningKey demo_coordinator = demo_key"
  "hc_slots demo_coordinator = make_chan 1" "handoff_ctx (demo_args b eep) k = None"
  by (simp_all add: demo_coordinator_def NewHandoffCoordinator_def handoff_ctx_def demo_args_def
      context_Background_def)

lemma demo_body:
  "\<exists>sanitized r. run_body ed sorter now demo_coordinator (demo_args b ''eep'') = ([sanitized], Inr r)"
  unfolding run_body_def handoff_body_def Let_def
  by (simp add: SanitizeContextWindow_def case_prod_beta demo_provider_def CompileLineageRecord_def
      generateHandoffSessionMAP_def GenerateSessionMAPWithRuntimeSnapshot_def Let_def Hour_def
      Second_def demo_wrapper_def demo_args_def handoff_ctx_def context_Background_def)

lemma demo_handoff:
  "\<exists>co calls r. ExecuteAgentHandoff ed sorter 0 (Some demo_coordinator) (demo_args b ''eep'') = (co, calls, Inr r)"
proof -
  have "handoff_admit (Some demo_coordinator) (demo_args b ''eep'')
      = Inr (demo_coordinator\<lparr>hc_slots := (make_chan 1)\<lparr>ch_buf := [()]\<rparr>\<rparr>)"
    by (simp add: handoff_admit_def chan_offer_def chan_try_send_def make_chan_def)
  with demo_body [of ed sorter 0 b] show ?thesis
    by (auto simp: ExecuteAgentHandoff_def)
qed

abbreviation demo_start :: "handoff_args \<Rightarrow> handoff_system" where
  "demo_start a \<equiv> \<lparr>hs_coord = demo_coordinator, hs_handoffs = [HWaiting a]\<rparr>"

abbreviation demo_reach :: "handoff_args \<Rightarrow> handoff_system \<Rightarrow> bool" where
  "demo_reach a \<equiv> reach (handoff_init (Some (demo_wrapper None)) (Some demo_provider) ''k'' demo_key 1 [a])
     (handoff_step mac_scheme (sort_key lr_MemoryID))"

lemma demo_start_reach: "demo_reach a (demo_start a)"
  by (rule reach_init) (simp add: handoff_init_def demo_coordinator_def)

theorem refused_iff_saturated_witness:
  "\<exists>c. handoff_admit (Some demo_coordinator) (demo_args 9 ''eep'') = Inr c"
  using refused_iff_saturated [OF demo_start_reach, of "demo_args 9 ''eep''" "demo_args 9 ''eep''"]
  by (simp add: running_def)

lemma demo_handoff_steps:
  "\<exists>c sanitized r.
     handoff_step mac_scheme (sort_key lr_MemoryID) (demo_start (demo_args 9 ''eep''))
       \<lparr>hs_coord = c, hs_handoffs = [HRunning (demo_args 9 ''eep'')]\<rparr>
   \<and> handoff_step mac_scheme (sort_key lr_MemoryID) \<lparr>hs_coord = c, hs_handoffs = [HRunning (demo_args 9 ''eep'')]\<rparr>
       \<lparr>hs_coord = handoff_release c, hs_handoffs = [HFinished [sanitized] (Inr r)]\<rparr>"
proof -
  let ?a = "demo_args 9 ''eep''" and ?c = "demo_coordinator\<lparr>hc_slots := (make_chan 1)\<lparr>ch_buf := [()]\<rparr>\<rparr>"
  let ?s = "\<lparr>hs_coord = ?c, hs_handoffs = [HRunning ?a]\<rparr>"
  have "handoff_admit (Some demo_coordinator) ?a = Inr ?c"
    by (simp add: handoff_admit_def chan_offer_def chan_try_send_def make_chan_def)
  then have "handoff_step mac_scheme (sort_key lr_MemoryID) (demo_start ?a) ?s"
    using handoff_step.admit [where i = 0 and s = "demo_start ?a"] by simp
  moreover obtain sanitized r where
      "run_body mac_scheme (sort_key lr_MemoryID) 0 ?c ?a = ([sanitized], Inr r)"
    using demo_body [of mac_scheme "sort_key lr_MemoryID" 0 9] by auto
  then have "handoff_step mac_scheme (sort_key lr_MemoryID) ?s
      \<lparr>hs_coord = handoff_release ?c, hs_handoffs = [HFinished [sanitized] (Inr r)]\<rparr>"
    using handoff_step.finish [where i = 0 and s = ?s] by simp
  ultimately show ?thesis by blast
qed

theorem handoffs_within_capacity_witness:
  "\<exists>s. demo_reach (demo_args 9 ''eep'') s \<and> hs_handoffs s = [HRunning (demo_args 9 ''eep'')]
     \<and> length (ch_buf (hc_slots (hs_coord s))) = 1"
proof -
  obtain c where "handoff_step mac_scheme (sort_key lr_MemoryID) (demo_start (demo_args 9 ''eep''))
      \<lparr>hs_coord = c, hs_handoffs = [HRunning (demo_args 9 ''eep'')]\<rparr>"
    using demo_handoff_steps by blast
  then have s: "demo_reach (demo_args 9 ''eep'') \<lparr>hs_coord = c, hs_handoffs = [HRunning (demo_args 9 ''eep'')]\<rparr>"
    by (rule reach_step [OF demo_start_reach])
  from handoffs_within_capacity [OF s] show ?thesis
    by (intro exI conjI) (rule s, simp_all add: running_def)
qed

lemma demo_finished:
  "\<exists>s calls r. demo_reach (demo_args 9 ''eep'') s \<and> HFinished [calls] (Inr r) \<in> set (hs_handoffs s)"
proof -
  obtain c sanitized r where run:
      "handoff_step mac_scheme (sort_key lr_MemoryID) (demo_start (demo_args 9 ''eep''))
         \<lparr>hs_coord = c, hs_handoffs = [HRunning (demo_args 9 ''eep'')]\<rparr>"
      "handoff_step mac_scheme (sort_key lr_MemoryID) \<lparr>hs_coord = c, hs_handoffs = [HRunning (demo_args 9 ''eep'')]\<rparr>
         \<lparr>hs_coord = handoff_release c, hs_handoffs = [HFinished [sanitized] (Inr r)]\<rparr>"
    using demo_handoff_steps by blast
  let ?t = "\<lparr>hs_coord = handoff_release c, hs_handoffs = [HFinished [sanitized] (Inr r)]\<rparr>"
  from run(1) have "demo_reach (demo_args 9 ''eep'') \<lparr>hs_coord = c, hs_handoffs = [HRunning (demo_args 9 ''eep'')]\<rparr>"
    by (rule reach_step [OF demo_start_reach])
  then have "demo_reach (demo_args 9 ''eep'') ?t" using run(2) by (rule reach_step)
  moreover have "HFinished [sanitized] (Inr r) \<in> set (hs_handoffs ?t)" by simp
  ultimately show ?thesis by blast
qed

text \<open>Two more steps from the start: the handoff has run, and its slot is free again.\<close>

theorem handoffs_finish_witness:
  "\<exists>u. (handoff_step mac_scheme (sort_key lr_MemoryID) ^^ 2) (demo_start (demo_args 9 ''eep'')) u
     \<and> (\<nexists>t. handoff_step mac_scheme (sort_key lr_MemoryID) u t)
     \<and> all_finished u \<and> ch_buf (hc_slots (hs_coord u)) = []"
proof -
  let ?a = "demo_args 9 ''eep''"
  obtain c sanitized r where run:
      "handoff_step mac_scheme (sort_key lr_MemoryID) (demo_start ?a) \<lparr>hs_coord = c, hs_handoffs = [HRunning ?a]\<rparr>"
      "handoff_step mac_scheme (sort_key lr_MemoryID) \<lparr>hs_coord = c, hs_handoffs = [HRunning ?a]\<rparr>
         \<lparr>hs_coord = handoff_release c, hs_handoffs = [HFinished [sanitized] (Inr r)]\<rparr>"
    using demo_handoff_steps by blast
  let ?u = "\<lparr>hs_coord = handoff_release c, hs_handoffs = [HFinished [sanitized] (Inr r)]\<rparr>"
  from run have two: "(handoff_step mac_scheme (sort_key lr_MemoryID) ^^ 2) (demo_start ?a) ?u"
    unfolding numeral_2_eq_2 relpowp.simps by (blast intro: relcomppI)
  have "\<not> handoff_step mac_scheme (sort_key lr_MemoryID) ?u t" for t
  proof
    assume "handoff_step mac_scheme (sort_key lr_MemoryID) ?u t"
    then have "handoffs_left t < handoffs_left ?u" by (rule handoff_step_decreases)
    then show False by (simp add: handoffs_left_def)
  qed
  with handoffs_finish [OF demo_start_reach two] two show ?thesis by blast
qed

theorem providers_see_sanitized_windows_witness:
  "\<exists>ctx sanitized leaves. SanitizeContextWindow (Some (demo_wrapper None)) ctx (copy_bytes [1])
     (copy_bytes [2]) demo_mask demo_messages [demo_binding 9] = Inr (sanitized, leaves)"
proof -
  obtain s calls r where fin: "demo_reach (demo_args 9 ''eep'') s"
      "HFinished [calls] (Inr r) \<in> set (hs_handoffs s)"
    using demo_finished by blast
  from providers_see_sanitized_windows [OF fin] show ?thesis
    by (auto simp: demo_args_def)
qed

theorem successful_handoff_is_sealed_witness:
  "\<exists>co r. ExecuteAgentHandoff mac_scheme (sort_key lr_MemoryID) 0 (Some demo_coordinator)
       (demo_args 9 ''eep'') = (co, [hr_SanitizedPayload r], Inr r)
     \<and> VerifyLineageRecord (hr_ConsequenceToken r) (ib_SessionMAP (hr_InferenceBlock r))"
proof -
  obtain co calls r where run: "ExecuteAgentHandoff mac_scheme (sort_key lr_MemoryID) 0
      (Some demo_coordinator) (demo_args 9 ''eep'') = (co, calls, Inr r)"
    using demo_handoff by blast
  from successful_handoff_is_sealed [OF mac_scheme_correct demo_coordinator_fields(1,4) run] run
  show ?thesis by auto
qed

theorem unsealed_consequence_witness:
  "\<exists>co calls err. ExecuteAgentHandoff mac_scheme (sort_key lr_MemoryID) 0 (Some demo_coordinator)
     (demo_args 9 '''') = (co, [calls], Inl err)"
proof -
  obtain G where "cw_Profiles (demo_wrapper None) = Some G" by (simp add: demo_wrapper_def)
  then show ?thesis
    using unsealed_consequence [OF demo_coordinator_fields(1,2), where k = 0 and response = demo_response]
    by (simp add: demo_provider_def demo_args_def)
qed

theorem handoff_hides_refused_content_witness:
  "snd (ExecuteAgentHandoff mac_scheme (sort_key lr_MemoryID) 0 (Some demo_coordinator)
      ((demo_args 8 ''eep'')\<lparr>ha_rawScratchpad := set_content demo_messages 1 ''other''\<rparr>))
    = snd (ExecuteAgentHandoff mac_scheme (sort_key lr_MemoryID) 0 (Some demo_coordinator)
      (demo_args 8 ''eep''))"
proof -
  obtain sanitized leaves where run: "demo_sanitize demo_messages 8 = Inr (sanitized, leaves)"
    using demo_sanitize_runs by blast
  have ctx: "(\<lambda>k. handoff_ctx (demo_args 8 ''eep'') (k + 2)) = context_Background"
    by (simp add: fun_eq_iff context_Background_def)
  note args = demo_args_def [of 8 "''eep''"]
  show ?thesis
    using handoff_hides_refused_content [of demo_coordinator "demo_wrapper None" "demo_args 8 ''eep''"
        sanitized leaves 0 1 mac_scheme "sort_key lr_MemoryID" 0 "''other''"]
      run demo_leaf_refused [OF run]
    unfolding ctx by (simp add: args demo_binding_def demo_messages_def)
qed

end
