(* ===== verification/Node.thy ===== *)
theory Node
  imports Rpc Axis_Worker Orchestrator Monitor_Race
begin

text \<open>
  A node as \<^verbatim>\<open>docs/architecture\<close> puts it together: the registration handler
  (\<^verbatim>\<open>pkg/rpc/server.go\<close>) and the drift workers (\<^verbatim>\<open>pkg/axis/worker.go\<close>) share one
  ledger file and one runtime monitor, and any number of calls of the two are in flight at once. Neither
  holds a lock across its accesses to the shared state, so a step of a node is one access of one call:
  an append to the file (one step, because \<^verbatim>\<open>FileLedger\<close> has a mutex, and it may fail
  half way), an append to the monitor's ledger, the reading of that ledger, the loading of the version,
  the storing of the snapshot. The lemmas show that a call that runs alone does what
  \<open>RegisterRevocationEvent\<close> and \<open>processJob\<close> do, what every interleaving keeps, and
  from when on an event stays in force. Two ghost fields say which events the file has taken and
  whether an append that failed has left bytes in it.
\<close>

section \<open>Calls in flight\<close>

text \<open>A call with its random source, its clock readings and its arguments.\<close>

datatype call =
    RegisterCall "go_error + byte list" go_time go_time "go_error option" "RevocationRequest option"
  | DriftCall "go_error + byte list" go_time go_time MemoryTransformationJob InvariantDimensions flt

text \<open>
  What a call does before its first access to the shared state: it returns (\<open>None\<close>), or it has
  an event to record, which it will enforce at the given time.
\<close>

definition register_event ::
  "go_error + byte list \<Rightarrow> go_time \<Rightarrow> go_error option \<Rightarrow> RevocationRequest option \<Rightarrow> RevocationEvent option"
where
  "register_event rand t0 ctxErr ro =
     (case ctxErr of
        Some err \<Rightarrow> None
      | None \<Rightarrow>
     (case ro of
        None \<Rightarrow> None
      | Some req \<Rightarrow>
          if length (rvq_MemoryId req) \<noteq> 16 then None
          else (case newEventID rand of
                  Inl err \<Rightarrow> None
                | Inr eventID \<Rightarrow> Some (revocation_event req eventID t0))))"

definition drift_event ::
  "go_error + byte list \<Rightarrow> go_time \<Rightarrow> MemoryTransformationJob \<Rightarrow> InvariantDimensions \<Rightarrow> flt
   \<Rightarrow> RevocationEvent option"
where
  "drift_event rand t0 job dimensions threshold =
     (let res = EvaluateDrift (job_AnchorVector job) (job_MutatedVector job) dimensions threshold in
      if ax_AxisPreserved res then None
      else (case eventForDrift rand t0 job res of Inl err \<Rightarrow> None | Inr event \<Rightarrow> Some event))"

fun call_event :: "call \<Rightarrow> (RevocationEvent \<times> go_time) option" where
  "call_event (RegisterCall rand t0 t1 ctxErr ro) = map_option (\<lambda>e. (e, t1)) (register_event rand t0 ctxErr ro)"
| "call_event (DriftCall rand t0 t1 job dimensions threshold) =
     map_option (\<lambda>e. (e, t1)) (drift_event rand t0 job dimensions threshold)"

text \<open>
  Where a call stands: called, before \<^verbatim>\<open>Ledger.AppendEvent\<close>, on its way through
  \<^verbatim>\<open>Monitor.AppendEvent\<close> and \<^verbatim>\<open>CompileAndSwap\<close>, or returned, without
  having recorded anything or with the event that it has recorded and enforced.
\<close>

datatype handler =
    HCalled call
  | HRecord RevocationEvent go_time
  | HEnforce RevocationEvent writer
  | HReturned "RevocationEvent option"

text \<open>One access.\<close>

fun handler_access ::
  "json_codec \<Rightarrow> handler \<times> FileLedger \<times> RuntimeMonitor \<Rightarrow> handler \<times> FileLedger \<times> RuntimeMonitor"
where
  "handler_access js (HCalled c, l, m) =
     (case call_event c of
        None \<Rightarrow> (HReturned None, l, m)
      | Some (event, t) \<Rightarrow> (HRecord event t, l, m))"
| "handler_access js (HRecord event t, l, m) =
     (case ledger_AppendEvent js l event of
        (l', Some err) \<Rightarrow> (HReturned None, l', m)
      | (l', None) \<Rightarrow> (HEnforce event (WStart event t), l', m))"
| "handler_access js (HEnforce event w, l, m) =
     (case w of
        WDone \<Rightarrow> (HReturned (Some event), l, m)
      | _ \<Rightarrow> (case writer_step w m of (w', m') \<Rightarrow> (HEnforce event w', l, m')))"
| "handler_access js (HReturned r, l, m) = (HReturned r, l, m)"

section \<open>A call that runs alone\<close>

lemma enforce_alone:
  "(handler_access js ^^ 5) (HEnforce e (WStart e t), l, m)
     = (HReturned (Some e), l, fst (CompileAndSwap (AppendEvent m e) t))"
  by (simp add: eval_nat_numeral CompileAndSwap_def Let_def next_version_def)

lemma record_alone:
  "ledger_AppendEvent js l e = (l', err) \<Longrightarrow>
     (handler_access js ^^ 6) (HRecord e t, l, m)
       = (case err of
            Some _ \<Rightarrow> (HReturned None, l', m)
          | None \<Rightarrow> (HReturned (Some e), l', fst (CompileAndSwap (AppendEvent m e) t)))"
  using enforce_alone [of js e t l' m]
  by (cases err) (simp_all add: eval_nat_numeral funpow_swap1)

lemma call_alone:
  "(handler_access js ^^ 7) (HCalled c, l, m)
     = (case call_event c of
          None \<Rightarrow> (HReturned None, l, m)
        | Some (e, t) \<Rightarrow>
            (case ledger_AppendEvent js l e of
               (l', Some err) \<Rightarrow> (HReturned None, l', m)
             | (l', None) \<Rightarrow> (HReturned (Some e), l', fst (CompileAndSwap (AppendEvent m e) t))))"
proof (cases "call_event c")
  case None
  then show ?thesis by (simp add: eval_nat_numeral)
next
  case (Some et)
  then obtain e t where et: "call_event c = Some (e, t)" by (cases et) simp
  obtain l' err where app: "ledger_AppendEvent js l e = (l', err)" by fastforce
  have "(handler_access js ^^ 7) (HCalled c, l, m) = (handler_access js ^^ 6) (HRecord e t, l, m)"
    using et by (simp add: eval_nat_numeral funpow_swap1)
  with record_alone [OF app] et app show ?thesis by (cases err) simp_all
qed

text \<open>
  A call that nobody interrupts has the effects of the handler of the service on ledger and monitor,
  and it returns with its event exactly when the handler succeeds; the same for a drift job.
\<close>

lemma register_alone:
  assumes "RegisterRevocationEvent js rand t0 t1 (Some \<lparr>srv_Monitor = Some m, srv_Ledger = Some l\<rparr>) ctxErr ro
      = (so', res)"
  shows "\<exists>r l' m'. (handler_access js ^^ 7) (HCalled (RegisterCall rand t0 t1 ctxErr ro), l, m) = (HReturned r, l', m')
    \<and> so' = Some \<lparr>srv_Monitor = Some m', srv_Ledger = Some l'\<rparr> \<and> (r = None \<longleftrightarrow> isl res)"
  using assms unfolding call_alone
  by (auto simp: RegisterRevocationEvent_def register_event_def Let_def case_prod_beta
      split: option.splits sum.splits if_splits prod.splits)

lemma drift_alone:
  assumes "processJob js rand t0 t1 job c = (c', err)" and "dm_Ledger c = Some l" and "dm_Monitor c = Some m"
  shows "\<exists>r l' m'. (handler_access js ^^ 7)
        (HCalled (DriftCall rand t0 t1 job (dm_Dimensions c) (dm_Threshold c)), l, m) = (HReturned r, l', m')
    \<and> dm_Ledger c' = Some l' \<and> dm_Monitor c' = Some m'
    \<and> (r = None \<longleftrightarrow> err \<noteq> None \<or> ax_AxisPreserved
         (EvaluateDrift (job_AnchorVector job) (job_MutatedVector job) (dm_Dimensions c) (dm_Threshold c)))"
  using assms unfolding call_alone
  by (auto simp: processJob_def drift_event_def Let_def case_prod_beta
      split: option.splits sum.splits if_splits prod.splits)

section \<open>The node\<close>

record node =
  nd_Ledger :: FileLedger
  nd_Monitor :: RuntimeMonitor
  nd_handlers :: "handler list"
  nd_filed :: "RevocationEvent list"
  nd_torn :: bool

definition ledger_contents :: "FileLedger \<Rightarrow> byte list" where
  "ledger_contents l = (case fl_file l of None \<Rightarrow> [] | Some f \<Rightarrow> file_contents f)"

text \<open>The events that an access has put into the file, and the access itself with its ghosts.\<close>

fun filed_by :: "handler \<Rightarrow> handler \<Rightarrow> RevocationEvent list" where
  "filed_by (HRecord event t) (HEnforce event' w) = [event]"
| "filed_by _ _ = []"

definition node_access :: "json_codec \<Rightarrow> nat \<Rightarrow> node \<Rightarrow> node" where
  "node_access js i nd =
     (case handler_access js (nd_handlers nd ! i, nd_Ledger nd, nd_Monitor nd) of
        (h, l, m) \<Rightarrow>
          \<lparr>nd_Ledger = l, nd_Monitor = m, nd_handlers = (nd_handlers nd)[i := h],
           nd_filed = nd_filed nd @ filed_by (nd_handlers nd ! i) h,
           nd_torn = (nd_torn nd \<or>
             filed_by (nd_handlers nd ! i) h = [] \<and> ledger_contents l \<noteq> ledger_contents (nd_Ledger nd))\<rparr>)"

text \<open>A call arrives, or a call that is in flight makes its next access.\<close>

inductive node_step :: "json_codec \<Rightarrow> node \<Rightarrow> node \<Rightarrow> bool" for js where
  arrive: "node_step js nd (nd\<lparr>nd_handlers := nd_handlers nd @ [HCalled c]\<rparr>)"
| access: "i < length (nd_handlers nd) \<Longrightarrow> node_step js nd (node_access js i nd)"

inductive_cases node_stepE: "node_step js nd nd'"

text \<open>
  A node boots from the log that an earlier run has left (the empty one at first): the monitor is
  recovered from the file, and the file is opened for appending. Any later write may fail.
\<close>

definition boot :: "string \<Rightarrow> os_file \<Rightarrow> RuntimeMonitor \<Rightarrow> RevocationEvent list \<Rightarrow> node" where
  "boot path f m es = \<lparr>nd_Ledger = \<lparr>fl_file = Some f, fl_path = path\<rparr>, nd_Monitor = m, nd_handlers = [],
     nd_filed = es, nd_torn = False\<rparr>"

definition node_init :: "json_codec \<Rightarrow> node \<Rightarrow> bool" where
  "node_init js nd \<longleftrightarrow>
     (\<exists>path f es m version t0 t1 snap.
        file_contents f = log_bytes js es \<and> (\<forall>e\<in>set es. json_roundtrip js e)
      \<and> RecoverMonitorFromFile js (Inr f) version t0 t1 = Inr (m, snap)
      \<and> nd = boot path f m es)"

text \<open>The first boot is on an empty file, with a fresh monitor.\<close>

lemma node_init_fresh:
  "node_init js (boot path \<lparr>file_contents = [], file_plan = plan\<rparr> (NewRuntimeMonitor t) [])"
proof -
  let ?f = "\<lparr>file_contents = [], file_plan = plan\<rparr>"
  have "RecoverMonitorFromFile js (Inr ?f) 0 t t = Inr (NewRuntimeMonitor t, NewEmptySnapshot 0 t)"
    by (simp add: RecoverMonitorFromFile_def ReplayFile_def replayFrom_def NewRuntimeMonitor_def
        SwapActiveSnapshot_def NewEmptySnapshot_compiled Let_def)
  then show ?thesis
    unfolding node_init_def
    by (intro exI [of _ path] exI [of _ ?f] exI [of _ "[]"] exI [of _ "NewRuntimeMonitor t"] exI conjI)
      (simp, simp, assumption, simp)
qed

section \<open>What every interleaving keeps\<close>

text \<open>The events that are in the file but not yet in the ledger of the monitor.\<close>

fun pending :: "handler \<Rightarrow> RevocationEvent list" where
  "pending (HEnforce event (WStart event' t)) = [event]"
| "pending _ = []"

definition in_flight :: "node \<Rightarrow> RevocationEvent list" where
  "in_flight nd = concat (map pending (nd_handlers nd))"

text \<open>
  A call that has recorded its event holds it: the monitor's ledger has it from the append on, and so
  has the copy of the ledger that the call compiles.
\<close>

fun handler_ok :: "RevocationEvent list \<Rightarrow> handler \<Rightarrow> bool" where
  "handler_ok l (HEnforce event w) \<longleftrightarrow> writer_ok l w \<and>
     (case w of
        WStart event' t \<Rightarrow> event' = event
      | WAppended t \<Rightarrow> event \<in> set l
      | WRead evs t \<Rightarrow> event \<in> set evs
      | WVersioned evs v t \<Rightarrow> event \<in> set evs
      | WDone \<Rightarrow> event \<in> set l)"
| "handler_ok l (HReturned r) \<longleftrightarrow> (case r of None \<Rightarrow> True | Some event \<Rightarrow> event \<in> set l)"
| "handler_ok l _ \<longleftrightarrow> True"

definition node_inv :: "json_codec \<Rightarrow> node \<Rightarrow> bool" where
  "node_inv js nd \<longleftrightarrow>
     snapshot_of_prefix (nd_Monitor nd)
   \<and> (\<forall>h\<in>set (nd_handlers nd). handler_ok (mon_ledger (nd_Monitor nd)) h)
   \<and> mset (nd_filed nd) = mset (mon_ledger (nd_Monitor nd)) + mset (in_flight nd)
   \<and> (\<not> nd_torn nd \<longrightarrow> ledger_contents (nd_Ledger nd) = log_bytes js (nd_filed nd))"

text \<open>One access of a call, with what the others can rely on.\<close>

definition access_keeps ::
  "json_codec \<Rightarrow> handler \<Rightarrow> FileLedger \<Rightarrow> RuntimeMonitor \<Rightarrow> handler \<Rightarrow> FileLedger \<Rightarrow> RuntimeMonitor \<Rightarrow> bool"
where
  "access_keeps js h l m h' l' m' \<longleftrightarrow>
     snapshot_of_prefix m' \<and> handler_ok (mon_ledger m') h'
   \<and> (\<forall>x. handler_ok (mon_ledger m) x \<longrightarrow> handler_ok (mon_ledger m') x)
   \<and> mset (filed_by h h') + mset (mon_ledger m) + mset (pending h) = mset (mon_ledger m') + mset (pending h')
   \<and> (filed_by h h' \<noteq> [] \<longrightarrow> ledger_contents l' = ledger_contents l @ log_bytes js (filed_by h h'))"

lemma handler_ok_append: "handler_ok l h \<Longrightarrow> handler_ok (l @ [e]) h"
  by (cases h) (auto simp: writer_ok_append split: writer.splits option.splits)

lemma handler_access_keeps:
  assumes "handler_access js (h, l, m) = (h', l', m')"
    and "snapshot_of_prefix m" and "handler_ok (mon_ledger m) h"
  shows "access_keeps js h l m h' l' m'"
proof (cases h)
  case (HCalled c)
  with assms show ?thesis
    by (cases "call_event c") (auto simp: access_keeps_def)
next
  case (HRecord e t)
  obtain l1 err where app: "ledger_AppendEvent js l e = (l1, err)" by fastforce
  show ?thesis
  proof (cases err)
    case None
    with app have "ledger_contents l1 = ledger_contents l @ event_record js e"
      using ledger_AppendEvent_durable [of js l e l1] by (auto simp: ledger_contents_def)
    with HRecord None app assms show ?thesis by (auto simp: access_keeps_def)
  qed (use HRecord app assms in \<open>auto simp: access_keeps_def\<close>)
next
  case (HEnforce e w)
  with assms writer_step_inv [of w m _ _] show ?thesis
    by (cases w) (auto simp: access_keeps_def Ledger_def snapshot_of_prefix_append snapshot_of_prefix_swap
        handler_ok_append dest: set_mono_prefix [THEN subsetD])
next
  case (HReturned r)
  with assms show ?thesis by (auto simp: access_keeps_def)
qed

lemma mset_concat_map_update:
  "i < length xs \<Longrightarrow>
     mset (concat (map f (xs[i := y]))) + mset (f (xs ! i)) = mset (concat (map f xs)) + mset (f y)"
  by (induction xs arbitrary: i) (auto simp: add_ac split: nat.split)

lemma mset_exchange:
  fixes F :: "'a multiset"
  assumes "F = L + I" and "I' + p = I + p'" and "fb + L + p = L' + p'"
  shows "F + fb = L' + I'"
proof -
  have "(F + fb) + (p + p') = (fb + L + p) + (I + p')" by (simp add: assms(1) add_ac)
  also have "\<dots> = (L' + p') + (I' + p)" by (simp only: assms(2,3))
  also have "\<dots> = (L' + I') + (p + p')" by (simp add: add_ac)
  finally show ?thesis by simp
qed

lemma node_access_fields:
  assumes "handler_access js (nd_handlers nd ! i, nd_Ledger nd, nd_Monitor nd) = (h, l, m)"
  shows "nd_Ledger (node_access js i nd) = l" and "nd_Monitor (node_access js i nd) = m"
    and "nd_handlers (node_access js i nd) = (nd_handlers nd)[i := h]"
    and "nd_filed (node_access js i nd) = nd_filed nd @ filed_by (nd_handlers nd ! i) h"
    and "nd_torn (node_access js i nd) \<longleftrightarrow> nd_torn nd
      \<or> filed_by (nd_handlers nd ! i) h = [] \<and> ledger_contents l \<noteq> ledger_contents (nd_Ledger nd)"
  by (simp_all add: node_access_def assms)

lemma node_access_inv:
  assumes "i < length (nd_handlers nd)" and "node_inv js nd"
  shows "node_inv js (node_access js i nd)"
proof -
  let ?h = "nd_handlers nd ! i"
  obtain h l m where acc: "handler_access js (?h, nd_Ledger nd, nd_Monitor nd) = (h, l, m)"
    by (cases "handler_access js (?h, nd_Ledger nd, nd_Monitor nd)") auto
  note fields = node_access_fields [OF acc]
  from assms have "handler_ok (mon_ledger (nd_Monitor nd)) ?h" "snapshot_of_prefix (nd_Monitor nd)"
    by (simp_all add: node_inv_def)
  with handler_access_keeps [OF acc] have keeps: "access_keeps js ?h (nd_Ledger nd) (nd_Monitor nd) h l m"
    by blast
  have "snapshot_of_prefix m \<and> (\<forall>x\<in>set ((nd_handlers nd)[i := h]). handler_ok (mon_ledger m) x)"
    using keeps assms(2)
    by (auto simp: access_keeps_def node_inv_def dest!: set_update_subset_insert [THEN subsetD])
  moreover have "mset (nd_filed nd) + mset (filed_by ?h h)
      = mset (mon_ledger m) + mset (concat (map pending ((nd_handlers nd)[i := h])))"
  proof (rule mset_exchange)
    show "mset (nd_filed nd) = mset (mon_ledger (nd_Monitor nd)) + mset (concat (map pending (nd_handlers nd)))"
      using assms(2) by (simp add: node_inv_def in_flight_def)
    show "mset (filed_by ?h h) + mset (mon_ledger (nd_Monitor nd)) + mset (pending ?h)
        = mset (mon_ledger m) + mset (pending h)"
      using keeps by (simp add: access_keeps_def)
  qed (rule mset_concat_map_update [OF assms(1)])
  moreover have "ledger_contents l = log_bytes js (nd_filed nd @ filed_by ?h h)"
    if "\<not> nd_torn (node_access js i nd)"
    using that keeps assms(2) unfolding fields
    by (cases "filed_by ?h h = []") (auto simp: access_keeps_def node_inv_def)
  ultimately show ?thesis
    by (simp add: node_inv_def fields in_flight_def)
qed

lemma node_step_inv: "node_step js nd nd' \<Longrightarrow> node_inv js nd \<Longrightarrow> node_inv js nd'"
  by (erule node_stepE) (auto simp: node_access_inv, simp add: node_inv_def in_flight_def)

lemma recovered:
  assumes "RecoverMonitorFromFile js (Inr f) version t0 t1 = Inr (m, snap)"
    and "file_contents f = log_bytes js es" and "\<forall>e\<in>set es. json_roundtrip js e"
  shows "mon_ledger m = es" and "mon_snapshot m = Some (CompileSnapshot es version t1)"
  using assms replay_log [OF assms(3), of "[]" "[]"]
  by (auto simp: RecoverMonitorFromFile_def ReplayFile_def replayFrom_def Let_def SwapActiveSnapshot_def
      foldl_AppendEvent NewRuntimeMonitor_def)

lemma node_initE:
  assumes "node_init js nd"
  obtains path f m v t where "nd = boot path f m (nd_filed nd)" and "mon_ledger m = nd_filed nd"
    and "file_contents f = log_bytes js (nd_filed nd)"
    and "mon_snapshot m = Some (CompileSnapshot (nd_filed nd) v t)"
proof -
  obtain path f es m version t0 t1 snap where nd: "nd = boot path f m es"
      and f: "file_contents f = log_bytes js es" "\<forall>e\<in>set es. json_roundtrip js e"
      and rec: "RecoverMonitorFromFile js (Inr f) version t0 t1 = Inr (m, snap)"
    using assms unfolding node_init_def by blast
  have "nd_filed nd = es" by (simp add: nd boot_def)
  with nd f recovered [OF rec f] show thesis by (intro that) simp_all
qed

lemma node_init_inv: "node_init js nd \<Longrightarrow> node_inv js nd"
proof (erule node_initE)
  fix path f m v t
  assume nd: "nd = boot path f m (nd_filed nd)" and m: "mon_ledger m = nd_filed nd"
      "file_contents f = log_bytes js (nd_filed nd)" "mon_snapshot m = Some (CompileSnapshot (nd_filed nd) v t)"
  then have "snapshot_of_prefix m" unfolding snapshot_of_prefix_def by (metis prefix_order.refl)
  then have "node_inv js (boot path f m (nd_filed nd))"
    using m by (simp add: node_inv_def boot_def in_flight_def ledger_contents_def)
  with nd show "node_inv js nd" by simp
qed

interpretation nodes: invariant_system "node_init js" "node_step js" "node_inv js"
  by unfold_locales (rule node_init_inv, assumption, rule node_step_inv)

lemma node_recovers:
  assumes "node_inv js nd" and "\<not> nd_torn nd" and "\<forall>e\<in>set (nd_filed nd). json_roundtrip js e"
    and "fl_file (nd_Ledger nd) = Some f"
  shows "\<exists>m'. RecoverMonitorFromFile js (Inr f) version now0 now1
        = Inr (m', CompileSnapshot (nd_filed nd) version now1)
    \<and> Ledger m' = nd_filed nd \<and> (\<forall>mid. Lookup m' mid = mem_verdict (mem_history mid (nd_filed nd)))"
proof -
  have "file_contents f = log_bytes js (nd_filed nd)"
    using assms(1,2,4) by (simp add: node_inv_def ledger_contents_def)
  then have "f = \<lparr>file_contents = log_bytes js (nd_filed nd), file_plan = file_plan f\<rparr>" by simp
  then show ?thesis
    using RecoverMonitorFromFile_log [OF assms(3), of "file_plan f" version now0 now1] by simp
qed

section \<open>Events in force\<close>

text \<open>A call that holds a copy of the monitor's ledger, which it is about to enforce, has the event in it.\<close>

fun copy_has :: "RevocationEvent \<Rightarrow> handler \<Rightarrow> bool" where
  "copy_has e (HEnforce e' (WRead evs t)) \<longleftrightarrow> e \<in> set evs"
| "copy_has e (HEnforce e' (WVersioned evs v t)) \<longleftrightarrow> e \<in> set evs"
| "copy_has e h \<longleftrightarrow> True"

text \<open>
  An event is in force when the active snapshot was compiled from a part of the ledger that has it,
  and no call is about to replace this snapshot by an older one.
\<close>

definition in_force :: "RevocationEvent \<Rightarrow> node \<Rightarrow> bool" where
  "in_force e nd \<longleftrightarrow>
     (\<exists>evs v t. prefix evs (mon_ledger (nd_Monitor nd)) \<and> e \<in> set evs
        \<and> mon_snapshot (nd_Monitor nd) = Some (CompileSnapshot evs v t))
   \<and> (\<forall>h\<in>set (nd_handlers nd). copy_has e h)"

text \<open>
  It is brought into force by a call that stores its snapshot while all the copies that are around have
  the event, and by a boot from a log that has it.
\<close>

lemma copy_has_update:
  "\<forall>h\<in>set hs. copy_has e h \<Longrightarrow> copy_has e h' \<Longrightarrow> \<forall>h\<in>set (hs[i := h']). copy_has e h"
  by (auto dest!: set_update_subset_insert [THEN subsetD])

lemma swap_in_force:
  assumes "node_inv js nd" and "i < length (nd_handlers nd)"
    and "nd_handlers nd ! i = HEnforce e' (WVersioned evs v t)"
    and "\<forall>h\<in>set (nd_handlers nd). copy_has e h"
  shows "in_force e (node_access js i nd)"
proof -
  from assms(2-4) have e: "e \<in> set evs" using nth_mem [OF assms(2)] by fastforce
  have "handler_ok (mon_ledger (nd_Monitor nd)) (HEnforce e' (WVersioned evs v t))"
    using assms(1-3) nth_mem [OF assms(2)] by (fastforce simp: node_inv_def)
  then have pre: "prefix evs (mon_ledger (nd_Monitor nd))" by simp
  have acc: "handler_access js (nd_handlers nd ! i, nd_Ledger nd, nd_Monitor nd)
      = (HEnforce e' WDone, nd_Ledger nd,
         SwapActiveSnapshot (nd_Monitor nd) (Some (CompileSnapshot evs v t)))"
    by (simp add: assms(3))
  have "mon_snapshot (SwapActiveSnapshot (nd_Monitor nd) (Some (CompileSnapshot evs v t)))
      = Some (CompileSnapshot evs v t)"
    by (simp add: SwapActiveSnapshot_def)
  then show ?thesis
    unfolding in_force_def node_access_fields [OF acc]
    using pre e copy_has_update [OF assms(4), of "HEnforce e' WDone"] by auto
qed

lemma boot_in_force: "node_init js nd \<Longrightarrow> e \<in> set (nd_filed nd) \<Longrightarrow> in_force e nd"
proof (erule node_initE)
  fix path f m v t
  assume e: "e \<in> set (nd_filed nd)" and nd: "nd = boot path f m (nd_filed nd)"
    and m: "mon_ledger m = nd_filed nd" "mon_snapshot m = Some (CompileSnapshot (nd_filed nd) v t)"
  have "in_force e (boot path f m (nd_filed nd))"
    unfolding in_force_def boot_def using m e by auto
  with nd show "in_force e nd" by simp
qed

text \<open>From then on it stays in force, whatever the other calls do.\<close>

lemma writer_step_keeps:
  assumes "writer_step w m = (w', m')" and "copy_has e (HEnforce x w)"
    and "prefix evs (mon_ledger m)" and "e \<in> set evs" and "mon_snapshot m = Some (CompileSnapshot evs v t)"
    and "writer_ok (mon_ledger m) w"
  shows "copy_has e (HEnforce x w')
    \<and> (\<exists>evs v t. prefix evs (mon_ledger m') \<and> e \<in> set evs \<and> mon_snapshot m' = Some (CompileSnapshot evs v t))"
proof (cases w)
  case (WStart e' t')
  with assms have "copy_has e (HEnforce x w')" "mon_ledger m' = mon_ledger m @ [e']"
      "mon_snapshot m' = Some (CompileSnapshot evs v t)"
    by (auto simp: AppendEvent_def)
  with prefix_snoc [OF assms(3), of e'] assms(4) show ?thesis by metis
next
  case (WAppended t')
  with assms show ?thesis by (auto simp: Ledger_def dest: set_mono_prefix [THEN subsetD])
next
  case (WRead evs' t')
  with assms show ?thesis by auto
next
  case (WVersioned evs' v' t')
  with assms have "copy_has e (HEnforce x w')" "prefix evs' (mon_ledger m')" "e \<in> set evs'"
      "mon_snapshot m' = Some (CompileSnapshot evs' v' t')"
    by (auto simp: SwapActiveSnapshot_def)
  then show ?thesis by metis
next
  case WDone
  with assms show ?thesis by auto
qed

lemma node_step_in_force:
  assumes "node_step js nd nd'" and "node_inv js nd" and "in_force e nd"
  shows "in_force e nd'"
  using assms(1)
proof (cases rule: node_step.cases)
  case (arrive c)
  with assms(3) show ?thesis by (auto simp: in_force_def)
next
  case (access i)
  let ?h = "nd_handlers nd ! i"
  obtain h l m where acc: "handler_access js (?h, nd_Ledger nd, nd_Monitor nd) = (h, l, m)"
    by (cases "handler_access js (?h, nd_Ledger nd, nd_Monitor nd)") auto
  have ok: "handler_ok (mon_ledger (nd_Monitor nd)) ?h" and has: "copy_has e ?h"
    using assms(2,3) access nth_mem by (auto simp: node_inv_def in_force_def)
  from assms(3) obtain evs v t where evs: "prefix evs (mon_ledger (nd_Monitor nd))" "e \<in> set evs"
      "mon_snapshot (nd_Monitor nd) = Some (CompileSnapshot evs v t)"
    unfolding in_force_def by blast
  have "copy_has e h
    \<and> (\<exists>evs v t. prefix evs (mon_ledger m) \<and> e \<in> set evs \<and> mon_snapshot m = Some (CompileSnapshot evs v t))"
  proof (cases "\<exists>x w. ?h = HEnforce x w \<and> w \<noteq> WDone")
    case True
    then obtain x w where h: "?h = HEnforce x w" "w \<noteq> WDone" by blast
    obtain w' m' where st: "writer_step w (nd_Monitor nd) = (w', m')" by fastforce
    with h acc have "h = HEnforce x w'" "m = m'" by (auto split: writer.splits)
    with writer_step_keeps [OF st _ evs, of x] has ok h(1) show ?thesis by simp
  next
    case False
    with acc have "m = nd_Monitor nd" "copy_has e h"
      by (cases ?h; auto split: option.splits prod.splits writer.splits)+
    with evs show ?thesis by blast
  qed
  then show ?thesis
    using assms(3) copy_has_update [of "nd_handlers nd" e h i]
    unfolding access in_force_def node_access_fields [OF acc] by blast
qed

lemma stays_in_force:
  "(node_step js)\<^sup>*\<^sup>* nd nd' \<Longrightarrow> node_inv js nd \<Longrightarrow> in_force e nd \<Longrightarrow> node_inv js nd' \<and> in_force e nd'"
  by (induction rule: rtranclp_induct) (auto intro: node_step_inv node_step_in_force)

text \<open>What is in force and not cleared blocks its memory.\<close>

definition uncleared :: "id16 \<Rightarrow> RevocationEvent list \<Rightarrow> bool" where
  "uncleared mid es \<longleftrightarrow> (\<forall>f\<in>set es. ev_MemoryID f = mid \<longrightarrow> ev_EventType f \<noteq> EventClearQuarantine)"

lemma uncleared_blocks:
  assumes "e \<in> set es" and "blocking_event (ev_EventType e)" and "uncleared (ev_MemoryID e) es"
  shows "rd_Decision (mem_verdict (mem_history (ev_MemoryID e) es)) \<noteq> DecisionUse"
proof -
  obtain pre post where es: "es = (pre @ [e]) @ post"
    using split_list [OF assms(1)] by auto
  have "mem_blocked (fold mem_step (own_events (ev_MemoryID e) post)
      (mem_step e (mem_history (ev_MemoryID e) pre)))"
    using assms(3) mem_step_blocking [OF assms(2)] unfolding es
    by (intro fold_mem_step_blocked) (auto simp: own_events_def uncleared_def)
  then show ?thesis
    unfolding es mem_history_append [of _ "pre @ [e]"] mem_history_snoc mem_verdict_use_iff by simp
qed

lemma in_force_blocks:
  assumes "node_inv js nd" and "in_force e nd" and "blocking_event (ev_EventType e)"
    and "uncleared (ev_MemoryID e) (nd_filed nd)"
  shows "rd_Decision (Lookup (nd_Monitor nd) (ev_MemoryID e)) \<noteq> DecisionUse"
proof -
  from assms(2) obtain evs v t where evs: "prefix evs (mon_ledger (nd_Monitor nd))" "e \<in> set evs"
      "mon_snapshot (nd_Monitor nd) = Some (CompileSnapshot evs v t)"
    unfolding in_force_def by blast
  have "set_mset (mset (mon_ledger (nd_Monitor nd))) \<subseteq> set_mset (mset (nd_filed nd))"
    using assms(1) by (simp add: node_inv_def flip: set_mset_mset)
  with evs(1) have "set evs \<subseteq> set (nd_filed nd)"
    using set_mono_prefix by fastforce
  with assms(4) have "uncleared (ev_MemoryID e) evs" by (auto simp: uncleared_def)
  from uncleared_blocks [OF evs(2) assms(3) this] evs(3) show ?thesis
    by (simp add: Lookup_def lookup_compiled)
qed

text \<open>
  When an event is enforced: at the moment in which its call stores the snapshot, provided that every
  call that holds a copy of the ledger has the event in it, and after a boot from a log that has it.
  Without the proviso a call with an older copy can take the event out of force again
  (\<open>stale_swap_loses_a_block\<close>).
\<close>

inductive enforced :: "json_codec \<Rightarrow> RevocationEvent \<Rightarrow> node \<Rightarrow> bool" for js e where
  stored: "reach (node_init js) (node_step js) nd \<Longrightarrow> i < length (nd_handlers nd) \<Longrightarrow>
     nd_handlers nd ! i = HEnforce e (WVersioned evs v t) \<Longrightarrow> \<forall>h\<in>set (nd_handlers nd). copy_has e h \<Longrightarrow>
     enforced js e (node_access js i nd)"
| booted: "node_init js nd \<Longrightarrow> e \<in> set (nd_filed nd) \<Longrightarrow> enforced js e nd"

lemma enforced_in_force: "enforced js e nd \<Longrightarrow> node_inv js nd \<and> in_force e nd"
  by (erule enforced.cases)
    (auto intro: nodes.reach_I node_access_inv swap_in_force node_init_inv boot_in_force)

lemma enforced_blocks:
  assumes "enforced js e nd0" and "(node_step js)\<^sup>*\<^sup>* nd0 nd" and "blocking_event (ev_EventType e)"
    and "uncleared (ev_MemoryID e) (nd_filed nd)"
  shows "rd_Decision (Lookup (nd_Monitor nd) (ev_MemoryID e)) \<noteq> DecisionUse"
    and "\<not> nd_torn nd \<Longrightarrow> \<forall>f\<in>set (nd_filed nd). json_roundtrip js f \<Longrightarrow> fl_file (nd_Ledger nd) = Some f \<Longrightarrow>
      RecoverMonitorFromFile js (Inr f) version now0 now1 = Inr (m', snap) \<Longrightarrow>
      rd_Decision (Lookup m' (ev_MemoryID e)) \<noteq> DecisionUse"
proof -
  from enforced_in_force [OF assms(1)] stays_in_force [OF assms(2)]
  have inv: "node_inv js nd" and force: "in_force e nd" by blast+
  show "rd_Decision (Lookup (nd_Monitor nd) (ev_MemoryID e)) \<noteq> DecisionUse"
    by (rule in_force_blocks [OF inv force assms(3,4)])
  assume "\<not> nd_torn nd" "\<forall>f\<in>set (nd_filed nd). json_roundtrip js f" "fl_file (nd_Ledger nd) = Some f"
    and rec: "RecoverMonitorFromFile js (Inr f) version now0 now1 = Inr (m', snap)"
  from node_recovers [OF inv this(1-3), of version now0 now1] rec
  have m': "Lookup m' (ev_MemoryID e) = mem_verdict (mem_history (ev_MemoryID e) (nd_filed nd))" by auto
  have "set_mset (mset (mon_ledger (nd_Monitor nd))) \<subseteq> set_mset (mset (nd_filed nd))"
    using inv by (simp add: node_inv_def flip: set_mset_mset)
  with force have "e \<in> set (nd_filed nd)"
    using set_mono_prefix by (fastforce simp: in_force_def)
  with m' uncleared_blocks assms(3,4) show "rd_Decision (Lookup m' (ev_MemoryID e)) \<noteq> DecisionUse"
    by metis
qed

text \<open>A call that is not disturbed between its append to the file and its store is enforced.\<close>

lemma length_node_access [simp]: "length (nd_handlers (node_access js i nd)) = length (nd_handlers nd)"
  by (simp add: node_access_def split: prod.split)

lemma node_access_reach:
  "reach (node_init js) (node_step js) nd \<Longrightarrow> i < length (nd_handlers nd) \<Longrightarrow>
     reach (node_init js) (node_step js) (node_access js i nd)"
  by (erule reach_step) (rule node_step.access)

lemma node_accesses_reach:
  "reach (node_init js) (node_step js) nd \<Longrightarrow> i < length (nd_handlers nd) \<Longrightarrow>
     reach (node_init js) (node_step js) ((node_access js i ^^ n) nd)
   \<and> i < length (nd_handlers ((node_access js i ^^ n) nd))"
  by (induction n) (simp_all add: node_access_reach)

lemma undisturbed_call_is_enforced:
  assumes "reach (node_init js) (node_step js) nd" and "i < length (nd_handlers nd)"
    and "nd_handlers nd ! i = HRecord e t" and "ledger_AppendEvent js (nd_Ledger nd) e = (l', None)"
    and "\<forall>h\<in>set (nd_handlers nd). copy_has e h"
  shows "enforced js e ((node_access js i ^^ 5) nd)"
    and "(node_access js i ^^ 6) nd = \<lparr>nd_Ledger = l', nd_Monitor = fst (CompileAndSwap (AppendEvent (nd_Monitor nd) e) t),
      nd_handlers = (nd_handlers nd)[i := HReturned (Some e)], nd_filed = nd_filed nd @ [e], nd_torn = nd_torn nd\<rparr>"
proof -
  let ?m = "AppendEvent (nd_Monitor nd) e"
  let ?h = "HEnforce e (WVersioned (Ledger ?m) (next_version ?m) t)"
  have four: "(node_access js i ^^ 4) nd = \<lparr>nd_Ledger = l', nd_Monitor = ?m,
      nd_handlers = (nd_handlers nd)[i := ?h], nd_filed = nd_filed nd @ [e], nd_torn = nd_torn nd\<rparr>"
    using assms(2-4) by (simp add: eval_nat_numeral node_access_def)
  have "\<forall>h\<in>set ((nd_handlers nd)[i := ?h]). copy_has e h"
    by (rule copy_has_update [OF assms(5)]) (simp add: Ledger_def)
  then have "enforced js e (node_access js i ((node_access js i ^^ 4) nd))"
    using node_accesses_reach [OF assms(1,2), of 4] assms(2)
    by (intro enforced.stored [where evs = "Ledger ?m" and v = "next_version ?m" and t = t]) (auto simp: four)
  then show "enforced js e ((node_access js i ^^ 5) nd)" by (simp add: eval_nat_numeral)
  have "(node_access js i ^^ 6) nd = node_access js i (node_access js i ((node_access js i ^^ 4) nd))"
    by (simp add: eval_nat_numeral)
  then show "(node_access js i ^^ 6) nd = \<lparr>nd_Ledger = l', nd_Monitor = fst (CompileAndSwap ?m t),
      nd_handlers = (nd_handlers nd)[i := HReturned (Some e)], nd_filed = nd_filed nd @ [e], nd_torn = nd_torn nd\<rparr>"
    using assms(2) unfolding four by (simp add: node_access_def CompileAndSwap_def Let_def next_version_def)
qed

section \<open>The order in the file\<close>

text \<open>
  What no interleaving is kept from: the file and the monitor may take two events in different orders.
  Here a quarantine is filed before its clearing, but reaches the monitor after it. Both calls have
  returned with their events, no write has failed, and the memory is refused; after a restart it passes.
\<close>

lemma ledger_AppendEvent_plain:
  "json_roundtrip js e \<Longrightarrow>
     ledger_AppendEvent js \<lparr>fl_file = Some \<lparr>file_contents = bs, file_plan = []\<rparr>, fl_path = path\<rparr> e
       = (\<lparr>fl_file = Some \<lparr>file_contents = bs @ event_record js e, file_plan = []\<rparr>, fl_path = path\<rparr>, None)"
  by (simp add: ledger_AppendEvent_ok)

lemma schedule_steps:
  "\<forall>i\<in>set is. i < length (nd_handlers nd) \<Longrightarrow> (node_step js)\<^sup>*\<^sup>* nd (fold (node_access js) is nd)"
proof (induction "is" arbitrary: nd)
  case (Cons i "is")
  then have "node_step js nd (node_access js i nd)" by (simp add: node_step.access)
  moreover have "(node_step js)\<^sup>*\<^sup>* (node_access js i nd) (fold (node_access js) is (node_access js i nd))"
    using Cons by simp
  ultimately show ?case by (simp add: converse_rtranclp_into_rtranclp)
qed simp

lemma schedule_reach:
  "reach (node_init js) (node_step js) nd \<Longrightarrow> \<forall>i\<in>set is. i < length (nd_handlers nd) \<Longrightarrow>
     reach (node_init js) (node_step js) (fold (node_access js) is nd)"
  by (rule reach_run [OF schedule_steps])

text \<open>A node with calls that have just arrived.\<close>

definition calls_on :: "string \<Rightarrow> io_outcome list \<Rightarrow> call list \<Rightarrow> node" where
  "calls_on path plan cs = \<lparr>nd_Ledger = \<lparr>fl_file = Some \<lparr>file_contents = [], file_plan = plan\<rparr>, fl_path = path\<rparr>,
     nd_Monitor = NewRuntimeMonitor 0, nd_handlers = map HCalled cs, nd_filed = [], nd_torn = False\<rparr>"

lemma calls_on_reach: "reach (node_init js) (node_step js) (calls_on path plan cs)"
proof (induction cs rule: rev_induct)
  case Nil
  have "node_init js (calls_on path plan [])"
    using node_init_fresh [of js path plan 0] by (simp add: boot_def calls_on_def)
  then show ?case by (rule reach_init)
next
  case (snoc c cs)
  have "node_step js (calls_on path plan cs) (calls_on path plan (cs @ [c]))"
    using node_step.arrive [of js "calls_on path plan cs" c] by (simp add: calls_on_def)
  with snoc show ?case by (rule reach_step)
qed

lemma restart_can_unblock:
  assumes "call_event c1 = Some (q, t1)" and "call_event c2 = Some (c, t2)"
    and "json_roundtrip js q" and "json_roundtrip js c"
    and "ev_MemoryID c = ev_MemoryID q" and "ev_EventType q = EventQuarantineMemory"
    and "ev_EventType c = EventClearQuarantine"
  shows "\<exists>nd f m' snap. reach (node_init js) (node_step js) nd \<and> \<not> nd_torn nd
    \<and> nd_handlers nd = [HReturned (Some q), HReturned (Some c)]
    \<and> rd_Decision (Lookup (nd_Monitor nd) (ev_MemoryID q)) \<noteq> DecisionUse
    \<and> fl_file (nd_Ledger nd) = Some f \<and> RecoverMonitorFromFile js (Inr f) 1 t1 t2 = Inr (m', snap)
    \<and> rd_Decision (Lookup m' (ev_MemoryID q)) = DecisionUse"
proof -
  let ?R = "reach (node_init js) (node_step js)" and ?path = "''wal''"
  define nd where "nd = fold (node_access js) [0, 0, 1, 1, 1, 1, 1, 1, 1, 0, 0, 0, 0, 0] (calls_on ?path [] [c1, c2])"
  have fin: "nd = \<lparr>nd_Ledger = \<lparr>fl_file = Some \<lparr>file_contents = event_record js q @ event_record js c,
        file_plan = []\<rparr>, fl_path = ?path\<rparr>,
      nd_Monitor = fst (CompileAndSwap (AppendEvent (fst (CompileAndSwap (AppendEvent (NewRuntimeMonitor 0) c) t2)) q) t1),
      nd_handlers = [HReturned (Some q), HReturned (Some c)], nd_filed = [q, c], nd_torn = False\<rparr>"
    using assms(1-4)
    by (simp add: nd_def calls_on_def node_access_def ledger_AppendEvent_plain CompileAndSwap_def Let_def next_version_def)
  have R: "?R nd" unfolding nd_def by (rule schedule_reach [OF calls_on_reach]) (simp add: calls_on_def)
  let ?f = "\<lparr>file_contents = event_record js q @ event_record js c, file_plan = []\<rparr>"
  obtain m' snap where rec: "RecoverMonitorFromFile js (Inr ?f) 1 t1 t2 = Inr (m', snap)"
      "Lookup m' (ev_MemoryID q) = mem_verdict (mem_history (ev_MemoryID q) [q, c])"
    using node_recovers [OF nodes.reach_I [OF R], of ?f 1 t1 t2] assms(3,4) by (auto simp: fin)
  have "rd_Decision (Lookup m' (ev_MemoryID q)) = DecisionUse"
    unfolding rec(2) mem_verdict_use_iff
    using assms(5-7) by (simp add: mem_history_def own_events_def mem_blocked_def mem_step_def mem_init_def
        quarantine_event_def)
  moreover have "rd_Decision (Lookup (nd_Monitor nd) (ev_MemoryID q)) \<noteq> DecisionUse"
    using assms(6) mem_step_blocking [of q]
    by (simp add: fin Lookup_CompileAndSwap mem_verdict_use_iff mem_history_snoc blocking_event_def
        quarantine_event_def)
  ultimately show ?thesis
    using R rec(1) by (intro exI [of _ nd] exI [of _ ?f] exI conjI) (simp_all add: fin)
qed

end
