(* ===== verification/Ops_Health.thy ===== *)
theory Ops_Health
  imports Mam_Prelude
begin

text \<open>
  \<^verbatim>\<open>pkg/ops/health.go\<close>: the readiness probe and the boot check. The clock is an argument,
  read only when the configuration carries no time. The lemmas give the exact condition of readiness
  and show which of the documented fail-closed rules the probe enforces unconditionally.
\<close>

record SnapshotTelemetry =
  tm_NodeID :: string
  tm_SnapshotVersion :: u64
  tm_SnapshotHash :: hash32
  tm_LastAppliedAt :: go_time
  tm_WALReadable :: bool
  tm_PubSubReachable :: bool
  tm_CoolingSince :: go_time

record HealthConfig =
  hcfg_ClusterBaselineVersion :: u64
  hcfg_MaxVersionLag :: u64
  hcfg_MaxSnapshotLag :: duration
  hcfg_MaxCoolingLock :: duration
  hcfg_Now :: go_time

record ReadinessResult =
  rr_Ready :: bool
  rr_Reason :: string

definition EvaluateReadiness :: "go_time \<Rightarrow> SnapshotTelemetry \<Rightarrow> HealthConfig \<Rightarrow> ReadinessResult" where
  "EvaluateReadiness clock t cfg =
     (let now = (if IsZero (hcfg_Now cfg) then clock else hcfg_Now cfg) in
      if tm_SnapshotVersion t = 0 \<or> tm_SnapshotHash t = zero_bytes
        then \<lparr>rr_Ready = False, rr_Reason = ''MAM_RUNTIME_SNAPSHOT_ZERO''\<rparr>
      else if \<not> tm_WALReadable t then \<lparr>rr_Ready = False, rr_Reason = ''MAM_WAL_UNREADABLE''\<rparr>
      else if hcfg_ClusterBaselineVersion cfg > tm_SnapshotVersion t
          \<and> hcfg_MaxVersionLag cfg > 0
          \<and> hcfg_ClusterBaselineVersion cfg - tm_SnapshotVersion t > hcfg_MaxVersionLag cfg
        then \<lparr>rr_Ready = False, rr_Reason = ''MAM_SNAPSHOT_OUT_OF_SYNC''\<rparr>
      else if \<not> IsZero (tm_LastAppliedAt t) \<and> hcfg_MaxSnapshotLag cfg > 0
          \<and> time_Sub now (tm_LastAppliedAt t) > hcfg_MaxSnapshotLag cfg
        then \<lparr>rr_Ready = False, rr_Reason = ''MAM_SNAPSHOT_LAG_EXCEEDED''\<rparr>
      else if \<not> tm_PubSubReachable t then
        (if IsZero (tm_CoolingSince t)
           then \<lparr>rr_Ready = True, rr_Reason = ''MAM_PUBSUB_COOLING_LOCK''\<rparr>
         else if hcfg_MaxCoolingLock cfg > 0
             \<and> time_Sub now (tm_CoolingSince t) > hcfg_MaxCoolingLock cfg
           then \<lparr>rr_Ready = False, rr_Reason = ''MAM_PUBSUB_UNREACHABLE''\<rparr>
         else \<lparr>rr_Ready = True, rr_Reason = ''MAM_PUBSUB_COOLING_LOCK''\<rparr>)
      else \<lparr>rr_Ready = True, rr_Reason = ''MAM_READY''\<rparr>)"

definition ValidateBootReplay :: "u64 \<Rightarrow> hash32 \<Rightarrow> go_error option \<Rightarrow> go_error option" where
  "ValidateBootReplay snapshotVersion snapshotHash replayErr =
     (case replayErr of
        Some err \<Rightarrow> Some err
      | None \<Rightarrow>
          if snapshotVersion = 0 \<or> snapshotHash = zero_bytes
          then Some (ErrorString ''MAM_BOOT_REPLAY_INVALID_SNAPSHOT'') else None)"

section \<open>Conditions\<close>

definition probe_time :: "go_time \<Rightarrow> HealthConfig \<Rightarrow> go_time" where
  "probe_time clock cfg = (if IsZero (hcfg_Now cfg) then clock else hcfg_Now cfg)"

text \<open>A bound on the age of something that happened at \<open>since\<close>; a zero limit or time disables it.\<close>

definition too_old :: "duration \<Rightarrow> go_time \<Rightarrow> go_time \<Rightarrow> bool" where
  "too_old limit since now \<longleftrightarrow> \<not> IsZero since \<and> 0 < limit \<and> limit < time_Sub now since"

lemma too_old_mono: "too_old limit since now \<Longrightarrow> now \<le> later \<Longrightarrow> too_old limit since later"
  by (auto simp: too_old_def time_Sub_def)

lemma too_old_not_yet:
  "0 < limit \<Longrightarrow> limit < 2 ^ 63 - 1 \<Longrightarrow> \<not> IsZero since \<Longrightarrow>
     too_old limit since now \<longleftrightarrow> since + limit < now"
  by (auto simp: too_old_def time_Sub_def)

lemma EvaluateReadiness_ready:
  "rr_Ready (EvaluateReadiness clock t cfg) \<longleftrightarrow>
     tm_SnapshotVersion t \<noteq> 0 \<and> tm_SnapshotHash t \<noteq> zero_bytes \<and> tm_WALReadable t
   \<and> \<not> (hcfg_ClusterBaselineVersion cfg > tm_SnapshotVersion t \<and> hcfg_MaxVersionLag cfg > 0
        \<and> hcfg_ClusterBaselineVersion cfg - tm_SnapshotVersion t > hcfg_MaxVersionLag cfg)
   \<and> \<not> too_old (hcfg_MaxSnapshotLag cfg) (tm_LastAppliedAt t) (probe_time clock cfg)
   \<and> (tm_PubSubReachable t
        \<or> \<not> too_old (hcfg_MaxCoolingLock cfg) (tm_CoolingSince t) (probe_time clock cfg))"
  by (auto simp: EvaluateReadiness_def Let_def too_old_def probe_time_def)

text \<open>The version lag as natural numbers: the subtraction does not wrap where it is taken.\<close>

lemma version_lag_nat:
  "(v :: u64) < b \<Longrightarrow> l < b - v \<longleftrightarrow> unat l < unat b - unat v"
  by (simp add: word_less_nat_alt unat_sub word_le_nat_alt)

section \<open>Properties\<close>

text \<open>
  C35: the probe is exact and its version arithmetic does not wrap. A node is ready if and only if it
  has a nonzero snapshot and a readable log, its version is at most the configured number of versions
  behind the cluster (a zero limit disables this check), its last application is not too old, and the
  distribution channel is reachable or its cooling lock has not run out.
\<close>

theorem readiness_is_exact:
  "rr_Ready (EvaluateReadiness clock t cfg) \<longleftrightarrow>
     tm_SnapshotVersion t \<noteq> 0 \<and> tm_SnapshotHash t \<noteq> zero_bytes \<and> tm_WALReadable t
   \<and> (hcfg_MaxVersionLag cfg = 0
      \<or> unat (hcfg_ClusterBaselineVersion cfg)
          \<le> unat (tm_SnapshotVersion t) + unat (hcfg_MaxVersionLag cfg))
   \<and> \<not> too_old (hcfg_MaxSnapshotLag cfg) (tm_LastAppliedAt t) (probe_time clock cfg)
   \<and> \<not> (\<not> tm_PubSubReachable t
        \<and> too_old (hcfg_MaxCoolingLock cfg) (tm_CoolingSince t) (probe_time clock cfg))"
proof -
  have "(hcfg_ClusterBaselineVersion cfg > tm_SnapshotVersion t \<and> hcfg_MaxVersionLag cfg > 0
        \<and> hcfg_ClusterBaselineVersion cfg - tm_SnapshotVersion t > hcfg_MaxVersionLag cfg)
      \<longleftrightarrow> \<not> (hcfg_MaxVersionLag cfg = 0
      \<or> unat (hcfg_ClusterBaselineVersion cfg)
          \<le> unat (tm_SnapshotVersion t) + unat (hcfg_MaxVersionLag cfg))"
    using version_lag_nat [of "tm_SnapshotVersion t" "hcfg_ClusterBaselineVersion cfg"
        "hcfg_MaxVersionLag cfg"]
    by (auto simp: word_less_nat_alt unat_gt_0)
  then show ?thesis unfolding EvaluateReadiness_ready by blast
qed

text \<open>
  Waiting does not heal. A node that is unready at some time is unready at every later time, as
  long as its telemetry and the limits are the same.
\<close>

theorem unready_stays_unready:
  assumes "\<not> rr_Ready (EvaluateReadiness clock t (cfg\<lparr>hcfg_Now := now\<rparr>))"
    and "\<not> IsZero now" and "\<not> IsZero later" and "now \<le> later"
  shows "\<not> rr_Ready (EvaluateReadiness clock' t (cfg\<lparr>hcfg_Now := later\<rparr>))"
  using assms too_old_mono [OF _ assms(4)]
  by (auto simp: EvaluateReadiness_ready probe_time_def)

text \<open>
  An unreachable channel without a cooling timestamp never fails closed. A node with a nonzero
  snapshot and a readable log that has lost the distribution channel and whose telemetry carries no
  start of the cooling lock is reported ready at every time and with every cooling limit, if the two
  lag checks do not apply.
\<close>

theorem missing_cooling_start_stays_ready:
  assumes "tm_SnapshotVersion t \<noteq> 0" and "tm_SnapshotHash t \<noteq> zero_bytes" and "tm_WALReadable t"
    and "hcfg_MaxVersionLag cfg = 0" and "IsZero (tm_LastAppliedAt t)"
    and "\<not> tm_PubSubReachable t" and "IsZero (tm_CoolingSince t)"
  shows "EvaluateReadiness clock t (cfg\<lparr>hcfg_MaxCoolingLock := limit, hcfg_Now := now\<rparr>)
    = \<lparr>rr_Ready = True, rr_Reason = ''MAM_PUBSUB_COOLING_LOCK''\<rparr>"
  using assms by (simp add: EvaluateReadiness_def Let_def)

definition demo_telemetry :: SnapshotTelemetry where
  "demo_telemetry = \<lparr>tm_NodeID = ''n'', tm_SnapshotVersion = 3, tm_SnapshotHash = copy_bytes [1],
     tm_LastAppliedAt = zero_time, tm_WALReadable = True, tm_PubSubReachable = False,
     tm_CoolingSince = zero_time\<rparr>"

definition demo_config :: HealthConfig where
  "demo_config = \<lparr>hcfg_ClusterBaselineVersion = 9, hcfg_MaxVersionLag = 0, hcfg_MaxSnapshotLag = Second,
     hcfg_MaxCoolingLock = 30 * Second, hcfg_Now = 5\<rparr>"

lemma demo_hash: "(copy_bytes [1] :: hash32) \<noteq> zero_bytes"
  by (auto simp: zero_bytes_def list_of_bytes_copy simp flip: list_of_bytes_inject_iff
      dest!: arg_cong [where f = hd])

theorem unready_stays_unready_witness:
  "\<not> rr_Ready (EvaluateReadiness 0 (demo_telemetry\<lparr>tm_WALReadable := False\<rparr>) (demo_config\<lparr>hcfg_Now := 8\<rparr>))"
  by (rule unready_stays_unready [where cfg = demo_config and now = 7 and clock = 0])
    (simp_all add: EvaluateReadiness_ready demo_telemetry_def IsZero_def zero_time_def)

theorem missing_cooling_start_stays_ready_witness:
  "EvaluateReadiness 0 demo_telemetry
      (demo_config\<lparr>hcfg_MaxCoolingLock := 30 * Second, hcfg_Now := 365 * 24 * Hour\<rparr>)
    = \<lparr>rr_Ready = True, rr_Reason = ''MAM_PUBSUB_COOLING_LOCK''\<rparr>"
  using demo_hash
  by (intro missing_cooling_start_stays_ready) (simp_all add: demo_telemetry_def demo_config_def IsZero_def)

end
