(* ===== verification/Spec2Isabelle.thy ===== *)
theory Spec2Isabelle
  imports Sha256_Vector Monitor_Race Vectorstore Axis_Fixtures Harness Staging
begin

text \<open>
  A verification of the Veraxis memory admissibility manager (MAM), a Go program that decides which
  stored memories of an agent may enter a model's context, records each decision in a signed
  Session MAP, and keeps a durable ledger of quarantine, revocation and deletion events.

  \<^bold>\<open>The program.\<close> A memory carries 64-bit flags; a runtime carries a tenant, a domain and a mask.
  The hot path (\<^verbatim>\<open>pkg/evaluate\<close>) turns them into a decision. The runtime monitor
  (\<^verbatim>\<open>pkg/quarantine\<close>) adds what operators and the drift workers
  (\<^verbatim>\<open>pkg/axis\<close>) have reported since: events go to a ledger, in memory and in a file, and
  are compiled into a snapshot that readers load atomically. The gateway
  (\<^verbatim>\<open>pkg/gateway\<close>) applies both to a context window, replaces what is refused by tombstones
  and collects one Merkle leaf (\<^verbatim>\<open>pkg/merkle\<close>) per binding; after the provider call the
  leaves are signed into a manifest (\<^verbatim>\<open>pkg/sessionmap\<close>), which \<^verbatim>\<open>pkg/audit\<close>
  replays and links to consequence records. The orchestrator (\<^verbatim>\<open>pkg/orchestrator\<close>) runs
  such turns for sub-agents under a slot limit; \<^verbatim>\<open>pkg/rpc\<close> offers evaluation and event
  registration to remote clients; \<^verbatim>\<open>pkg/ops\<close> answers readiness probes; and
  \<^verbatim>\<open>pkg/integrations/vectorstore\<close> feeds retrieved vectors to the drift workers.

  \<^bold>\<open>The theories.\<close>
  \<^item> \<open>Mam_Prelude\<close>: fixed-size byte arrays, big-endian words, Go errors, times and maps, reachable
    states with the locale of their invariants, and the locale of relations that always finish.
  \<^item> \<open>Sha256\<close>, \<open>Sha256_Vector\<close>: the hash function, written out and checked on a test vector; no
    theorem uses more of it than that it is a function, collisions are explicit disjuncts.
  \<^item> \<open>Admission\<close>: \<^verbatim>\<open>pkg/bitmask\<close>, \<^verbatim>\<open>pkg/tenant\<close>, \<^verbatim>\<open>pkg/policy\<close>,
    \<^verbatim>\<open>pkg/evaluate\<close>; the hot path is the documented priority table.
  \<^item> \<open>Merkle\<close>: \<^verbatim>\<open>BuildTurnTree\<close>; roots bind the leaves and do not depend on their order.
  \<^item> \<open>Quarantine\<close>: \<^verbatim>\<open>quarantine.go\<close>; compilation refines the machine of a single memory
    (\<open>mem_step\<close>), snapshots are well formed, digests identify the enforced state.
  \<^item> \<open>Monitor_Race\<close>: concurrent writers of the monitor as a step relation, one step for each access
    to the shared state.
  \<^item> \<open>Ledger_File\<close>: \<^verbatim>\<open>persistence.go\<close>; framing, replay, tampering and torn writes, recovery.
  \<^item> \<open>Session_Map\<close>, \<open>Session_Audit\<close>: manifests, their verification and lineage records.
  \<^item> \<open>Gateway\<close>: the sanitizer, the provider adapters and the inference turn.
  \<^item> \<open>Rpc_Errors\<close>, \<open>Rpc\<close>: the error codes and the two handlers.
  \<^item> \<open>Go_Chan\<close>: buffered channels; \<open>Orchestrator\<close>: one handoff, and any interleaving of handoffs.
  \<^item> \<open>Go_Float\<close>, \<open>Axis\<close>, \<open>Axis_Worker\<close>: IEEE arithmetic, the drift engine, and the worker pool.
  \<^item> \<open>Float_Bounds\<close>, \<open>Axis_Numeric\<close>: error analysis of the arithmetic and what it gives for the drift
    check; \<open>Axis_Fixtures\<close>: \<^verbatim>\<open>benchmarks/axis_fixtures\<close>, whose vectors are classified as intended.
  \<^item> \<open>Vectorstore\<close>: the post-query hook; \<open>Ops_Health\<close>: readiness.
  \<^item> \<open>Harness\<close>: \<^verbatim>\<open>cmd/mam-harness\<close> and \<^verbatim>\<open>examples/clientloop\<close>, two programs over
    the gateway; \<open>Staging\<close>: \<^verbatim>\<open>cmd/staging-verify\<close>, the acceptance run over ledger, monitor,
    coordinator, workers and audit, with its gates and what it leaves on the disk.
  \<^item> \<open>Node\<close>: any number of calls of the server and of the drift workers in flight over one ledger file and
    one monitor, one step for each access to the shared state (\<open>handler_access\<close>, \<open>node_step\<close>), with appends
    to the file that may fail half way. A call that runs alone is \<open>RegisterRevocationEvent\<close>, respectively
    \<open>processJob\<close> (\<open>register_alone\<close>, \<open>drift_alone\<close>); the invariant relates file, ledger and snapshot in every
    interleaving; \<open>enforced\<close> says from when on an event is in force for good. What is not kept is proved
    too: a stale store can undo a block (\<open>stale_swap_loses_a_block\<close>), and the file and the monitor can take
    two events in different orders (\<open>restart_can_unblock\<close>). This theory holds the properties that span
    components.

  \<^bold>\<open>State and effects.\<close> Structs are records with the source's fields (a prefix keeps the selectors
  apart), nil pointers are \<open>None\<close>, errors are the left side of a sum or an option next to the new
  state, panics are \<open>None\<close>. Integers are words of their width; Go's \<^verbatim>\<open>int\<close> is \<open>int\<close> (the
  values here are lengths and indices). Maps are association lists in an arbitrary order, as Go
  iterates in an arbitrary order. Times are nanoseconds. The clock, the random source, the successive
  answers of a context and the outcomes of file writes are arguments. Concurrency is a step relation
  with invariants over all reachable states (\<open>race_step\<close>, \<open>node_step\<close>, \<open>handoff_step\<close>, \<open>axis_step\<close>), or, where
  one call reads a shared object several times, a function from the number of the read to the state that
  is seen. A step of \<open>race_step\<close> and \<open>node_step\<close> is one access to shared state: what the source does under a
  mutex (an append to the file, an append to the monitor's ledger, a copy of it) or with one atomic
  operation; what it does without a lock, like registering an event or compiling and storing a snapshot,
  is several steps that others interleave. In \<open>axis_step\<close> the processing of a job is one step, as its
  properties concern the queue and the counters; the accesses of a job are interleaved in \<open>node_step\<close>.

  \<^bold>\<open>Parameters.\<close> Ed25519 (\<open>ed25519_correct\<close>: a signature made with a key verifies with its public
  key), \<^verbatim>\<open>encoding/json\<close> (\<open>json_roundtrip\<close>: decoding an encoded event gives it back),
  \<^verbatim>\<open>sort.Slice\<close> (\<open>sorts_by_MemoryID\<close>: an ordered permutation), the model provider, the
  profile cache (a function of the identifier, the same during one call) and the snapshot registries. Each
  hypothesis has a concrete instance in a witness. Forged signatures and hash collisions are explicit
  disjuncts of the conclusions, not excluded by hypotheses.

  \<^bold>\<open>Termination.\<close> No fuel is used: the loops recurse on their lists, replay on the length of the rest
  of the file, the tree on the number of its nodes. Shutdown of the workers and completion of handoffs
  are proved as bounds on the number of steps together with reachability of the final state.

  \<^bold>\<open>Not modelled.\<close> \<^verbatim>\<open>cmd/mam-server\<close> and \<^verbatim>\<open>cmd/mam-bench\<close> (they construct a
  server, respectively nothing, and print), the Python and TypeScript SDKs, manifests and schemas;
  \<^verbatim>\<open>grpc_adapter.go\<close> holds no code. Errors of seeking and reading in
  \<^verbatim>\<open>replayFrom\<close> are not represented (a file that opens can be read); neither is a record cut
  short by \<^verbatim>\<open>os.Exit\<close> in the staging run, whose drill job is all or nothing at the exit. Slices are
  values, so the aliasing that \<^verbatim>\<open>cloneVector\<close> prevents cannot be expressed. Signed zeros and the
  payloads of NaNs are not distinguished. The transport, the operating system's buffering and
  wall-clock timeouts are outside.
\<close>

section \<open>The node across restarts\<close>

text \<open>
  C4: a crash loses nothing that was recorded. Let any registrations and drift jobs run on a node,
  interleaved at every access to the shared state and stopped between any two of them, and let none of
  the appends to the file have failed half way (nor, which leaves the same file, been cut off by the
  crash; C39 shows what then happens). Then recovery from the file succeeds and gives back the events in
  the order in which the file took them: those in the monitor's ledger and those that were on the way
  to it, among them every event whose call has returned. The recovered monitor refuses every memory
  with a blocking event and no clearing, and it gives a memory whose events are in the ledger in the
  order of the file the verdict that compiling the ledger gives.
\<close>

theorem node_survives_restart:
  assumes "reach (node_init js) (node_step js) nd" and "\<not> nd_torn nd"
    and "\<forall>e\<in>set (nd_filed nd). json_roundtrip js e" and "fl_file (nd_Ledger nd) = Some f"
  shows "\<exists>m' snap. RecoverMonitorFromFile js (Inr f) version now0 now1 = Inr (m', snap)
    \<and> Ledger m' = nd_filed nd
    \<and> mset (Ledger m') = mset (Ledger (nd_Monitor nd)) + mset (in_flight nd)
    \<and> (\<forall>e. HReturned (Some e) \<in> set (nd_handlers nd) \<longrightarrow> e \<in> set (Ledger m'))
    \<and> (\<forall>e\<in>set (Ledger m'). blocking_event (ev_EventType e) \<and> uncleared (ev_MemoryID e) (Ledger m') \<longrightarrow>
         rd_Decision (Lookup m' (ev_MemoryID e)) \<noteq> DecisionUse)
    \<and> (\<forall>mid. own_events mid (Ledger m') = own_events mid (Ledger (nd_Monitor nd)) \<longrightarrow>
         Lookup m' mid = Lookup (fst (CompileAndSwap (nd_Monitor nd) t)) mid)"
proof -
  have inv: "node_inv js nd" by (rule nodes.reach_I [OF assms(1)])
  obtain m' where m': "RecoverMonitorFromFile js (Inr f) version now0 now1
        = Inr (m', CompileSnapshot (nd_filed nd) version now1)"
      "Ledger m' = nd_filed nd" "\<forall>mid. Lookup m' mid = mem_verdict (mem_history mid (nd_filed nd))"
    using node_recovers [OF inv assms(2-4)] by blast
  have filed: "mset (nd_filed nd) = mset (Ledger (nd_Monitor nd)) + mset (in_flight nd)"
    using inv by (simp add: node_inv_def Ledger_def)
  have "e \<in> set (nd_filed nd)" if "HReturned (Some e) \<in> set (nd_handlers nd)" for e
  proof -
    from inv that have "handler_ok (mon_ledger (nd_Monitor nd)) (HReturned (Some e))"
      unfolding node_inv_def by blast
    then have "e \<in># mset (nd_filed nd)" unfolding filed by (simp add: Ledger_def)
    then show ?thesis by simp
  qed
  moreover have "Lookup m' mid = Lookup (fst (CompileAndSwap (nd_Monitor nd) t)) mid"
    if "own_events mid (nd_filed nd) = own_events mid (Ledger (nd_Monitor nd))" for mid
    using that m'(3) by (simp add: Lookup_CompileAndSwap mem_history_def Ledger_def)
  ultimately show ?thesis
    using m' filed uncleared_blocks [of _ "nd_filed nd"] by (intro exI conjI) auto
qed

text \<open>
  C2: a blocked memory never reaches an agent again, not even across a restart. Once a blocking event
  is enforced on a node (its call has stored its snapshot while every other call that holds a copy
  of the ledger has the event in it, or the node has booted from a log with the event), then whatever
  calls run on the node afterwards, in whatever interleaving, and as long as nobody files a clearing of
  the memory: every handoff whose gateway consults the node's monitor when it comes to the binding of
  this memory, or the monitor recovered from the untorn file, gives results (provider call, manifest,
  consequence token or error) in which the raw text bound to the memory plays no part.
\<close>

theorem blocked_memory_never_reaches_an_agent:
  assumes "enforced js e nd0" and "(node_step js)\<^sup>*\<^sup>* nd0 nd"
    and "blocking_event (ev_EventType e)" and "uncleared (ev_MemoryID e) (nd_filed nd)"
    and "hc_GatewayWrapper c = Some w" and "cw_RuntimeMonitor w = Some mon"
    and "mon k = nd_Monitor nd
      \<or> \<not> nd_torn nd \<and> (\<forall>g\<in>set (nd_filed nd). json_roundtrip js g) \<and> fl_file (nd_Ledger nd) = Some f
        \<and> RecoverMonitorFromFile js (Inr f) version now0 now1 = Inr (mon k, snap)"
    and "k < length (ha_bindings a)" and "mb_MemoryID (ha_bindings a ! k) = ev_MemoryID e"
    and "mb_MessageIdx (ha_bindings a ! k) = int i" and "i < length (ha_rawScratchpad a)"
  shows "snd (ExecuteAgentHandoff ed sorter now (Some c)
      (a\<lparr>ha_rawScratchpad := set_content (ha_rawScratchpad a) i other\<rparr>))
    = snd (ExecuteAgentHandoff ed sorter now (Some c) a)"
proof -
  have "rd_Decision (Lookup (mon k) (ev_MemoryID e)) \<noteq> DecisionUse"
    using assms(7) enforced_blocks [OF assms(1-4)] by metis
  with assms(9) have "rd_Decision (Lookup (mon k) (mb_MemoryID (ha_bindings a ! k))) \<noteq> DecisionUse"
    by simp
  with assms(6,8,10,11) show ?thesis
    by (intro handoff_same_window [OF assms(5)] SanitizeContextWindow_blocked [of w mon k]) simp_all
qed

section \<open>The two front ends\<close>


section \<open>Concrete instances\<close>

text \<open>
  Two registrations for one memory: the first has returned, the second has only reached the file.
\<close>

definition demo_first :: RevocationEvent where
  "demo_first = revocation_event (demo_revocation 1) (copy_bytes [5]) 1"

definition demo_second :: RevocationEvent where
  "demo_second = revocation_event (demo_revocation 2) (copy_bytes [6]) 3"

definition demo_calls :: "call list" where
  "demo_calls = [RegisterCall (Inr [5]) 1 2 None (Some (demo_revocation 1)),
     RegisterCall (Inr [6]) 3 4 None (Some (demo_revocation 2))]"

abbreviation demo_js :: json_codec where
  "demo_js \<equiv> table_codec [demo_first, demo_second]"

abbreviation demo_run :: "nat list \<Rightarrow> node" where
  "demo_run is \<equiv> fold (node_access demo_js) is (calls_on ''wal'' [] demo_calls)"

lemma demo_first_memory:
  "ev_MemoryID demo_first = copy_bytes (replicate 16 9)" "ev_MemoryID demo_second = copy_bytes (replicate 16 9)"
  "blocking_event (ev_EventType demo_first)" "ev_EventType demo_second \<noteq> EventClearQuarantine"
  "ev_EventType demo_first \<noteq> EventClearQuarantine"
  by (simp_all add: demo_first_def demo_second_def revocation_event_def demo_revocation_def
      EventType_of_u8_def blocking_event_def)

lemma demo_events_roundtrip: "json_roundtrip demo_js demo_first" "json_roundtrip demo_js demo_second"
proof -
  have "demo_first \<noteq> demo_second"
    by (auto simp: demo_first_def demo_second_def revocation_event_def dest: arg_cong [where f = ev_CreatedAt])
  then show "json_roundtrip demo_js demo_first" "json_roundtrip demo_js demo_second"
    by (simp_all add: json_roundtrip_def table_codec_def payload_ok_def)
qed

lemma demo_call_events:
  "map call_event demo_calls = [Some (demo_first, 2), Some (demo_second, 4)]"
  by (simp add: demo_calls_def register_event_def newEventID_def demo_first_def demo_second_def)
    (simp add: demo_revocation_def)

lemma demo_call_event_nth:
  "call_event (demo_calls ! 0) = Some (demo_first, 2)" "call_event (demo_calls ! Suc 0) = Some (demo_second, 4)"
  "map HCalled demo_calls = [HCalled (demo_calls ! 0), HCalled (demo_calls ! Suc 0)]"
  using demo_call_events by (simp_all add: demo_calls_def)

lemmas demo_run_simps = calls_on_def node_access_def demo_call_event_nth demo_events_roundtrip
  ledger_AppendEvent_plain Let_def next_version_def

lemma demo_run_storing:
  "\<exists>v t. nd_handlers (demo_run [0, 0, 0, 0, 0])
     = [HEnforce demo_first (WVersioned [demo_first] v t), HCalled (demo_calls ! Suc 0)]"
  by (simp add: demo_run_simps Ledger_def NewRuntimeMonitor_def)

lemma demo_run_crashed:
  "nd_handlers (demo_run [0, 0, 0, 0, 0, 0, 0, 1, 1])
     = [HReturned (Some demo_first), HEnforce demo_second (WStart demo_second 4)]"
  "nd_filed (demo_run [0, 0, 0, 0, 0, 0, 0, 1, 1]) = [demo_first, demo_second]"
  "\<not> nd_torn (demo_run [0, 0, 0, 0, 0, 0, 0, 1, 1])"
  "\<exists>f. fl_file (nd_Ledger (demo_run [0, 0, 0, 0, 0, 0, 0, 1, 1])) = Some f"
  "Ledger (nd_Monitor (demo_run [0, 0, 0, 0, 0, 0, 0, 1, 1])) = [demo_first]"
  by (simp_all add: demo_run_simps Ledger_def NewRuntimeMonitor_def)

lemma demo_run_reach: "reach (node_init demo_js) (node_step demo_js) (demo_run is)" if "set is \<subseteq> {0, 1}"
  using that by (intro schedule_reach calls_on_reach) (auto simp: calls_on_def demo_calls_def)

theorem node_survives_restart_witness:
  "\<exists>nd f m' snap. reach (node_init demo_js) (node_step demo_js) nd
     \<and> nd_handlers nd = [HReturned (Some demo_first), HEnforce demo_second (WStart demo_second 4)]
     \<and> Ledger (nd_Monitor nd) = [demo_first] \<and> fl_file (nd_Ledger nd) = Some f
     \<and> RecoverMonitorFromFile demo_js (Inr f) 1 2 3 = Inr (m', snap) \<and> Ledger m' = [demo_first, demo_second]
     \<and> rd_Decision (Lookup m' (copy_bytes (replicate 16 9))) \<noteq> DecisionUse"
proof -
  let ?nd = "demo_run [0, 0, 0, 0, 0, 0, 0, 1, 1]"
  have R: "reach (node_init demo_js) (node_step demo_js) ?nd" by (rule demo_run_reach) simp
  obtain f where f: "fl_file (nd_Ledger ?nd) = Some f" using demo_run_crashed(4) by blast
  have "\<forall>e\<in>set (nd_filed ?nd). json_roundtrip demo_js e"
    unfolding demo_run_crashed(2) by (simp add: demo_events_roundtrip)
  from node_survives_restart [OF R demo_run_crashed(3) this f, of 1 2 3] obtain m' snap where m':
      "RecoverMonitorFromFile demo_js (Inr f) 1 2 3 = Inr (m', snap)" "Ledger m' = nd_filed ?nd"
      "\<forall>e\<in>set (Ledger m'). blocking_event (ev_EventType e) \<and> uncleared (ev_MemoryID e) (Ledger m') \<longrightarrow>
         rd_Decision (Lookup m' (ev_MemoryID e)) \<noteq> DecisionUse"
    by blast
  have "rd_Decision (Lookup m' (ev_MemoryID demo_first)) \<noteq> DecisionUse"
    using m'(3) unfolding m'(2) demo_run_crashed(2)
    by (simp add: uncleared_def demo_first_memory)
  with R f m'(1,2) demo_run_crashed show ?thesis unfolding demo_first_memory(1) by metis
qed

definition demo_node_args :: handoff_args where
  "demo_node_args = (demo_args 9 ''eep'')\<lparr>ha_bindings :=
     [\<lparr>mb_MemoryID = copy_bytes (replicate 16 9), mb_MemoryHash = zero_bytes, mb_MessageIdx = 1\<rparr>]\<rparr>"

definition demo_node_coordinator :: "RuntimeMonitor \<Rightarrow> HandoffCoordinator" where
  "demo_node_coordinator m =
     NewHandoffCoordinator (Some (demo_wrapper (Some (\<lambda>_. m)))) (Some demo_provider) ''k'' demo_key 1"

theorem blocked_memory_never_reaches_an_agent_witness:
  "\<exists>nd :: node. Ledger (nd_Monitor nd) = [demo_first]
     \<and> nd_handlers nd = [HReturned (Some demo_first), HEnforce demo_second (WStart demo_second 4)]
     \<and> snd (ExecuteAgentHandoff mac_scheme (sort_key lr_MemoryID) 0 (Some (demo_node_coordinator (nd_Monitor nd)))
         (demo_node_args\<lparr>ha_rawScratchpad := set_content (ha_rawScratchpad demo_node_args) 1 ''other''\<rparr>))
       = snd (ExecuteAgentHandoff mac_scheme (sort_key lr_MemoryID) 0
           (Some (demo_node_coordinator (nd_Monitor nd))) demo_node_args)"
proof -
  let ?before = "demo_run [0, 0, 0, 0, 0]" and ?nd = "demo_run [0, 0, 0, 0, 0, 0, 0, 1, 1]"
  let ?stored = "node_access demo_js 0 ?before" and ?w = "demo_wrapper (Some (\<lambda>_. nd_Monitor ?nd))"
  have R: "reach (node_init demo_js) (node_step demo_js) ?before" by (rule demo_run_reach) simp
  obtain v t where hs: "nd_handlers ?before
      = [HEnforce demo_first (WVersioned [demo_first] v t), HCalled (demo_calls ! Suc 0)]"
    using demo_run_storing by blast
  have enf: "enforced demo_js demo_first ?stored"
    by (rule enforced.stored [OF R, where evs = "[demo_first]" and v = v and t = t]) (unfold hs, simp_all)
  have steps: "(node_step demo_js)\<^sup>*\<^sup>* ?stored ?nd"
    using schedule_steps [of "[0, 1, 1]" ?stored demo_js] by (simp add: calls_on_def demo_calls_def)
  have clear: "uncleared (ev_MemoryID demo_first) (nd_filed ?nd)"
    unfolding demo_run_crashed(2) by (simp add: uncleared_def demo_first_memory)
  have args: "ha_bindings demo_node_args = [\<lparr>mb_MemoryID = ev_MemoryID demo_first,
      mb_MemoryHash = zero_bytes, mb_MessageIdx = 1\<rparr>]" "length (ha_rawScratchpad demo_node_args) = 2"
    by (simp_all add: demo_node_args_def demo_first_memory demo_args_def demo_messages_def)
  have "snd (ExecuteAgentHandoff mac_scheme (sort_key lr_MemoryID) 0
      (Some (demo_node_coordinator (nd_Monitor ?nd)))
      (demo_node_args\<lparr>ha_rawScratchpad := set_content (ha_rawScratchpad demo_node_args) 1 ''other''\<rparr>))
    = snd (ExecuteAgentHandoff mac_scheme (sort_key lr_MemoryID) 0
        (Some (demo_node_coordinator (nd_Monitor ?nd))) demo_node_args)"
  proof (rule blocked_memory_never_reaches_an_agent [OF enf steps demo_first_memory(3) clear, where k = 0])
    show "hc_GatewayWrapper (demo_node_coordinator (nd_Monitor ?nd)) = Some ?w"
      by (simp only: demo_node_coordinator_def NewHandoffCoordinator_def Let_def HandoffCoordinator.simps)
    show "cw_RuntimeMonitor ?w = Some (\<lambda>_. nd_Monitor ?nd)"
      by (simp only: demo_wrapper_def ClientWrapper.simps)
  qed (simp_all only: args list.size nth_Cons_0 MemoryContextBinding.simps, simp_all)
  with demo_run_crashed(1,5) show ?thesis by blast
qed


end
